(* ===== verification/Prelude.thy ===== *)
theory Prelude
  imports Complex_Main "HOL-Library.AList"
begin

text \<open>
  Shared vocabulary of the development: UTF-16 strings, fallible results, property tables
  in insertion order, and the lemma collections the component theories use.

  A JavaScript string is a sequence of UTF-16 code units, so \<open>jstr\<close> is a list of
  naturals and \<open>js ''...''\<close> writes an ASCII literal; \<open>s.length\<close> is
  \<open>length s\<close>.  An object's own properties are an association list in creation order;
  assignment is \<open>AList.update\<close>, which overwrites in place and appends a new key, as a
  property assignment does.  A thrown error is \<open>Inl\<close>.
\<close>

named_theorems fuel_intros "facts that a computation does not run out of fuel"
named_theorems inv_intros "facts that an operation keeps its component's invariant"

section \<open>Strings\<close>

type_synonym code_unit = nat
type_synonym jstr = "code_unit list"

abbreviation cu :: "char \<Rightarrow> code_unit" where
  "cu c \<equiv> of_char c"

primrec js :: "string \<Rightarrow> jstr" where
  "js [] = []"
| "js (c # cs) = of_char c # js cs"

lemma js_map: "js s = map of_char s"
  by (induction s) simp_all

lemma js_inject [simp]: "js s = js t \<longleftrightarrow> s = t"
  by (simp add: js_map inj_map_eq_map inj_def)

lemma length_js [simp]: "length (js s) = length s"
  by (simp add: js_map)

section \<open>Fallible results\<close>

text \<open>\<open>bindR m f\<close> is the statement sequence: an error of \<open>m\<close> skips \<open>f\<close>.\<close>

primrec bindR :: "'e + 'a \<Rightarrow> ('a \<Rightarrow> 'e + 'b) \<Rightarrow> 'e + 'b" where
  "bindR (Inl e) f = Inl e"
| "bindR (Inr x) f = f x"

lemma bindR_eq_Inr [simp]: "bindR m f = Inr y \<longleftrightarrow> (\<exists>x. m = Inr x \<and> f x = Inr y)"
  by (cases m) simp_all

lemma bindR_eq_Inl: "bindR m f = Inl e \<longleftrightarrow> m = Inl e \<or> (\<exists>x. m = Inr x \<and> f x = Inl e)"
  by (cases m) simp_all

lemma bindR_assoc: "bindR (bindR m f) g = bindR m (\<lambda>x. bindR (f x) g)"
  by (cases m) simp_all

lemma bindR_cong [fundef_cong]:
  "m = m' \<Longrightarrow> (\<And>x. m' = Inr x \<Longrightarrow> f x = f' x) \<Longrightarrow> bindR m f = bindR m' f'"
  by (cases m') simp_all

text \<open>An array's \<open>map\<close> with a callback that may throw: the first error ends it.\<close>

fun mapR :: "('a \<Rightarrow> 'e + 'b) \<Rightarrow> 'a list \<Rightarrow> 'e + 'b list" where
  "mapR f [] = Inr []"
| "mapR f (x # xs) = bindR (f x) (\<lambda>y. bindR (mapR f xs) (\<lambda>ys. Inr (y # ys)))"

lemma mapR_cong [fundef_cong]:
  "xs = ys \<Longrightarrow> (\<And>x. x \<in> set ys \<Longrightarrow> f x = g x) \<Longrightarrow> mapR f xs = mapR g ys"
  by (induction ys arbitrary: xs) auto

lemma length_mapR: "mapR f xs = Inr ys \<Longrightarrow> length ys = length xs"
  by (induction xs arbitrary: ys) auto

lemma mapR_rel2:
  assumes "mapR f xs = Inr ys" and "mapR g xs = Inr zs"
    and "\<And>x y z. x \<in> set xs \<Longrightarrow> f x = Inr y \<Longrightarrow> g x = Inr z \<Longrightarrow> P y z"
  shows "list_all2 P ys zs"
  using assms
proof (induction xs arbitrary: ys zs)
  case (Cons x xs)
  from Cons.prems(1,2) obtain y ys' z zs' where "f x = Inr y" "g x = Inr z" "ys = y # ys'" "zs = z # zs'"
    "mapR f xs = Inr ys'" "mapR g xs = Inr zs'" by auto
  moreover from this have "P y z" by (intro Cons.prems(3)[of x]) simp_all
  moreover have "list_all2 P ys' zs'"
    by (rule Cons.IH) (use \<open>mapR f xs = _\<close> \<open>mapR g xs = _\<close> Cons.prems(3) in auto)
  ultimately show ?case by simp
qed simp

text \<open>The same with a state that the callback threads along.\<close>

fun mapS :: "('a \<Rightarrow> 's \<Rightarrow> 'e + 'b \<times> 's) \<Rightarrow> 'a list \<Rightarrow> 's \<Rightarrow> 'e + 'b list \<times> 's" where
  "mapS f [] s = Inr ([], s)"
| "mapS f (x # xs) s =
     bindR (f x s) (\<lambda>(y, s'). bindR (mapS f xs s') (\<lambda>(ys, s''). Inr (y # ys, s'')))"

lemma mapS_cong [fundef_cong]:
  "xs = ys \<Longrightarrow> s = t \<Longrightarrow> (\<And>x u. x \<in> set ys \<Longrightarrow> f x u = g x u) \<Longrightarrow> mapS f xs s = mapS g ys t"
proof (induction ys arbitrary: xs s t)
  case (Cons y ys)
  then have "mapS f ys = mapS g ys" by (simp add: fun_eq_iff)
  with Cons.prems show ?case by simp
qed simp

lemma length_mapS: "mapS f xs s = Inr (ys, t) \<Longrightarrow> length ys = length xs"
  by (induction xs arbitrary: s ys) auto

section \<open>Property tables\<close>

lemma map_of_update [simp]: "map_of (AList.update k v t) = (map_of t)(k \<mapsto> v)"
  by (simp add: update_conv')

lemma keys_update: "fst ` set (AList.update k v t) = insert k (fst ` set t)"
  by (induction t) auto

section \<open>Lists\<close>

lemma length_dropWhile_Suc [simp]: "length (dropWhile p xs) < Suc (length xs)"
  by (simp add: length_dropWhile_le le_imp_less_Suc)

lemma takeWhile_all: "list_all p (takeWhile p xs)"
  by (induction xs) auto

text \<open>A row is what its key finds.\<close>

lemma find_key: "distinct (map k xs) \<Longrightarrow> List.find (\<lambda>x. k x = i) xs = Some x \<longleftrightarrow> x \<in> set xs \<and> k x = i"
  by (induction xs) (auto simp: rev_image_eqI)

lemma find_SomeD: "List.find P xs = Some x \<Longrightarrow> x \<in> set xs \<and> P x"
  by (auto simp: find_Some_iff)

text \<open>An invariant of the steps of a loop is one of the loop.\<close>

lemma fold_keeps: "P s \<Longrightarrow> (\<And>x s. P s \<Longrightarrow> P (f x s)) \<Longrightarrow> P (fold f xs s)"
  by (induction xs arbitrary: s) simp_all

end
