(* ===== verification/JsString.thy ===== *)
theory JsString
  imports Prelude "HOL-Library.Sublist"
begin

text \<open>
  The string operations of the language that the sources call: character classes of their
  regular expressions, \<open>trim\<close>, \<open>split\<close>, \<open>join\<close>, \<open>includes\<close>, \<open>startsWith\<close>,
  \<open>endsWith\<close>, ASCII lower case, decimal digits and the UTF-8 length.
\<close>

section \<open>Character classes\<close>

definition is_digit :: "code_unit \<Rightarrow> bool" where
  "is_digit c \<longleftrightarrow> 48 \<le> c \<and> c \<le> 57"

definition is_lower :: "code_unit \<Rightarrow> bool" where
  "is_lower c \<longleftrightarrow> 97 \<le> c \<and> c \<le> 122"

definition is_upper :: "code_unit \<Rightarrow> bool" where
  "is_upper c \<longleftrightarrow> 65 \<le> c \<and> c \<le> 90"

definition is_alpha :: "code_unit \<Rightarrow> bool" where
  "is_alpha c \<longleftrightarrow> is_lower c \<or> is_upper c"

definition is_hex :: "code_unit \<Rightarrow> bool" where
  "is_hex c \<longleftrightarrow> is_digit c \<or> (97 \<le> c \<and> c \<le> 102) \<or> (65 \<le> c \<and> c \<le> 70)"

text \<open>The class \<open>\\s\<close>, which is also what \<open>trim\<close> strips: white space and line ends.\<close>

definition is_space :: "code_unit \<Rightarrow> bool" where
  "is_space c \<longleftrightarrow> (9 \<le> c \<and> c \<le> 13) \<or> c = 32 \<or> c = 160 \<or> c = 5760 \<or>
     (8192 \<le> c \<and> c \<le> 8202) \<or> c = 8232 \<or> c = 8233 \<or> c = 8239 \<or> c = 8287 \<or>
     c = 12288 \<or> c = 65279"

lemmas char_class_defs =
  is_digit_def is_lower_def is_upper_def is_alpha_def is_hex_def is_space_def

definition lower_unit :: "code_unit \<Rightarrow> code_unit" where
  "lower_unit c = (if is_upper c then c + 32 else c)"

text \<open>\<open>toLowerCase\<close> on ASCII text.\<close>

definition ascii_lower :: "jstr \<Rightarrow> jstr" where
  "ascii_lower s = map lower_unit s"

lemma length_ascii_lower [simp]: "length (ascii_lower s) = length s"
  by (simp add: ascii_lower_def)

lemma not_upper_lower_unit [simp]: "\<not> is_upper (lower_unit c)"
  by (auto simp: lower_unit_def is_upper_def)

lemma ascii_lower_idem [simp]: "ascii_lower (ascii_lower s) = ascii_lower s"
  by (auto simp: ascii_lower_def lower_unit_def is_upper_def)

section \<open>trim\<close>

definition trim_start :: "jstr \<Rightarrow> jstr" where
  "trim_start s = dropWhile is_space s"

definition trim :: "jstr \<Rightarrow> jstr" where
  "trim s = rev (dropWhile is_space (rev (dropWhile is_space s)))"

lemma trim_Nil [simp]: "trim [] = []"
  by (simp add: trim_def)

lemma set_trim: "set (trim s) \<subseteq> set s"
  by (auto simp: trim_def dest!: set_dropWhileD)

lemma trim_last: "trim s \<noteq> [] \<Longrightarrow> \<not> is_space (last (trim s))"
  by (simp add: trim_def last_rev hd_dropWhile)

section \<open>startsWith, endsWith, includes\<close>

definition starts_with :: "jstr \<Rightarrow> jstr \<Rightarrow> bool" where
  "starts_with s p \<longleftrightarrow> take (length p) s = p"

definition ends_with :: "jstr \<Rightarrow> jstr \<Rightarrow> bool" where
  "ends_with s p \<longleftrightarrow> starts_with (rev s) (rev p)"

fun str_includes :: "jstr \<Rightarrow> jstr \<Rightarrow> bool" where
  "str_includes [] p = (p = [])"
| "str_includes (c # cs) p = (starts_with (c # cs) p \<or> str_includes cs p)"

lemma starts_with_prefix: "starts_with s p \<longleftrightarrow> prefix p s"
proof
  assume "starts_with s p"
  then have "s = p @ drop (length p) s"
    by (metis append_take_drop_id starts_with_def)
  then show "prefix p s" by (rule prefixI)
qed (auto simp: starts_with_def prefix_def)

lemma ends_with_suffix: "ends_with s p \<longleftrightarrow> suffix p s"
  by (simp add: ends_with_def starts_with_prefix suffix_to_prefix)

lemma str_includes_sublist: "str_includes s p \<longleftrightarrow> sublist p s"
  by (induction s) (auto simp: starts_with_prefix sublist_Cons_right)

section \<open>split and join\<close>

text \<open>
  \<open>s.split(sep)\<close>: the pieces between the leftmost disjoint occurrences of \<open>sep\<close>; an empty
  separator gives the code units.  \<open>cur\<close> is the piece being read, reversed.
\<close>

function split_at :: "jstr \<Rightarrow> jstr \<Rightarrow> jstr \<Rightarrow> jstr list" where
  "split_at sep cur [] = [rev cur]"
| "split_at sep cur (c # cs) =
     (if sep \<noteq> [] \<and> starts_with (c # cs) sep
      then rev cur # split_at sep [] (drop (length sep) (c # cs))
      else split_at sep (c # cur) cs)"
  by pat_completeness auto
termination
  by (relation "measure (\<lambda>(sep, cur, s). length s)") auto

definition str_split :: "jstr \<Rightarrow> jstr \<Rightarrow> jstr list" where
  "str_split s sep = (if sep = [] then map (\<lambda>c. [c]) s else split_at sep [] s)"

fun join :: "jstr list \<Rightarrow> jstr \<Rightarrow> jstr" where
  "join [] sep = []"
| "join [x] sep = x"
| "join (x # y # ys) sep = x @ sep @ join (y # ys) sep"

lemma split_at_not_Nil [simp]: "split_at sep cur s \<noteq> []"
  by (induction sep cur s rule: split_at.induct) auto

lemma join_Cons: "ys \<noteq> [] \<Longrightarrow> join (x # ys) sep = x @ sep @ join ys sep"
  by (cases ys) auto

lemma join_split_at: "join (split_at sep cur s) sep = rev cur @ s"
proof (induction sep cur s rule: split_at.induct)
  case (2 sep cur c cs)
  show ?case
  proof (cases "sep \<noteq> [] \<and> starts_with (c # cs) sep")
    case True
    then have "sep @ drop (length sep) (c # cs) = c # cs"
      by (metis append_take_drop_id starts_with_def)
    with True "2.IH"(1) show ?thesis by (simp add: join_Cons)
  next
    case False
    with "2.IH"(2) show ?thesis by auto
  qed
qed simp

text \<open>Joining what was split gives the string back.\<close>

lemma join_str_split: "join (str_split s sep) sep = s"
proof (cases "sep = []")
  case True
  have "join (map (\<lambda>c. [c]) s) [] = s"
    by (induction s rule: induct_list012) auto
  with True show ?thesis by (simp add: str_split_def)
next
  case False
  then show ?thesis by (simp add: str_split_def join_split_at)
qed

text \<open>Splitting what was joined with one unit that is in none of the pieces.\<close>

lemma split_at_piece: "c \<notin> set x \<Longrightarrow> split_at [c] cur x = [rev cur @ x]"
  by (induction x arbitrary: cur) (auto simp: starts_with_def)

lemma split_at_piece_sep:
  "c \<notin> set x \<Longrightarrow> split_at [c] cur (x @ c # s) = (rev cur @ x) # split_at [c] [] s"
  by (induction x arbitrary: cur) (auto simp: starts_with_def)

lemma str_split_join:
  assumes "xs \<noteq> []" "\<forall>x \<in> set xs. c \<notin> set x"
  shows "str_split (join xs [c]) [c] = xs"
proof -
  have "split_at [c] [] (join xs [c]) = xs"
    using assms
  proof (induction xs rule: induct_list012)
    case (3 x y zs)
    have "split_at [c] [] (join (x # y # zs) [c]) = x # split_at [c] [] (join (y # zs) [c])"
      using split_at_piece_sep[of c x "[]" "join (y # zs) [c]"] 3(4) by simp
    with 3 show ?case by simp
  qed (simp_all add: split_at_piece)
  then show ?thesis by (simp add: str_split_def)
qed

text \<open>Splitting at a run of white space, \<open>trim().split(/\\s+/)\<close>.\<close>

function split_ws :: "jstr \<Rightarrow> jstr list" where
  "split_ws s =
     (let w = takeWhile (\<lambda>c. \<not> is_space c) s; r = dropWhile (\<lambda>c. \<not> is_space c) s
      in if r = [] then [w] else w # split_ws (dropWhile is_space r))"
  by pat_completeness auto
termination
proof (relation "measure length", goal_cases)
  case (2 s w r)
  then have "is_space (hd r)" "r \<noteq> []"
    using hd_dropWhile[of "\<lambda>c. \<not> is_space c" s] by auto
  then have "length (dropWhile is_space r) < length r"
    by (cases r) (auto simp: length_dropWhile_le le_imp_less_Suc)
  moreover have "length r \<le> length s"
    using 2 by (simp add: length_dropWhile_le)
  ultimately show ?case by simp
qed simp

declare split_ws.simps [simp del]

section \<open>Decimal digits\<close>

definition digit_val :: "code_unit \<Rightarrow> nat" where
  "digit_val c = c - 48"

definition digits_val :: "jstr \<Rightarrow> nat" where
  "digits_val s = foldl (\<lambda>n c. 10 * n + digit_val c) 0 s"

definition hex_val :: "code_unit \<Rightarrow> nat" where
  "hex_val c = (if is_digit c then c - 48 else if 97 \<le> c then c - 87 else c - 55)"

definition hexs_val :: "jstr \<Rightarrow> nat" where
  "hexs_val s = foldl (\<lambda>n c. 16 * n + hex_val c) 0 s"

text \<open>\<open>String(n)\<close> of a natural number.\<close>

fun nat_str :: "nat \<Rightarrow> jstr" where
  "nat_str n = (if n < 10 then [48 + n] else nat_str (n div 10) @ [48 + n mod 10])"

declare nat_str.simps [simp del]

lemma digits_val_append: "digits_val (s @ [c]) = 10 * digits_val s + digit_val c"
  by (simp add: digits_val_def)

lemma is_digit_mod [simp]: "is_digit (48 + n mod 10)"
proof -
  have "n mod 10 < (10::nat)" by simp
  then show ?thesis unfolding is_digit_def by linarith
qed

lemma digits_nat_str [simp]: "list_all is_digit (nat_str n)"
proof (induction n rule: nat_str.induct)
  case (1 n)
  show ?case
  proof (cases "n < 10")
    case True
    then show ?thesis by (subst nat_str.simps) (simp add: is_digit_def)
  next
    case False
    with 1 show ?thesis by (subst nat_str.simps) simp
  qed
qed

lemma digits_val_nat_str [simp]: "digits_val (nat_str n) = n"
proof (induction n rule: nat_str.induct)
  case (1 n)
  show ?case
  proof (cases "n < 10")
    case True
    then show ?thesis by (subst nat_str.simps) (simp add: digits_val_def digit_val_def)
  next
    case False
    with 1 show ?thesis
      by (subst nat_str.simps) (simp add: digits_val_append digit_val_def)
  qed
qed

lemma nat_str_inject [simp]: "nat_str m = nat_str n \<longleftrightarrow> m = n"
  by (metis digits_val_nat_str)

lemma nat_str_not_Nil [simp]: "nat_str n \<noteq> []"
  by (subst nat_str.simps) simp

section \<open>UTF-8 length\<close>

text \<open>
  The bytes of the string's UTF-8 encoding: a surrogate pair takes four, a lone surrogate is
  replaced by U+FFFD, which takes three.
\<close>

fun utf8_length :: "jstr \<Rightarrow> nat" where
  "utf8_length [] = 0"
| "utf8_length [c] = (if c < 128 then 1 else if c < 2048 then 2 else 3)"
| "utf8_length (c # d # s) =
     (if c < 128 then 1 + utf8_length (d # s)
      else if c < 2048 then 2 + utf8_length (d # s)
      else if 55296 \<le> c \<and> c < 56320 \<and> 56320 \<le> d \<and> d < 57344 then 4 + utf8_length s
      else 3 + utf8_length (d # s))"

lemma utf8_length_ge: "length s \<le> utf8_length s"
  by (induction s rule: utf8_length.induct) auto

lemma utf8_length_ascii: "list_all (\<lambda>c. c < 128) s \<Longrightarrow> utf8_length s = length s"
  by (induction s rule: utf8_length.induct) auto

end
