(* ===== verification/JsNumber.thy ===== *)
theory JsNumber
  imports JsString
begin

text \<open>
  The language's numbers: IEEE 754 doubles.  A finite non-zero double is its exact rational
  value; the two zeros are \<open>Num 0\<close> and \<open>NegZero\<close>.  Every arithmetic operation computes the
  exact rational result and rounds it once (\<open>round_double\<close>: to nearest, ties to even, gradual
  underflow, overflow to an infinity), which is what the standard prescribes.
\<close>

datatype jsnum = NaN | Infinity (negative: bool) | NegZero | Num (rat_of: rat)

section \<open>Rounding\<close>

fun bit_length :: "nat \<Rightarrow> nat" where
  "bit_length n = (if n = 0 then 0 else Suc (bit_length (n div 2)))"

declare bit_length.simps [simp del]

definition pow2 :: "int \<Rightarrow> rat" where
  "pow2 k = (if 0 \<le> k then 2 ^ nat k else 1 / 2 ^ nat (- k))"

definition pow10 :: "int \<Rightarrow> rat" where
  "pow10 k = (if 0 \<le> k then 10 ^ nat k else 1 / 10 ^ nat (- k))"

text \<open>The binary exponent of a positive rational: \<open>pow2 e \<le> r < pow2 (e + 1)\<close>.\<close>

definition bin_exp :: "rat \<Rightarrow> int" where
  "bin_exp r = (case quotient_of r of (n, d) \<Rightarrow>
     let k = int (bit_length (nat n)) - int (bit_length (nat d))
     in if pow2 k \<le> r then k else k - 1)"

text \<open>Rounding a non-negative rational to an integer, ties to even.\<close>

definition half_even :: "rat \<Rightarrow> int" where
  "half_even q = (let f = \<lfloor>q\<rfloor>; r = q - of_int f
     in if r < 1/2 then f else if 1/2 < r then f + 1 else if even f then f else f + 1)"

definition round_double :: "rat \<Rightarrow> jsnum" where
  "round_double r =
     (if r = 0 then Num 0
      else let a = \<bar>r\<bar>; ulp = pow2 (max (bin_exp a - 52) (- 1074));
               v = of_int (half_even (a / ulp)) * ulp
           in if pow2 1024 \<le> v then Infinity (r < 0)
              else if v = 0 then (if r < 0 then NegZero else Num 0)
              else Num (if r < 0 then - v else v))"

subsection \<open>Integers of at most 53 bits are doubles\<close>

lemma bit_length_bounds: "0 < n \<Longrightarrow> 2 ^ (bit_length n - 1) \<le> n \<and> n < 2 ^ bit_length n"
proof (induction n rule: bit_length.induct)
  case (1 n)
  show ?case
  proof (cases "n div 2 = 0")
    case True
    with 1(2) have "n = 1" by linarith
    then show ?thesis by (simp add: bit_length.simps)
  next
    case False
    with 1 have IH: "2 ^ (bit_length (n div 2) - 1) \<le> n div 2" "n div 2 < 2 ^ bit_length (n div 2)"
      by auto
    from False have "0 < bit_length (n div 2)" by (subst bit_length.simps) simp
    then obtain k where k: "bit_length (n div 2) = Suc k" by (cases "bit_length (n div 2)") auto
    from 1(2) have "bit_length n = Suc (Suc k)" by (subst bit_length.simps) (simp add: k)
    with IH k show ?thesis by simp linarith
  qed
qed

lemma pow2_pos [simp]: "0 < pow2 k"
  by (simp add: pow2_def)

lemma pow2_powi: "pow2 k = 2 powi k"
  by (simp add: pow2_def power_int_def power_inverse inverse_eq_divide power_one_over)

lemma pow2_add: "pow2 (a + b) = pow2 a * pow2 b"
  by (simp add: pow2_powi power_int_add)

lemma pow2_mono: "a \<le> b \<Longrightarrow> pow2 a \<le> pow2 b"
  by (simp add: pow2_powi power_int_increasing)

lemma pow2_less_iff: "pow2 a < pow2 b \<longleftrightarrow> a < b"
proof
  assume "pow2 a < pow2 b"
  then show "a < b" using pow2_mono[of b a] by (meson leD not_le)
next
  assume "a < b"
  then show "pow2 a < pow2 b" by (simp add: pow2_powi power_int_strict_increasing)
qed

lemma of_nat_bounds:
  assumes "2 ^ i \<le> (n::nat)" "n < 2 ^ Suc i"
  shows "(2::rat) ^ i \<le> of_nat n" "of_nat n < (2::rat) ^ Suc i"
proof -
  have "(of_nat (2 ^ i) :: rat) \<le> of_nat n" using assms(1) by (simp only: of_nat_le_iff)
  then show "(2::rat) ^ i \<le> of_nat n" by simp
  have "(of_nat n :: rat) < of_nat (2 ^ Suc i)" using assms(2) by (simp only: of_nat_less_iff)
  then show "of_nat n < (2::rat) ^ Suc i" by simp
qed

lemma bin_exp_bounds:
  assumes "0 < r"
  shows "pow2 (bin_exp r) \<le> r \<and> r < pow2 (bin_exp r + 1)"
proof -
  obtain n d where q: "quotient_of r = (n, d)" by (cases "quotient_of r")
  have d: "0 < d" using quotient_of_denom_pos[OF q] .
  have r: "r = of_int n / of_int d" using quotient_of_div[OF q] .
  have n: "0 < n" using assms d by (simp add: r zero_less_divide_iff)
  let ?a = "bit_length (nat n)" and ?b = "bit_length (nat d)"
  have "0 < ?a" "0 < ?b" using n d by (subst bit_length.simps, simp)+
  then obtain i j where ij: "?a = Suc i" "?b = Suc j" by (meson gr0_implies_Suc)
  have bn: "2 ^ i \<le> nat n" "nat n < 2 ^ Suc i" and bd: "2 ^ j \<le> nat d" "nat d < 2 ^ Suc j"
    using bit_length_bounds[of "nat n"] bit_length_bounds[of "nat d"] n d ij by auto
  have rn: "(2::rat) ^ i \<le> of_int n" "of_int n < (2::rat) ^ Suc i"
    using of_nat_bounds[OF bn] n by simp_all
  have rd: "(2::rat) ^ j \<le> of_int d" "of_int d < (2::rat) ^ Suc j"
    using of_nat_bounds[OF bd] d by simp_all
  have pw: "pow2 (int x - int y) = 2 ^ x / 2 ^ y" for x y
    by (simp add: pow2_powi power_int_diff)
  have dpos: "(0::rat) < of_int d" using d by simp
  have up: "r < pow2 (int i - int j + 1)"
  proof -
    have "r < 2 ^ Suc i / of_int d" using rn(2) dpos by (simp add: r divide_strict_right_mono)
    also have "\<dots> \<le> 2 ^ Suc i / 2 ^ j" using rd(1) dpos by (intro divide_left_mono) auto
    also have "\<dots> = pow2 (int i - int j + 1)" using pw[of "Suc i" j] by (simp add: algebra_simps)
    finally show ?thesis .
  qed
  have lo: "pow2 (int i - int j - 1) \<le> r"
  proof -
    have "pow2 (int i - int j - 1) = 2 ^ i / 2 ^ Suc j" using pw[of i "Suc j"] by (simp add: algebra_simps)
    also have "\<dots> \<le> 2 ^ i / of_int d" using rd(2) dpos by (intro divide_left_mono) auto
    also have "\<dots> \<le> r" using rn(1) dpos by (simp add: r divide_right_mono)
    finally show ?thesis .
  qed
  have e: "bin_exp r = (if pow2 (int i - int j) \<le> r then int i - int j else int i - int j - 1)"
    by (simp add: bin_exp_def q ij Let_def)
  show ?thesis using up lo by (auto simp: e)
qed

lemma half_even_int [simp]: "half_even (of_int i) = i"
  by (simp add: half_even_def)

text \<open>A multiple of a power of two with at most 53 significant bits is kept exactly.\<close>

lemma round_double_dyadic:
  assumes m: "0 < \<bar>m\<bar>" "\<bar>m\<bar> < 2 ^ 53" and k: "- 1074 \<le> k" "k \<le> 971"
  shows "round_double (of_int m * pow2 k) = Num (of_int m * pow2 k)"
proof -
  define r where "r = (of_int m :: rat) * pow2 k"
  define a where "a = \<bar>r\<bar>"
  have a: "a = of_int \<bar>m\<bar> * pow2 k" by (simp add: a_def r_def abs_mult abs_of_pos)
  have apos: "0 < a" using m by (simp add: a)
  have r0: "r \<noteq> 0" using apos by (simp add: a_def)
  have m53: "(of_int \<bar>m\<bar> :: rat) < pow2 53"
    using m(2) by (simp add: pow2_def flip: of_int_less_iff[where ?'a = rat])
  have lt: "a < pow2 (53 + k)" using m53 by (simp add: a pow2_add)
  define e where "e = max (bin_exp a - 52) (- 1074)"
  have "pow2 (bin_exp a) < pow2 (53 + k)" using bin_exp_bounds[OF apos] lt by linarith
  then have "bin_exp a < 53 + k" by (simp add: pow2_less_iff)
  then have ek: "e \<le> k" using k by (simp add: e_def)
  have "pow2 k = pow2 (k - e) * pow2 e" using pow2_add[of "k - e" e] by simp
  moreover have "pow2 (k - e) = of_int (2 ^ nat (k - e))" using ek by (simp add: pow2_def)
  ultimately have q: "a / pow2 e = of_int (\<bar>m\<bar> * 2 ^ nat (k - e))"
    by (simp add: a less_imp_neq[OF pow2_pos, symmetric])
  have v: "of_int (half_even (a / pow2 e)) * pow2 e = a"
  proof -
    have "of_int (half_even (a / pow2 e)) = a / pow2 e" unfolding q by (simp only: half_even_int)
    then show ?thesis by (simp add: less_imp_neq[OF pow2_pos, symmetric])
  qed
  have "a < pow2 1024" using lt pow2_mono[of "53 + k" 1024] k by linarith
  then have "round_double r = Num (if r < 0 then - a else a)"
    using apos v r0 by (auto simp: round_double_def Let_def e_def simp flip: a_def)
  then show ?thesis by (simp add: a_def r_def)
qed

lemma round_double_int [simp]: "\<bar>i\<bar> < 2 ^ 53 \<Longrightarrow> round_double (of_int i) = Num (of_int i)"
  using round_double_dyadic[of i 0] by (cases "i = 0") (auto simp: round_double_def pow2_def)

section \<open>Arithmetic\<close>

fun js_neg :: "jsnum \<Rightarrow> jsnum" where
  "js_neg NaN = NaN"
| "js_neg (Infinity s) = Infinity (\<not> s)"
| "js_neg NegZero = Num 0"
| "js_neg (Num r) = (if r = 0 then NegZero else Num (- r))"

fun finite_val :: "jsnum \<Rightarrow> rat" where
  "finite_val (Num r) = r"
| "finite_val _ = 0"

definition sign_neg :: "jsnum \<Rightarrow> bool" where
  "sign_neg x = (case x of Infinity s \<Rightarrow> s | NegZero \<Rightarrow> True | Num r \<Rightarrow> r < 0 | NaN \<Rightarrow> False)"

fun is_zero :: "jsnum \<Rightarrow> bool" where
  "is_zero NegZero = True"
| "is_zero (Num r) = (r = 0)"
| "is_zero _ = False"

fun js_add :: "jsnum \<Rightarrow> jsnum \<Rightarrow> jsnum" where
  "js_add NaN y = NaN"
| "js_add x NaN = NaN"
| "js_add (Infinity s) (Infinity t) = (if s = t then Infinity s else NaN)"
| "js_add (Infinity s) y = Infinity s"
| "js_add x (Infinity t) = Infinity t"
| "js_add NegZero NegZero = NegZero"
| "js_add x y = round_double (finite_val x + finite_val y)"

definition js_sub :: "jsnum \<Rightarrow> jsnum \<Rightarrow> jsnum" where
  "js_sub x y = js_add x (js_neg y)"

definition signed_zero :: "bool \<Rightarrow> jsnum" where
  "signed_zero s = (if s then NegZero else Num 0)"

definition js_mul :: "jsnum \<Rightarrow> jsnum \<Rightarrow> jsnum" where
  "js_mul x y =
     (let s = (sign_neg x \<noteq> sign_neg y) in
      if x = NaN \<or> y = NaN then NaN
      else case (x, y) of
        (Infinity _, _) \<Rightarrow> if is_zero y then NaN else Infinity s
      | (_, Infinity _) \<Rightarrow> if is_zero x then NaN else Infinity s
      | _ \<Rightarrow> if is_zero x \<or> is_zero y then signed_zero s
             else round_double (finite_val x * finite_val y))"

definition js_div :: "jsnum \<Rightarrow> jsnum \<Rightarrow> jsnum" where
  "js_div x y =
     (let s = (sign_neg x \<noteq> sign_neg y) in
      if x = NaN \<or> y = NaN then NaN
      else case (x, y) of
        (Infinity _, Infinity _) \<Rightarrow> NaN
      | (Infinity _, _) \<Rightarrow> Infinity s
      | (_, Infinity _) \<Rightarrow> signed_zero s
      | _ \<Rightarrow> if is_zero y then (if is_zero x then NaN else Infinity s)
             else if is_zero x then signed_zero s
             else round_double (finite_val x / finite_val y))"

definition trunc_rat :: "rat \<Rightarrow> int" where
  "trunc_rat r = (if 0 \<le> r then \<lfloor>r\<rfloor> else \<lceil>r\<rceil>)"

text \<open>\<open>%\<close>: the remainder of the truncated quotient; it has the dividend's sign.\<close>

definition js_rem :: "jsnum \<Rightarrow> jsnum \<Rightarrow> jsnum" where
  "js_rem x y =
     (if x = NaN \<or> y = NaN then NaN
      else case (x, y) of
        (Infinity _, _) \<Rightarrow> NaN
      | (_, Infinity _) \<Rightarrow> x
      | _ \<Rightarrow> if is_zero y then NaN
             else if is_zero x then x
             else let a = finite_val x; b = finite_val y; r = a - b * of_int (trunc_rat (a / b))
                  in if r = 0 then signed_zero (a < 0) else Num r)"

fun js_less :: "jsnum \<Rightarrow> jsnum \<Rightarrow> bool" where
  "js_less NaN y = False"
| "js_less x NaN = False"
| "js_less (Infinity s) (Infinity t) = (s \<and> \<not> t)"
| "js_less (Infinity s) y = s"
| "js_less x (Infinity t) = (\<not> t)"
| "js_less x y = (finite_val x < finite_val y)"

definition js_num_eq :: "jsnum \<Rightarrow> jsnum \<Rightarrow> bool" where
  "js_num_eq x y \<longleftrightarrow> x \<noteq> NaN \<and> y \<noteq> NaN \<and> (x = y \<or> (is_zero x \<and> is_zero y))"

definition js_le :: "jsnum \<Rightarrow> jsnum \<Rightarrow> bool" where
  "js_le x y \<longleftrightarrow> js_less x y \<or> js_num_eq x y"

text \<open>\<open>Math.abs\<close>, \<open>Math.trunc\<close>, \<open>Math.round\<close> (halves go up, \<open>-0.5\<close> to \<open>-0\<close>).\<close>

fun math_abs :: "jsnum \<Rightarrow> jsnum" where
  "math_abs NaN = NaN"
| "math_abs (Infinity s) = Infinity False"
| "math_abs NegZero = Num 0"
| "math_abs (Num r) = Num \<bar>r\<bar>"

definition signed_int :: "bool \<Rightarrow> int \<Rightarrow> jsnum" where
  "signed_int s i = (if i = 0 then signed_zero s else Num (of_int i))"

fun math_trunc :: "jsnum \<Rightarrow> jsnum" where
  "math_trunc (Num r) = signed_int (r < 0) (trunc_rat r)"
| "math_trunc x = x"

fun math_round :: "jsnum \<Rightarrow> jsnum" where
  "math_round (Num r) = signed_int (r < 0) \<lfloor>r + 1/2\<rfloor>"
| "math_round x = x"

lemma js_add_int:
  "\<bar>a + b\<bar> < 2 ^ 53 \<Longrightarrow> js_add (Num (of_int a)) (Num (of_int b)) = Num (of_int (a + b))"
  using round_double_int[of "a + b"] by simp

lemma js_less_irrefl [simp]: "\<not> js_less x x"
  by (cases x) auto

lemma js_less_trans: "js_less x y \<Longrightarrow> js_less y z \<Longrightarrow> js_less x z"
  by (cases x; cases y; cases z) auto

lemma js_num_eq_sym: "js_num_eq x y = js_num_eq y x"
  by (auto simp: js_num_eq_def)

lemma js_trichotomy:
  "x \<noteq> NaN \<Longrightarrow> y \<noteq> NaN \<Longrightarrow> js_less x y \<or> js_num_eq x y \<or> js_less y x"
  by (cases x; cases y) (auto simp: js_num_eq_def)

section \<open>Numbers from text\<close>

text \<open>
  \<open>decimal\<close> reads the longest prefix of its argument that is a decimal literal and returns the
  literal's exact value with the text behind it: \<open>parseFloat\<close> ignores that rest, \<open>Number\<close>
  requires it to be empty.
\<close>

definition take_digits :: "jstr \<Rightarrow> jstr \<times> jstr" where
  "take_digits s = (takeWhile is_digit s, dropWhile is_digit s)"

definition exponent :: "jstr \<Rightarrow> int \<times> jstr" where
  "exponent s =
     (case s of
        c # r \<Rightarrow>
          if c = cu CHR ''e'' \<or> c = cu CHR ''E''
          then let neg = (take 1 r = js ''-''); r' = (if neg \<or> take 1 r = js ''+'' then drop 1 r else r)
               in (case take_digits r' of (ds, rest) \<Rightarrow>
                     if ds = [] then (0, s)
                     else ((if neg then - 1 else 1) * int (digits_val ds), rest))
          else (0, s)
      | [] \<Rightarrow> (0, s))"

definition unsigned_decimal :: "jstr \<Rightarrow> (rat \<times> jstr) option" where
  "unsigned_decimal s =
     (case take_digits s of (ip, r1) \<Rightarrow>
        let (fp, r2) = (if take 1 r1 = js ''.'' then take_digits (drop 1 r1) else ([], r1));
            r2' = (if take 1 r1 = js ''.'' \<and> ip = [] \<and> fp = [] then r1 else r2)
        in if ip = [] \<and> fp = [] then None
           else case exponent r2' of (e, r3) \<Rightarrow>
                  Some (of_nat (digits_val (ip @ fp)) * pow10 (e - int (length fp)), r3))"

definition decimal :: "jstr \<Rightarrow> (jsnum \<times> jstr) option" where
  "decimal s =
     (let neg = (take 1 s = js ''-''); r = (if neg \<or> take 1 s = js ''+'' then drop 1 s else s)
      in if starts_with r (js ''Infinity'') then Some (Infinity neg, drop 8 r)
         else map_option (\<lambda>(v, rest). (if neg then js_neg (round_double v) else round_double v, rest))
                (unsigned_decimal r))"

definition parse_float :: "jstr \<Rightarrow> jsnum" where
  "parse_float s = (case decimal (trim_start s) of Some (v, _) \<Rightarrow> v | None \<Rightarrow> NaN)"

definition radix_val :: "nat \<Rightarrow> (code_unit \<Rightarrow> bool) \<Rightarrow> jstr \<Rightarrow> jsnum" where
  "radix_val b ok ds =
     (if ds \<noteq> [] \<and> list_all ok ds
      then round_double (of_nat (foldl (\<lambda>n c. b * n + hex_val c) 0 ds)) else NaN)"

text \<open>\<open>Number(s)\<close> of a string.\<close>

definition string_to_number :: "jstr \<Rightarrow> jsnum" where
  "string_to_number str =
     (let s = trim str; p = ascii_lower (take 2 s) in
      if s = [] then Num 0
      else if p = js ''0x'' then radix_val 16 is_hex (drop 2 s)
      else if p = js ''0o'' then radix_val 8 (\<lambda>c. 48 \<le> c \<and> c \<le> 55) (drop 2 s)
      else if p = js ''0b'' then radix_val 2 (\<lambda>c. c = 48 \<or> c = 49) (drop 2 s)
      else case decimal s of Some (v, []) \<Rightarrow> v | _ \<Rightarrow> NaN)"

text \<open>\<open>parseInt(s, 10)\<close>.\<close>

definition parse_int10 :: "jstr \<Rightarrow> jsnum" where
  "parse_int10 str =
     (let s = trim_start str; neg = (take 1 s = js ''-'');
          r = (if neg \<or> take 1 s = js ''+'' then drop 1 s else s);
          ds = takeWhile is_digit r
      in if ds = [] then NaN
         else let v = round_double (of_nat (digits_val ds)) in if neg then js_neg v else v)"

lemma takeWhile_digits [simp]: "list_all is_digit s \<Longrightarrow> takeWhile is_digit s = s"
  by (simp add: list_all_iff)

lemma dropWhile_digits [simp]: "list_all is_digit s \<Longrightarrow> dropWhile is_digit s = []"
  by (simp add: list_all_iff)

lemma not_space_digit: "is_digit c \<Longrightarrow> \<not> is_space c"
  by (auto simp: is_digit_def is_space_def)

lemma nat_str_head: "\<exists>c cs. nat_str n = c # cs \<and> is_digit c"
  using digits_nat_str[of n] by (cases "nat_str n") auto

lemma trim_start_nat_str [simp]: "trim_start (nat_str n) = nat_str n"
  using nat_str_head[of n] by (auto simp: trim_start_def not_space_digit)

lemma decimal_nat_str: "decimal (nat_str n) = Some (round_double (of_nat n), [])"
proof -
  obtain c cs where n: "nat_str n = c # cs" "is_digit c" using nat_str_head by blast
  then have c: "c \<noteq> 45" "c \<noteq> 43" "c \<noteq> 73" by (auto simp: is_digit_def)
  have "unsigned_decimal (nat_str n) = Some (of_nat n, [])"
    by (simp add: unsigned_decimal_def take_digits_def exponent_def pow10_def)
  then show ?thesis using c n(1) by (simp add: decimal_def starts_with_def)
qed

text \<open>Reading back what \<open>String\<close> prints.\<close>

lemma parse_float_nat_str: "n < 2 ^ 53 \<Longrightarrow> parse_float (nat_str n) = Num (of_nat n)"
  using round_double_int[of "int n"] by (simp add: parse_float_def decimal_nat_str)

lemma parse_int10_nat_str: "n < 2 ^ 53 \<Longrightarrow> parse_int10 (nat_str n) = Num (of_nat n)"
proof -
  assume "n < 2 ^ 53"
  then have "round_double (of_nat n) = Num (of_nat n)" using round_double_int[of "int n"] by simp
  moreover obtain c cs where n: "nat_str n = c # cs" "is_digit c" using nat_str_head by blast
  then have "c \<noteq> 45" "c \<noteq> 43" by (auto simp: is_digit_def)
  then have "take 1 (nat_str n) \<noteq> js ''-''" "take 1 (nat_str n) \<noteq> js ''+''" using n(1) by simp_all
  ultimately show ?thesis by (simp add: parse_int10_def)
qed

lemma last_nat_str: "is_digit (last (nat_str n))"
  using digits_nat_str[of n] last_in_set[of "nat_str n"] by (auto simp: list_all_iff)

lemma trim_nat_str [simp]: "trim (nat_str n) = nat_str n"
proof -
  obtain xs where x: "nat_str n = xs @ [last (nat_str n)]"
    by (metis append_butlast_last_id nat_str_not_Nil)
  have "rev (nat_str n) = last (nat_str n) # rev xs" by (subst x) simp
  then have "dropWhile is_space (rev (nat_str n)) = rev (nat_str n)"
    using not_space_digit[OF last_nat_str[of n]] by (metis dropWhile.simps(2))
  then show ?thesis using trim_start_nat_str[of n] by (simp add: trim_def trim_start_def)
qed

lemma string_to_number_nat_str: "n < 2 ^ 53 \<Longrightarrow> string_to_number (nat_str n) = Num (of_nat n)"
proof -
  assume n: "n < 2 ^ 53"
  have p: "ascii_lower (take 2 (nat_str n)) \<noteq> [48, c]" if "\<not> is_digit c" "\<not> is_upper c" "c < 128" for c
  proof
    assume e: "ascii_lower (take 2 (nat_str n)) = [48, c]"
    then obtain a b where ab: "take 2 (nat_str n) = [a, b]" "lower_unit b = c"
      by (auto simp: ascii_lower_def map_eq_Cons_conv)
    then have "b \<in> set (nat_str n)" by (metis in_set_takeD list.set_intros(1,2))
    then have "is_digit b" using digits_nat_str[of n] by (simp add: list_all_iff)
    then have "lower_unit b = b" by (simp add: lower_unit_def is_upper_def is_digit_def)
    with ab(2) \<open>is_digit b\<close> that(1) show False by simp
  qed
  have "ascii_lower (take 2 (nat_str n)) \<notin> {js ''0x'', js ''0o'', js ''0b''}"
    using p[of 120] p[of 111] p[of 98] by (simp add: is_digit_def is_upper_def)
  then show ?thesis
    using round_double_int[of "int n"] n by (simp add: string_to_number_def decimal_nat_str Let_def)
qed

section \<open>Text from numbers\<close>

text \<open>
  \<open>String(x)\<close>: the shortest decimal that rounds to \<open>x\<close>, the one closest to \<open>x\<close> among those of
  its length, the even one of two equally close.  \<open>candidates\<close> gives the two integers around
  \<open>x / 10 ^ (n - k)\<close>, the better one first.
\<close>

definition dec_exp :: "rat \<Rightarrow> int" where
  "dec_exp x = hd (dropWhile (\<lambda>n. pow10 n \<le> x) [- 330..310])"

definition candidates :: "rat \<Rightarrow> int list" where
  "candidates q = (let f = \<lfloor>q\<rfloor>; r = q - of_int f in
     if r = 0 then [f] else if r < 1/2 \<or> (r = 1/2 \<and> even f) then [f, f + 1] else [f + 1, f])"

primrec shortest :: "rat \<Rightarrow> int \<Rightarrow> nat \<Rightarrow> nat \<Rightarrow> int \<times> nat \<times> int" where
  "shortest x n k 0 = (\<lfloor>x * pow10 (17 - n)\<rfloor>, 17, n)"
| "shortest x n k (Suc left) =
     (case dropWhile (\<lambda>s. round_double (of_int s * pow10 (n - int k)) \<noteq> Num x)
             (candidates (x / pow10 (n - int k))) of
        s # _ \<Rightarrow> (if s = 10 ^ k then (1, 1, n + 1) else (s, k, n))
      | [] \<Rightarrow> shortest x n (Suc k) left)"

definition zeros :: "nat \<Rightarrow> jstr" where
  "zeros n = replicate n 48"

definition format_digits :: "jstr \<Rightarrow> int \<Rightarrow> jstr" where
  "format_digits ds n =
     (let k = int (length ds) in
      if k \<le> n \<and> n \<le> 21 then ds @ zeros (nat (n - k))
      else if 0 < n \<and> n \<le> 21 then take (nat n) ds @ js ''.'' @ drop (nat n) ds
      else if - 6 < n \<and> n \<le> 0 then js ''0.'' @ zeros (nat (- n)) @ ds
      else (if k = 1 then ds else take 1 ds @ js ''.'' @ drop 1 ds) @ js ''e'' @
           (if 0 \<le> n - 1 then js ''+'' else js ''-'') @ nat_str (nat \<bar>n - 1\<bar>))"

fun num_to_jstr :: "jsnum \<Rightarrow> jstr" where
  "num_to_jstr NaN = js ''NaN''"
| "num_to_jstr (Infinity s) = (if s then js ''-Infinity'' else js ''Infinity'')"
| "num_to_jstr NegZero = js ''0''"
| "num_to_jstr (Num x) =
     (if x = 0 then js ''0''
      else case shortest \<bar>x\<bar> (dec_exp \<bar>x\<bar>) 1 17 of
             (s, k, n) \<Rightarrow> (if x < 0 then js ''-'' else []) @ format_digits (nat_str (nat s)) n)"

end
