(* ===== verification/JsValue.thy ===== *)
theory JsValue
  imports JsNumber
begin

text \<open>
  The values an expression works on: JSON data plus \<open>undefined\<close>, and the two kinds of value the
  language adds behind the data's back, the functions every object inherits (\<open>Builtin\<close>) and the
  object they are inherited from (\<open>ObjectProto\<close>).  Property lookup (\<open>get_member\<close>), the
  coercions \<open>String\<close> and \<open>Number\<close>, and \<open>JSON.stringify\<close>.  A coercion that throws a
  \<open>TypeError\<close> is \<open>None\<close>.
\<close>

datatype jsval =
    Undefined
  | Null
  | JBool bool
  | JNum jsnum
  | JStr jstr
  | JArr "jsval list"
  | JObj "(jstr \<times> jsval) list"
  | Builtin jstr
  | ObjectProto

type_synonym entries = "(jstr \<times> jsval) list"

lemma size_entry [termination_simp]: "(k, v) \<in> set kvs \<Longrightarrow> size v < size_list (size_prod size size) kvs"
  by (induction kvs) auto

lemma size_entry': "(k, v) \<in> set kvs \<Longrightarrow> size v < Suc (size_list (size_prod (\<lambda>x. 0) size) kvs)"
  by (induction kvs) auto

section \<open>Objects\<close>

text \<open>The names every plain object inherits.\<close>

definition inherited_names :: "jstr list" where
  "inherited_names = map js
     [''constructor'', ''__defineGetter__'', ''__defineSetter__'', ''hasOwnProperty'',
      ''__lookupGetter__'', ''__lookupSetter__'', ''isPrototypeOf'', ''propertyIsEnumerable'',
      ''toString'', ''valueOf'', ''toLocaleString'']"

definition proto_name :: jstr where
  "proto_name = js ''__proto__''"

definition inherited :: "jstr \<Rightarrow> jsval" where
  "inherited k =
     (if k = js ''constructor'' then Builtin (js ''Object'')
      else if k \<in> set inherited_names then Builtin k
      else Undefined)"

text \<open>\<open>o[k]\<close> of an object with the given own properties.\<close>

definition get_member :: "entries \<Rightarrow> jstr \<Rightarrow> jsval" where
  "get_member kvs k =
     (case map_of kvs k of
        Some v \<Rightarrow> v
      | None \<Rightarrow> if k = proto_name then ObjectProto else inherited k)"

text \<open>\<open>k in o\<close>.\<close>

definition has_member :: "entries \<Rightarrow> jstr \<Rightarrow> bool" where
  "has_member kvs k \<longleftrightarrow> k \<in> fst ` set kvs \<or> k = proto_name \<or> k \<in> set inherited_names"

text \<open>The shared prototype itself: no enumerable property, and no prototype.\<close>

definition proto_member :: "jstr \<Rightarrow> jsval" where
  "proto_member k = (if k = proto_name then Null else inherited k)"

lemma get_member_own: "map_of kvs k = Some v \<Longrightarrow> get_member kvs k = v"
  by (simp add: get_member_def)

lemma get_member_in: "distinct (map fst kvs) \<Longrightarrow> (k, v) \<in> set kvs \<Longrightarrow> get_member kvs k = v"
  by (simp add: get_member_own)

text \<open>Own keys are listed integer keys first, in ascending order, then in creation order.\<close>

definition is_index_key :: "jstr \<Rightarrow> bool" where
  "is_index_key k \<longleftrightarrow>
     list_all is_digit k \<and> k = nat_str (digits_val k) \<and> digits_val k \<le> 4294967294"

definition own_entries :: "entries \<Rightarrow> entries" where
  "own_entries kvs =
     sort_key (\<lambda>e. digits_val (fst e)) (filter (\<lambda>e. is_index_key (fst e)) kvs) @
     filter (\<lambda>e. \<not> is_index_key (fst e)) kvs"

lemma set_own_entries [simp]: "set (own_entries kvs) = set kvs"
  by (auto simp: own_entries_def)

lemma length_own_entries [simp]: "length (own_entries kvs) = length kvs"
  by (simp add: own_entries_def sum_length_filter_compl)

definition own_keys :: "entries \<Rightarrow> jstr list" where
  "own_keys kvs = map fst (own_entries kvs)"

section \<open>Coercions\<close>

text \<open>
  \<open>String(v)\<close>.  An array joins its elements with commas, null and undefined as nothing.  An
  object with an own property \<open>toString\<close> (data, so not callable) cannot be converted.
\<close>

fun to_jstr :: "jsval \<Rightarrow> jstr option" where
  "to_jstr Undefined = Some (js ''undefined'')"
| "to_jstr Null = Some (js ''null'')"
| "to_jstr (JBool b) = Some (if b then js ''true'' else js ''false'')"
| "to_jstr (JNum n) = Some (num_to_jstr n)"
| "to_jstr (JStr s) = Some s"
| "to_jstr (JArr vs) =
     (let parts = map (\<lambda>v. if v = Undefined \<or> v = Null then Some [] else to_jstr v) vs
      in if None \<in> set parts then None else Some (join (map the parts) (js '','')))"
| "to_jstr (JObj kvs) =
     (if js ''toString'' \<in> fst ` set kvs then None else Some (js ''[object Object]''))"
| "to_jstr (Builtin f) = Some (js ''function '' @ f @ js ''() { [native code] }'')"
| "to_jstr ObjectProto = Some (js ''[object Object]'')"

fun to_num :: "jsval \<Rightarrow> jsnum option" where
  "to_num Undefined = Some NaN"
| "to_num Null = Some (Num 0)"
| "to_num (JBool b) = Some (Num (if b then 1 else 0))"
| "to_num (JNum n) = Some n"
| "to_num v = map_option string_to_number (to_jstr v)"

section \<open>JSON.stringify\<close>

definition hex_digit :: "nat \<Rightarrow> code_unit" where
  "hex_digit n = (if n < 10 then 48 + n else 87 + n)"

definition u_escape :: "code_unit \<Rightarrow> jstr" where
  "u_escape c = js [CHR 0x5c, CHR ''u''] @
     map (\<lambda>k. hex_digit (c div 16 ^ k mod 16)) [3, 2, 1, 0]"

text \<open>A surrogate half without its partner is escaped, a pair is copied.\<close>

fun json_chars :: "jstr \<Rightarrow> jstr" where
  "json_chars [] = []"
| "json_chars (c # cs) =
     (if c = 34 then 92 # 34 # json_chars cs
      else if c = 92 then 92 # 92 # json_chars cs
      else if c = 8 then 92 # cu CHR ''b'' # json_chars cs
      else if c = 12 then 92 # cu CHR ''f'' # json_chars cs
      else if c = 10 then 92 # cu CHR ''n'' # json_chars cs
      else if c = 13 then 92 # cu CHR ''r'' # json_chars cs
      else if c = 9 then 92 # cu CHR ''t'' # json_chars cs
      else if c < 32 then u_escape c @ json_chars cs
      else if 55296 \<le> c \<and> c < 56320 then
        (case cs of
           d # ds \<Rightarrow> if 56320 \<le> d \<and> d < 57344 then c # d # json_chars ds
                     else u_escape c @ json_chars cs
         | [] \<Rightarrow> u_escape c)
      else if 56320 \<le> c \<and> c < 57344 then u_escape c @ json_chars cs
      else c # json_chars cs)"

definition json_str :: "jstr \<Rightarrow> jstr" where
  "json_str s = 34 # json_chars s @ [34]"

definition json_num :: "jsnum \<Rightarrow> jstr" where
  "json_num n = (case n of NaN \<Rightarrow> js ''null'' | Infinity _ \<Rightarrow> js ''null'' | _ \<Rightarrow> num_to_jstr n)"

definition is_data :: "jsval \<Rightarrow> bool" where
  "is_data v = (case v of Undefined \<Rightarrow> False | Builtin _ \<Rightarrow> False | _ \<Rightarrow> True)"

fun json_text :: "jsval \<Rightarrow> jstr" where
  "json_text (JBool b) = (if b then js ''true'' else js ''false'')"
| "json_text (JNum n) = json_num n"
| "json_text (JStr s) = json_str s"
| "json_text (JArr vs) = js ''['' @ join (map json_text vs) (js '','') @ js '']''"
| "json_text (JObj kvs) =
     js ''{'' @
     join (map (\<lambda>e. json_str (fst e) @ js '':'' @ snd e)
            (filter (\<lambda>e. snd e \<noteq> [])
              (map (\<lambda>e. (fst e, if is_data (snd e) then json_text (snd e) else []))
                (own_entries kvs)))) (js '','') @ js ''}''"
| "json_text ObjectProto = js ''{}''"
| "json_text _ = js ''null''"

section \<open>Plain data\<close>

text \<open>
  JSON data: numbers but NaN, property names distinct and none of the inherited ones.
\<close>

fun plain :: "jsval \<Rightarrow> bool" where
  "plain (JNum n) = (n \<noteq> NaN)"
| "plain (JArr vs) = list_all plain vs"
| "plain (JObj kvs) = (distinct (map fst kvs) \<and>
     list_all (\<lambda>e. fst e \<noteq> proto_name \<and> fst e \<notin> set inherited_names \<and> plain (snd e)) kvs)"
| "plain Undefined = False"
| "plain (Builtin f) = False"
| "plain ObjectProto = False"
| "plain v = True"

lemma has_member_plain:
  "k \<noteq> proto_name \<Longrightarrow> k \<notin> set inherited_names \<Longrightarrow> has_member kvs k \<longleftrightarrow> k \<in> fst ` set kvs"
  by (simp add: has_member_def)

lemma plain_to_jstr: "plain v \<Longrightarrow> to_jstr v \<noteq> None"
proof (induction v)
  case (JArr vs)
  then have "\<forall>v \<in> set vs. to_jstr v \<noteq> None"
    by (auto simp: list_all_iff)
  then have "None \<notin> (\<lambda>v. if v = Undefined \<or> v = Null then Some [] else to_jstr v) ` set vs"
    by (auto split: if_splits)
  then show ?case by (simp add: Let_def del: not_None_eq)
next
  case (JObj kvs)
  then show ?case by (fastforce simp: list_all_iff inherited_names_def)
qed simp_all

end
