(* ===== verification/ExprToken.thy ===== *)
theory ExprToken
  imports JsValue
begin

text \<open>
  The tokenizer of \<open>packages/engine/src/expression-evaluator.ts\<close>.  An error is the code of the
  \<open>ExpressionError\<close> it throws (the message is not kept); \<open>EngineTypeError\<close> is a \<open>TypeError\<close> or
  \<open>RangeError\<close> that the language itself throws, and \<open>Diverged\<close> stands for a loop of the model
  that ran out of fuel, which \<open>ExprParser\<close> and \<open>ExprEval\<close> show never to happen.  A token keeps
  its type and its text; \<open>pos\<close> is never read by the source.
\<close>

datatype expr_error =
    Unparseable | OperationLimit | ForbiddenProperty | TypeMismatch | UnknownVariable
  | UnknownEnvVariable | InvalidDateFormat | InvalidTimezone | ExpressionTooLong
  | EngineTypeError | Diverged

datatype token_type =
    TNumber | TString | TBoolean | TNull | TIdentifier | TDot | TLbracket | TRbracket
  | TLparen | TRparen | TComma | TPlus | TMinus | TStar | TSlash | TPercent
  | TEq | TNeq | TLt | TLte | TGt | TGte | TOr | TAnd | TNot

record token =
  ttype :: token_type
  tvalue :: jstr

abbreviation tok :: "token_type \<Rightarrow> jstr \<Rightarrow> token" where
  "tok t v \<equiv> \<lparr>ttype = t, tvalue = v\<rparr>"

definition is_ident_start :: "code_unit \<Rightarrow> bool" where
  "is_ident_start c \<longleftrightarrow> is_alpha c \<or> c = 95"

definition is_ident_char :: "code_unit \<Rightarrow> bool" where
  "is_ident_char c \<longleftrightarrow> is_alpha c \<or> is_digit c \<or> c = 95"

definition is_num_char :: "code_unit \<Rightarrow> bool" where
  "is_num_char c \<longleftrightarrow> is_digit c \<or> c = 46"

text \<open>
  The body of a string literal after its opening quote \<open>q\<close>: its value and the text behind the
  closing quote.
\<close>

definition add_unit :: "code_unit \<Rightarrow> expr_error + jstr \<times> jstr \<Rightarrow> expr_error + jstr \<times> jstr" where
  "add_unit u m = bindR m (\<lambda>(s, r). Inr (u # s, r))"

lemma add_unit_Inr [simp]: "add_unit u m = Inr x \<longleftrightarrow> (\<exists>s r. m = Inr (s, r) \<and> x = (u # s, r))"
  by (auto simp: add_unit_def)

fun read_string :: "code_unit \<Rightarrow> jstr \<Rightarrow> expr_error + jstr \<times> jstr" where
  "read_string q [] = Inl Unparseable"
| "read_string q (c # cs) =
     (if c = q then Inr ([], cs)
      else if c = 92 then
        (case cs of
           [] \<Rightarrow> Inl Unparseable
         | esc # rest \<Rightarrow>
             if esc = cu CHR ''n'' then add_unit 10 (read_string q rest)
             else if esc = cu CHR ''t'' then add_unit 9 (read_string q rest)
             else if esc = cu CHR ''r'' then add_unit 13 (read_string q rest)
             else if esc = cu CHR ''u'' then
               (if length (take 4 rest) = 4 \<and> list_all is_hex (take 4 rest)
                then add_unit (hexs_val (take 4 rest)) (read_string q (drop 4 rest))
                else Inl Unparseable)
             else add_unit esc (read_string q rest))
      else add_unit c (read_string q cs))"

lemma read_string_shorter: "read_string q s = Inr (v, r) \<Longrightarrow> length r < length s"
proof (induction q s arbitrary: v r rule: read_string.induct)
  case (2 q c cs)
  show ?case
  proof (cases "c = q \<or> c \<noteq> 92")
    case True
    with 2 show ?thesis by (auto split: if_splits intro: less_SucI)
  next
    case c: False
    show ?thesis
    proof (cases cs)
      case Nil
      with 2 c show ?thesis by simp
    next
      case (Cons esc rest)
      with 2 c show ?thesis by (auto split: if_splits) fastforce+
    qed
  qed
qed simp

definition keyword :: "jstr \<Rightarrow> token" where
  "keyword ident =
     (let l = ascii_lower ident in
      if l = js ''true'' \<or> l = js ''false'' then tok TBoolean l
      else if l = js ''null'' then tok TNull (js ''null'')
      else if l = js ''or'' then tok TOr (js ''or'')
      else if l = js ''and'' then tok TAnd (js ''and'')
      else if l = js ''not'' then tok TNot (js ''not'')
      else tok TIdentifier ident)"

definition two_char_op :: "jstr \<Rightarrow> token option" where
  "two_char_op two =
     map_of [(js ''=='', tok TEq (js ''=='')), (js ''!='', tok TNeq (js ''!='')),
             (js ''<='', tok TLte (js ''<='')), (js ''>='', tok TGte (js ''>=''))] two"

definition one_char_op :: "code_unit \<Rightarrow> token option" where
  "one_char_op c =
     map_option (\<lambda>t. tok t [c])
       (map_of [(46, TDot), (91, TLbracket), (93, TRbracket), (40, TLparen), (41, TRparen),
                (44, TComma), (43, TPlus), (45, TMinus), (42, TStar), (47, TSlash),
                (37, TPercent), (60, TLt), (62, TGt)] c)"

text \<open>
  \<open>tokenize\<close>: the loop over the input, on what is left of it.  A token is pushed before the rest
  is read, so the first bad character decides the error.
\<close>

definition push_token :: "token \<Rightarrow> expr_error + token list \<Rightarrow> expr_error + token list" where
  "push_token t m = bindR m (\<lambda>ts. Inr (t # ts))"

lemma push_token_Inr [simp]: "push_token t m = Inr us \<longleftrightarrow> (\<exists>ts. m = Inr ts \<and> us = t # ts)"
  by (auto simp: push_token_def)

function tokenize :: "jstr \<Rightarrow> expr_error + token list" where
  "tokenize [] = Inr []"
| "tokenize (ch # rest) =
     (if is_space ch then tokenize rest
      else if ch = 34 \<or> ch = 39 then
        bindR (read_string ch rest) (\<lambda>(str, r). push_token (tok TString str) (tokenize r))
      else if is_digit ch then
        push_token (tok TNumber (ch # takeWhile is_num_char rest))
          (tokenize (dropWhile is_num_char rest))
      else if is_ident_start ch then
        push_token (keyword (ch # takeWhile is_ident_char rest))
          (tokenize (dropWhile is_ident_char rest))
      else (case two_char_op (take 2 (ch # rest)) of
        Some t \<Rightarrow> push_token t (tokenize (drop 2 (ch # rest)))
      | None \<Rightarrow> (case one_char_op ch of
          Some t \<Rightarrow> push_token t (tokenize rest)
        | None \<Rightarrow> Inl Unparseable)))"
  by pat_completeness auto
termination
  by (relation "measure length") (auto dest: read_string_shorter)

section \<open>What the tokenizer guarantees\<close>

lemma read_string_error: "read_string q s = Inl e \<Longrightarrow> e = Unparseable"
  by (induction q s rule: read_string.induct)
    (auto simp: add_unit_def bindR_eq_Inl split: if_splits list.splits)

lemma tokenize_error: "tokenize s = Inl e \<Longrightarrow> e = Unparseable"
  by (induction s rule: tokenize.induct)
    (auto simp: push_token_def bindR_eq_Inl dest: read_string_error split: if_splits option.splits)

text \<open>Each step of the loop skips a blank or pushes one token and goes on with a shorter rest.\<close>

declare tokenize.simps(2) [simp del]

lemma tokenize_step:
  assumes "tokenize (ch # rest) = Inr ts"
  obtains "tokenize rest = Inr ts"
    | t r us where "length r \<le> length rest" "tokenize r = Inr us" "ts = t # us"
proof (cases "is_space ch")
  case True
  with assms show ?thesis using that(1) by (simp add: tokenize.simps)
next
  case ns: False
  show ?thesis
  proof (cases "ch = 34 \<or> ch = 39")
    case True
    with assms ns obtain str r us where "read_string ch rest = Inr (str, r)" "tokenize r = Inr us"
      "ts = tok TString str # us" by (auto simp: tokenize.simps)
    then show ?thesis using that(2)[of r us] by (auto dest: read_string_shorter)
  next
    case False
    show ?thesis
    proof (cases "is_digit ch \<or> is_ident_start ch")
      case True
      with assms ns False show ?thesis
        using that(2)[OF length_dropWhile_le[of is_num_char rest]]
          that(2)[OF length_dropWhile_le[of is_ident_char rest]]
        by (auto simp: tokenize.simps split: if_splits)
    next
      case nc: False
      with assms ns False show ?thesis
        by (auto simp: tokenize.simps split: option.splits intro: that(2)[of rest] that(2)[of "drop 1 rest"])
    qed
  qed
qed

text \<open>A token takes at least one code unit of the input.\<close>

lemma length_tokenize: "tokenize s = Inr ts \<Longrightarrow> length ts \<le> length s"
proof (induction s arbitrary: ts rule: length_induct)
  case (1 s)
  show ?case
  proof (cases s)
    case Nil
    with 1 show ?thesis by simp
  next
    case (Cons ch rest)
    with 1(2) have "tokenize (ch # rest) = Inr ts" by simp
    then show ?thesis
    proof (cases rule: tokenize_step)
      case 1
      with "1.IH" Cons show ?thesis by (auto simp: le_SucI)
    next
      case (2 t r us)
      with "1.IH" Cons have "length us \<le> length r" by simp
      with 2 Cons show ?thesis by simp
    qed
  qed
qed

section \<open>Printing tokens\<close>

text \<open>
  A reference printer: any list of well-formed tokens is the tokenization of its printed form, so
  every token, and every string value, can be written in the language.
\<close>

definition quote_chars :: "jstr \<Rightarrow> jstr" where
  "quote_chars v = concat (map (\<lambda>c. if c = 34 \<or> c = 92 then [92, c] else [c]) v)"

definition show_token :: "token \<Rightarrow> jstr" where
  "show_token t = (if ttype t = TString then 34 # quote_chars (tvalue t) @ [34] else tvalue t)"

definition show_tokens :: "token list \<Rightarrow> jstr" where
  "show_tokens ts = concat (map (\<lambda>t. show_token t @ [32]) ts)"

definition token_ok :: "token \<Rightarrow> bool" where
  "token_ok t =
     (let v = tvalue t in
      case ttype t of
        TString \<Rightarrow> True
      | TNumber \<Rightarrow> v \<noteq> [] \<and> is_digit (hd v) \<and> list_all is_num_char v
      | TIdentifier \<Rightarrow> v \<noteq> [] \<and> is_ident_start (hd v) \<and> list_all is_ident_char v \<and> keyword v = t
      | TBoolean \<Rightarrow> v = js ''true'' \<or> v = js ''false''
      | TNull \<Rightarrow> v = js ''null''
      | TOr \<Rightarrow> v = js ''or''
      | TAnd \<Rightarrow> v = js ''and''
      | TNot \<Rightarrow> v = js ''not''
      | _ \<Rightarrow> two_char_op v = Some t \<or> (length v = 1 \<and> one_char_op (hd v) = Some t))"

lemma read_string_quoted: "read_string 34 (quote_chars v @ 34 # r) = Inr (v, r)"
proof (induction v)
  case (Cons c v)
  then show ?case by (auto simp: quote_chars_def add_unit_def)
qed (simp add: quote_chars_def)

lemma char_disjoint:
  "is_digit c \<Longrightarrow> \<not> is_space c \<and> c \<noteq> 34 \<and> c \<noteq> 39"
  "is_ident_start c \<Longrightarrow> \<not> is_space c \<and> c \<noteq> 34 \<and> c \<noteq> 39 \<and> \<not> is_digit c"
  by (auto simp: is_ident_start_def char_class_defs)

lemma not_class_32 [simp]: "\<not> is_num_char 32" "\<not> is_ident_char 32" "is_space 32"
  by (auto simp: is_num_char_def is_ident_char_def char_class_defs)

lemma takeWhile_upto_space:
  "list_all p v \<Longrightarrow> \<not> p 32 \<Longrightarrow> takeWhile p (v @ 32 # r) = v \<and> dropWhile p (v @ 32 # r) = 32 # r"
  by (induction v) auto

lemma tokenize_word:
  assumes "v \<noteq> []" "is_ident_start (hd v)" "list_all is_ident_char v"
  shows "tokenize (v @ 32 # r) = push_token (keyword v) (tokenize r)"
proof -
  obtain c cs where v: "v = c # cs" using assms(1) by (cases v) auto
  have "takeWhile is_ident_char (cs @ 32 # r) = cs \<and> dropWhile is_ident_char (cs @ 32 # r) = 32 # r"
    using assms(3) v by (intro takeWhile_upto_space) auto
  with assms(2) v show ?thesis using char_disjoint[of c] by (auto simp: tokenize.simps)
qed

lemma tokenize_number:
  assumes "v \<noteq> []" "is_digit (hd v)" "list_all is_num_char v"
  shows "tokenize (v @ 32 # r) = push_token (tok TNumber v) (tokenize r)"
proof -
  obtain c cs where v: "v = c # cs" using assms(1) by (cases v) auto
  have "takeWhile is_num_char (cs @ 32 # r) = cs \<and> dropWhile is_num_char (cs @ 32 # r) = 32 # r"
    using assms(3) v by (intro takeWhile_upto_space) auto
  with assms(2) v show ?thesis using char_disjoint[of c] by (auto simp: tokenize.simps)
qed

lemma keyword_tokens:
  "keyword (js ''true'') = tok TBoolean (js ''true'')" "keyword (js ''false'') = tok TBoolean (js ''false'')"
  "keyword (js ''null'') = tok TNull (js ''null'')" "keyword (js ''or'') = tok TOr (js ''or'')"
  "keyword (js ''and'') = tok TAnd (js ''and'')" "keyword (js ''not'') = tok TNot (js ''not'')"
  by (simp_all add: keyword_def ascii_lower_def lower_unit_def is_upper_def)

lemma tokenize_keyword:
  "v \<in> set (map js [''true'', ''false'', ''null'', ''or'', ''and'', ''not'']) \<Longrightarrow>
     tokenize (v @ 32 # r) = push_token (keyword v) (tokenize r)"
  by (rule tokenize_word)
    (auto simp: is_ident_start_def is_ident_char_def is_alpha_def is_lower_def)

lemma two_char_ops:
  "two_char_op v = Some t \<Longrightarrow>
     v \<in> set (map js [''=='', ''!='', ''<='', ''>='']) \<and> tvalue t = v \<and> ttype t \<noteq> TString"
  by (auto simp: two_char_op_def split: if_splits)

lemma one_char_ops:
  "one_char_op c = Some t \<Longrightarrow>
     c \<in> {46, 91, 93, 40, 41, 44, 43, 45, 42, 47, 37, 60, 62} \<and> tvalue t = [c] \<and> ttype t \<noteq> TString"
  by (auto simp: one_char_op_def split: if_splits)

lemma op_not_class:
  "c \<in> {46, 91, 93, 40, 41, 44, 43, 45, 42, 47, 37, 60, 62, 33, 61} \<Longrightarrow>
     \<not> is_space c \<and> c \<noteq> 34 \<and> c \<noteq> 39 \<and> \<not> is_digit c \<and> \<not> is_ident_start c"
  by (auto simp: is_ident_start_def char_class_defs)

lemma tokenize_op2:
  assumes "two_char_op v = Some t"
  shows "tokenize (v @ 32 # r) = push_token t (tokenize r)"
proof -
  obtain c d where v: "v = [c, d]" and c: "c \<in> {60, 62, 33, 61}"
    using two_char_ops[OF assms] by auto
  then have "two_char_op (take 2 (c # d # 32 # r)) = Some t" using assms by (simp add: numeral_2_eq_2)
  moreover have "tokenize (32 # r) = tokenize r" by (simp add: tokenize.simps)
  ultimately show ?thesis using op_not_class[of c] v c by (auto simp: tokenize.simps(2)[of c])
qed

lemma tokenize_op1:
  assumes "one_char_op c = Some t"
  shows "tokenize (c # 32 # r) = push_token t (tokenize r)"
proof -
  have "two_char_op (take 2 (c # 32 # r)) = None" by (simp add: two_char_op_def)
  moreover have "tokenize (32 # r) = tokenize r" by (simp add: tokenize.simps)
  ultimately show ?thesis using op_not_class[of c] one_char_ops[OF assms] assms
    by (auto simp: tokenize.simps(2)[of c])
qed

lemma tokenize_show:
  assumes "token_ok t"
  shows "tokenize (show_token t @ 32 # r) = push_token t (tokenize r)"
proof -
  obtain ty v where t: "t = tok ty v" by (cases t) auto
  consider "ty = TString" | "ty = TNumber" | "ty = TIdentifier" | "two_char_op v = Some t"
    | "\<exists>c. v = [c] \<and> one_char_op c = Some t"
    | "v \<in> set (map js [''true'', ''false'', ''null'', ''or'', ''and'', ''not''])" "keyword v = t"
       "ty \<noteq> TString"
    using assms by (cases ty) (auto simp: token_ok_def t keyword_tokens[simplified] length_Suc_conv)
  then show ?thesis
  proof cases
    case 1
    have "tokenize (32 # r) = tokenize r" by (simp add: tokenize.simps)
    then show ?thesis
      by (simp add: 1 t show_token_def read_string_quoted tokenize.simps is_space_def)
  next
    case 2
    with assms show ?thesis by (simp add: t show_token_def token_ok_def tokenize_number)
  next
    case 3
    with assms show ?thesis by (simp add: t show_token_def token_ok_def tokenize_word)
  next
    case 4
    then show ?thesis using two_char_ops[OF 4] by (simp add: t show_token_def tokenize_op2)
  next
    case 5
    then obtain c where c: "v = [c]" "one_char_op c = Some t" by blast
    then show ?thesis using one_char_ops[OF c(2)] by (simp add: t show_token_def tokenize_op1)
  next
    case 6
    then show ?thesis using tokenize_keyword[of v r] by (simp add: t show_token_def del: list.map)
  qed
qed

text \<open>Printing and tokenizing a list of well-formed tokens gives the list back.\<close>

lemma tokenize_show_tokens: "list_all token_ok ts \<Longrightarrow> tokenize (show_tokens ts) = Inr ts"
  by (induction ts) (simp_all add: show_tokens_def tokenize_show)

section \<open>Properties\<close>

text \<open>
  C35: every list of well-formed tokens is what \<open>tokenize\<close> reads from its printed form; in
  particular every string value has a literal, whatever quotes and backslashes it holds.
\<close>

theorem tokenize_printed: "list_all token_ok ts \<Longrightarrow> tokenize (show_tokens ts) = Inr ts"
  by (rule tokenize_show_tokens)

theorem tokenize_printed_witness:
  "tokenize (show_tokens [tok TIdentifier (js ''inputs''), tok TEq (js ''==''), tok TString [34, 92, 97]]) =
     Inr [tok TIdentifier (js ''inputs''), tok TEq (js ''==''), tok TString [34, 92, 97]]"
  by (rule tokenize_printed)
    (simp add: token_ok_def keyword_def ascii_lower_def lower_unit_def is_upper_def two_char_op_def
      is_ident_start_def is_ident_char_def is_alpha_def is_lower_def)

end
