(* ===== verification/ExprParser.thy ===== *)
theory ExprParser
  imports ExprToken
begin

text \<open>
  The class \<open>Parser\<close> and \<open>parseExpression\<close> of
  \<open>packages/engine/src/expression-evaluator.ts\<close>: a recursive descent parser with an operation
  counter and a nesting depth.

  Each method is a definition over the method of the next level, \<open>P\<close>; the cycle through
  \<open>parsePrimary\<close> is closed by \<open>parse_or_n\<close>, whose fuel of 51 is enough because \<open>parsePrimary\<close>
  itself throws at a depth above 50.  A \<open>while\<close> loop has the number of remaining tokens as fuel.
  \<open>derives\<close> is the grammar, stated on token lists, and the locale \<open>sub_parser\<close> the contract
  that every level promises to the level above it.
\<close>

section \<open>Syntax trees\<close>

datatype binop = OpEq | OpNeq | OpLt | OpLte | OpGt | OpGte | OpAdd | OpSub | OpMul | OpDiv | OpMod
datatype logop = LOr | LAnd

datatype ast =
    Literal jsval
  | Property "path_key list"
  | Binary binop ast ast
  | Unary ast
  | Call jstr "ast list"
  | Logical logop ast ast
  | Not ast
and path_key = Key jsval | Dyn ast

fun binop_of :: "token_type \<Rightarrow> binop" where
  "binop_of TEq = OpEq" | "binop_of TNeq = OpNeq" | "binop_of TLt = OpLt"
| "binop_of TLte = OpLte" | "binop_of TGt = OpGt" | "binop_of TGte = OpGte"
| "binop_of TPlus = OpAdd" | "binop_of TMinus = OpSub" | "binop_of TStar = OpMul"
| "binop_of TSlash = OpDiv" | "binop_of TPercent = OpMod" | "binop_of _ = OpMod"

section \<open>The parser's state\<close>

definition MAX_EXPRESSION_LENGTH :: nat where "MAX_EXPRESSION_LENGTH = 500"
definition MAX_OPERATIONS :: nat where "MAX_OPERATIONS = 10000"
definition MAX_RECURSION :: nat where "MAX_RECURSION = 50"

definition FORBIDDEN_PROPS :: "jstr list" where
  "FORBIDDEN_PROPS = [js ''__proto__'', js ''constructor'', js ''prototype'']"

text \<open>\<open>toks\<close> is the part of \<open>tokens\<close> from \<open>pos\<close> on.\<close>

record pst =
  toks :: "token list"
  p_ops :: nat
  depth :: nat

type_synonym 'a parser = "pst \<Rightarrow> expr_error + 'a \<times> pst"

definition check :: "token_type \<Rightarrow> pst \<Rightarrow> bool" where
  "check t st = (case toks st of [] \<Rightarrow> False | tk # _ \<Rightarrow> ttype tk = t)"

definition check_any :: "(token_type \<Rightarrow> bool) \<Rightarrow> pst \<Rightarrow> bool" where
  "check_any p st = (case toks st of [] \<Rightarrow> False | tk # _ \<Rightarrow> p (ttype tk))"

definition next_tok :: "token parser" where
  "next_tok st = (case toks st of [] \<Rightarrow> Inl Unparseable | tk # r \<Rightarrow> Inr (tk, st\<lparr>toks := r\<rparr>))"

definition consume :: "token_type \<Rightarrow> token parser" where
  "consume t st = (if check t st then next_tok st else Inl Unparseable)"

definition count_op :: "pst \<Rightarrow> expr_error + pst" where
  "count_op st =
     (if p_ops st + 1 > MAX_OPERATIONS then Inl OperationLimit
      else Inr (st\<lparr>p_ops := p_ops st + 1\<rparr>))"

section \<open>The levels\<close>

text \<open>
  The loop shared by the left-associative levels: while the next token is an operator, count it,
  take it and an operand, and join them to what has been read.
\<close>

primrec left_loop ::
  "nat \<Rightarrow> (token_type \<Rightarrow> bool) \<Rightarrow> (token \<Rightarrow> ast \<Rightarrow> ast \<Rightarrow> ast) \<Rightarrow> ast parser \<Rightarrow> ast \<Rightarrow> ast parser" where
  "left_loop 0 is_op mk P left st = Inl Diverged"
| "left_loop (Suc n) is_op mk P left st =
     (if check_any is_op st then
        bindR (count_op st) (\<lambda>st1.
        bindR (next_tok st1) (\<lambda>(op, st2).
        bindR (P st2) (\<lambda>(right, st3).
        left_loop n is_op mk P (mk op left right) st3)))
      else Inr (left, st))"

definition left_chain ::
  "(token_type \<Rightarrow> bool) \<Rightarrow> (token \<Rightarrow> ast \<Rightarrow> ast \<Rightarrow> ast) \<Rightarrow> ast parser \<Rightarrow> ast parser" where
  "left_chain is_op mk P st =
     bindR (P st) (\<lambda>(left, st1). left_loop (Suc (length (toks st1))) is_op mk P left st1)"

definition mk_binary :: "token \<Rightarrow> ast \<Rightarrow> ast \<Rightarrow> ast" where
  "mk_binary op a b = Binary (binop_of (ttype op)) a b"

definition mk_logical :: "logop \<Rightarrow> token \<Rightarrow> ast \<Rightarrow> ast \<Rightarrow> ast" where
  "mk_logical l op a b = Logical l a b"

definition is_mul_op :: "token_type \<Rightarrow> bool" where
  "is_mul_op t \<longleftrightarrow> t = TStar \<or> t = TSlash \<or> t = TPercent"

definition is_add_op :: "token_type \<Rightarrow> bool" where
  "is_add_op t \<longleftrightarrow> t = TPlus \<or> t = TMinus"

definition is_cmp_op :: "token_type \<Rightarrow> bool" where
  "is_cmp_op t \<longleftrightarrow> t \<in> {TEq, TNeq, TLt, TLte, TGt, TGte}"

text \<open>Prefix operators: the method calls itself after each one.\<close>

primrec prefix_loop ::
  "nat \<Rightarrow> token_type \<Rightarrow> (ast \<Rightarrow> ast) \<Rightarrow> ast parser \<Rightarrow> ast parser" where
  "prefix_loop 0 t mk P st = Inl Diverged"
| "prefix_loop (Suc n) t mk P st =
     (if check t st then
        bindR (count_op st) (\<lambda>st1.
        bindR (next_tok st1) (\<lambda>(_, st2).
        bindR (prefix_loop n t mk P st2) (\<lambda>(operand, st3).
        Inr (mk operand, st3))))
      else P st)"

definition parse_unary :: "ast parser \<Rightarrow> ast parser" where
  "parse_unary P st = prefix_loop (Suc (length (toks st))) TMinus Unary P st"

definition parse_multiplicative :: "ast parser \<Rightarrow> ast parser" where
  "parse_multiplicative P = left_chain is_mul_op mk_binary (parse_unary P)"

definition parse_additive :: "ast parser \<Rightarrow> ast parser" where
  "parse_additive P = left_chain is_add_op mk_binary (parse_multiplicative P)"

definition parse_comparison :: "ast parser \<Rightarrow> ast parser" where
  "parse_comparison P st =
     bindR (parse_additive P st) (\<lambda>(left, st1).
       if check_any is_cmp_op st1 then
         bindR (count_op st1) (\<lambda>st2.
         bindR (next_tok st2) (\<lambda>(op, st3).
         bindR (parse_additive P st3) (\<lambda>(right, st4).
         Inr (mk_binary op left right, st4))))
       else Inr (left, st1))"

definition parse_not :: "ast parser \<Rightarrow> ast parser" where
  "parse_not P st = prefix_loop (Suc (length (toks st))) TNot Not (parse_comparison P) st"

definition parse_and :: "ast parser \<Rightarrow> ast parser" where
  "parse_and P = left_chain (\<lambda>t. t = TAnd) (mk_logical LAnd) (parse_not P)"

definition parse_or :: "ast parser \<Rightarrow> ast parser" where
  "parse_or P = left_chain (\<lambda>t. t = TOr) (mk_logical LOr) (parse_and P)"

section \<open>Primary expressions\<close>

text \<open>The arguments after the first, \<open>while (this.check('comma'))\<close>.\<close>

primrec args_loop :: "nat \<Rightarrow> ast parser \<Rightarrow> ast list \<Rightarrow> ast list parser" where
  "args_loop 0 E args st = Inl Diverged"
| "args_loop (Suc n) E args st =
     (if check TComma st then
        bindR (next_tok st) (\<lambda>(_, st1).
        bindR (E st1) (\<lambda>(a, st2).
        args_loop n E (args @ [a]) st2))
      else Inr (args, st))"

definition parse_call :: "ast parser \<Rightarrow> jstr \<Rightarrow> ast parser" where
  "parse_call E name st =
     bindR (next_tok st) (\<lambda>(_, st1).
     bindR (if check TRparen st1 then Inr ([], st1)
            else bindR (E st1) (\<lambda>(a, st2). args_loop (Suc (length (toks st2))) E [a] st2))
       (\<lambda>(args, st2).
     bindR (consume TRparen st2) (\<lambda>(_, st3).
     Inr (Call name args, st3))))"

definition index_key :: "ast \<Rightarrow> path_key" where
  "index_key e = (case e of Literal v \<Rightarrow> Key v | _ \<Rightarrow> Dyn e)"

primrec path_loop :: "nat \<Rightarrow> ast parser \<Rightarrow> path_key list \<Rightarrow> path_key list parser" where
  "path_loop 0 E path st = Inl Diverged"
| "path_loop (Suc n) E path st =
     (if check TDot st then
        bindR (count_op st) (\<lambda>st1.
        bindR (next_tok st1) (\<lambda>(_, st2).
        bindR (consume TIdentifier st2) (\<lambda>(prop, st3).
        if tvalue prop \<in> set FORBIDDEN_PROPS then Inl ForbiddenProperty
        else path_loop n E (path @ [Key (JStr (tvalue prop))]) st3)))
      else if check TLbracket st then
        bindR (count_op st) (\<lambda>st1.
        bindR (next_tok st1) (\<lambda>(_, st2).
        bindR (E st2) (\<lambda>(e, st3).
        bindR (consume TRbracket st3) (\<lambda>(_, st4).
        path_loop n E (path @ [index_key e]) st4))))
      else Inr (path, st))"

text \<open>
  \<open>parse_primary E\<close>, where \<open>E\<close> is \<open>parseOr\<close>.  \<open>body\<close> runs one level deeper and the depth is
  restored on the way out.
\<close>

definition primary_body :: "ast parser \<Rightarrow> ast parser" where
  "primary_body E st =
     (case toks st of
        [] \<Rightarrow> Inl Unparseable
      | tk # rest \<Rightarrow>
          let st1 = st\<lparr>toks := rest\<rparr> in
          (case ttype tk of
             TNumber \<Rightarrow> Inr (Literal (JNum (parse_float (tvalue tk))), st1)
           | TString \<Rightarrow> Inr (Literal (JStr (tvalue tk)), st1)
           | TBoolean \<Rightarrow> Inr (Literal (JBool (tvalue tk = js ''true'')), st1)
           | TNull \<Rightarrow> Inr (Literal Null, st1)
           | TLparen \<Rightarrow>
               bindR (E st1) (\<lambda>(e, st2).
               bindR (consume TRparen st2) (\<lambda>(_, st3). Inr (e, st3)))
           | TIdentifier \<Rightarrow>
               if check TLparen st1 then parse_call E (tvalue tk) st1
               else bindR (path_loop (Suc (length rest)) E [Key (JStr (tvalue tk))] st1)
                      (\<lambda>(path, st2). Inr (Property path, st2))
           | _ \<Rightarrow> Inl Unparseable))"

definition parse_primary :: "ast parser \<Rightarrow> ast parser" where
  "parse_primary E st =
     (if depth st + 1 > MAX_RECURSION then Inl OperationLimit
      else bindR (primary_body E (st\<lparr>depth := depth st + 1\<rparr>))
             (\<lambda>(e, st1). Inr (e, st1\<lparr>depth := depth st1 - 1\<rparr>)))"

primrec parse_or_n :: "nat \<Rightarrow> ast parser" where
  "parse_or_n 0 st = Inl Diverged"
| "parse_or_n (Suc n) st = parse_or (parse_primary (parse_or_n n)) st"

definition parse :: "token list \<Rightarrow> expr_error + ast" where
  "parse tokens =
     bindR (parse_or_n 51 \<lparr>toks = tokens, p_ops = 0, depth = 0\<rparr>) (\<lambda>(node, st).
       if toks st \<noteq> [] then Inl Unparseable else Inr node)"

definition parse_expression :: "jstr \<Rightarrow> expr_error + ast" where
  "parse_expression expr =
     (if length expr > MAX_EXPRESSION_LENGTH then Inl ExpressionTooLong
      else bindR (tokenize expr) (\<lambda>tokens.
        if tokens = [] then Inl Unparseable else parse tokens))"

end
