(* ===== verification/ExprOps.thy ===== *)
theory ExprOps
  imports ExprParser
begin

text \<open>
  The value operations of \<open>packages/engine/src/expression-evaluator.ts\<close>: truthiness, equality with
  coercion, comparison, arithmetic and property access.
\<close>

section \<open>Truthiness and equality\<close>

definition is_truthy :: "jsval \<Rightarrow> bool" where
  "is_truthy v = (case v of
     Null \<Rightarrow> False | Undefined \<Rightarrow> False
   | JBool b \<Rightarrow> b
   | JNum n \<Rightarrow> \<not> is_zero n
   | JStr s \<Rightarrow> s \<noteq> []
   | JArr vs \<Rightarrow> vs \<noteq> []
   | JObj _ \<Rightarrow> True | ObjectProto \<Rightarrow> True
   | Builtin _ \<Rightarrow> False)"

definition num_eq_str :: "jsnum \<Rightarrow> jstr \<Rightarrow> bool" where
  "num_eq_str x s = (let n = parse_float s in if n = NaN then False else js_num_eq x n)"

definition bool_num :: "bool \<Rightarrow> jsnum" where
  "bool_num b = Num (if b then 1 else 0)"

text \<open>
  \<open>isEqual\<close>.  Two objects are compared over the left one's own keys, so the recursion is on the
  left value; the right one's members are read with inheritance (\<open>k in right\<close>, \<open>right[k]\<close>).
\<close>

fun is_equal :: "jsval \<Rightarrow> jsval \<Rightarrow> bool" where
  "is_equal Null r = (r = Null)"
| "is_equal (JArr ls) r =
     (case r of JArr rs \<Rightarrow> length ls = length rs \<and> list_all2 is_equal ls rs | _ \<Rightarrow> False)"
| "is_equal (JObj ls) r =
     (case r of
        JObj rs \<Rightarrow> length ls = length rs \<and>
          list_all (\<lambda>e. has_member rs (fst e) \<and> is_equal (snd e) (get_member rs (fst e))) ls
      | ObjectProto \<Rightarrow> ls = []
      | _ \<Rightarrow> False)"
| "is_equal ObjectProto r = (case r of JObj rs \<Rightarrow> rs = [] | ObjectProto \<Rightarrow> True | _ \<Rightarrow> False)"
| "is_equal (JNum x) r =
     (case r of JNum y \<Rightarrow> js_num_eq x y | JStr s \<Rightarrow> num_eq_str x s
      | JBool b \<Rightarrow> js_num_eq x (bool_num b) | _ \<Rightarrow> False)"
| "is_equal (JStr s) r =
     (case r of JStr t \<Rightarrow> s = t | JNum y \<Rightarrow> num_eq_str y s | _ \<Rightarrow> False)"
| "is_equal (JBool a) r =
     (case r of JBool b \<Rightarrow> a = b | JNum y \<Rightarrow> js_num_eq (bool_num a) y | _ \<Rightarrow> False)"
| "is_equal Undefined r = False"
| "is_equal (Builtin f) r = False"

section \<open>Comparison and arithmetic\<close>

fun str_less :: "jstr \<Rightarrow> jstr \<Rightarrow> bool" where
  "str_less [] t = (t \<noteq> [])"
| "str_less (c # s) [] = False"
| "str_less (c # s) (d # t) = (c < d \<or> (c = d \<and> str_less s t))"

definition numeric_compare :: "binop \<Rightarrow> jsnum \<Rightarrow> jsnum \<Rightarrow> bool" where
  "numeric_compare op x y = (case op of
     OpLt \<Rightarrow> js_less x y | OpLte \<Rightarrow> js_le x y | OpGt \<Rightarrow> js_less y x | OpGte \<Rightarrow> js_le y x
   | OpEq \<Rightarrow> js_num_eq x y | OpNeq \<Rightarrow> \<not> js_num_eq x y | _ \<Rightarrow> False)"

definition string_compare :: "binop \<Rightarrow> jstr \<Rightarrow> jstr \<Rightarrow> bool" where
  "string_compare op s t = (case op of
     OpLt \<Rightarrow> str_less s t | OpLte \<Rightarrow> s = t \<or> str_less s t
   | OpGt \<Rightarrow> str_less t s | OpGte \<Rightarrow> s = t \<or> str_less t s
   | OpEq \<Rightarrow> s = t | OpNeq \<Rightarrow> s \<noteq> t | _ \<Rightarrow> False)"

text \<open>\<open>toNumber\<close>; its \<open>null\<close> is \<open>None\<close>.\<close>

definition to_number :: "jsval \<Rightarrow> jsnum option" where
  "to_number v = (case v of
     JNum n \<Rightarrow> Some n
   | JBool b \<Rightarrow> Some (bool_num b)
   | Null \<Rightarrow> Some (Num 0)
   | JStr s \<Rightarrow> (let n = parse_float s in if n = NaN then None else Some n)
   | _ \<Rightarrow> None)"

definition compare_values :: "binop \<Rightarrow> jsval \<Rightarrow> jsval \<Rightarrow> expr_error + bool" where
  "compare_values op l r =
     (case (l, r) of
        (JNum x, JNum y) \<Rightarrow> Inr (numeric_compare op x y)
      | (JStr s, JStr t) \<Rightarrow> Inr (string_compare op s t)
      | _ \<Rightarrow> (case (to_number l, to_number r) of
                (Some x, Some y) \<Rightarrow> Inr (numeric_compare op x y)
              | _ \<Rightarrow> Inl TypeMismatch))"

definition to_number_strict :: "jsval \<Rightarrow> expr_error + jsnum" where
  "to_number_strict v = (case to_number v of Some n \<Rightarrow> Inr n | None \<Rightarrow> Inl TypeMismatch)"

definition arith_op :: "binop \<Rightarrow> jsval \<Rightarrow> jsval \<Rightarrow> expr_error + jsval" where
  "arith_op op l r =
     (let numeric =
        bindR (to_number_strict l) (\<lambda>x. bindR (to_number_strict r) (\<lambda>y.
          case op of
            OpAdd \<Rightarrow> Inr (JNum (js_add x y))
          | OpSub \<Rightarrow> Inr (JNum (js_sub x y))
          | OpMul \<Rightarrow> Inr (JNum (js_mul x y))
          | OpDiv \<Rightarrow> if is_zero y then Inl TypeMismatch else Inr (JNum (js_div x y))
          | OpMod \<Rightarrow> if is_zero y then Inl TypeMismatch else Inr (JNum (js_rem x y))
          | _ \<Rightarrow> Inl TypeMismatch))
      in if op \<noteq> OpAdd then numeric
         else case (l, r) of
           (JStr s, JStr t) \<Rightarrow> Inr (JStr (s @ t))
         | (JStr _, JNum _) \<Rightarrow> Inl TypeMismatch
         | (JNum _, JStr _) \<Rightarrow> Inl TypeMismatch
         | _ \<Rightarrow> numeric)"

section \<open>Property access\<close>

definition nullish :: "jsval \<Rightarrow> jsval \<Rightarrow> jsval" where
  "nullish v d = (if v = Null \<or> v = Undefined then d else v)"

definition array_at :: "jsval list \<Rightarrow> jsnum \<Rightarrow> jsval" where
  "array_at vs n = (case n of
     Num r \<Rightarrow> if r = of_int \<lfloor>r\<rfloor> \<and> 0 \<le> r \<and> nat \<lfloor>r\<rfloor> < length vs then vs ! nat \<lfloor>r\<rfloor> else Undefined
   | NegZero \<Rightarrow> if vs = [] then Undefined else vs ! 0
   | _ \<Rightarrow> Undefined)"

definition coerce_str :: "jsval \<Rightarrow> expr_error + jstr" where
  "coerce_str v = (case to_jstr v of Some s \<Rightarrow> Inr s | None \<Rightarrow> Inl EngineTypeError)"

definition get_property :: "jsval \<Rightarrow> jsval \<Rightarrow> expr_error + jsval" where
  "get_property obj key =
     (if obj = Null \<or> obj = Undefined then Inr Null
      else if (case key of JStr k \<Rightarrow> k \<in> set FORBIDDEN_PROPS | _ \<Rightarrow> False) then Inl ForbiddenProperty
      else case obj of
        JArr vs \<Rightarrow> (case key of
            JNum n \<Rightarrow> Inr (nullish (array_at vs n) Null)
          | JStr s \<Rightarrow> (let n = parse_int10 s in
                        if n \<noteq> NaN then Inr (nullish (array_at vs n) Null) else Inr Null)
          | _ \<Rightarrow> Inr Null)
      | JObj kvs \<Rightarrow> bindR (coerce_str key) (\<lambda>k. Inr (nullish (get_member kvs k) Null))
      | ObjectProto \<Rightarrow> bindR (coerce_str key) (\<lambda>k. Inr (nullish (proto_member k) Null))
      | _ \<Rightarrow> Inr Null)"

section \<open>Lemmas\<close>

text \<open>
  On plain data the equality is reflexive and symmetric.  With an inherited property name as an
  own key it is not symmetric, which is why \<open>plain\<close> excludes those.
\<close>

lemma js_num_eq_refl: "n \<noteq> NaN \<Longrightarrow> js_num_eq n n"
  by (simp add: js_num_eq_def)

lemma is_equal_refl: "plain v \<Longrightarrow> is_equal v v"
proof (induction v)
  case (JArr vs)
  then show ?case by (auto simp: list_all_iff list_all2_conv_all_nth)
next
  case (JObj kvs)
  have "has_member kvs (fst e) \<and> is_equal (snd e) (get_member kvs (fst e))" if e: "e \<in> set kvs" for e
  proof -
    have "get_member kvs (fst e) = snd e"
      using JObj.prems e by (intro get_member_in) auto
    moreover have "plain (snd e)" using JObj.prems e by (simp add: list_all_iff)
    moreover have "snd e \<in> Basic_BNFs.snds e" by (cases e) (simp add: Basic_BNFs.snds.simps)
    ultimately show ?thesis using JObj.IH[OF e] e by (auto simp: has_member_def)
  qed
  then show ?case by (simp add: list_all_iff)
qed (simp_all add: js_num_eq_refl)

lemma str_less_irrefl [simp]: "\<not> str_less s s"
  by (induction s) auto

lemma str_less_trans: "str_less s t \<Longrightarrow> str_less t u \<Longrightarrow> str_less s u"
proof (induction s t arbitrary: u rule: str_less.induct)
  case (1 t)
  then show ?case by (cases t; cases u) auto
next
  case (3 c s d t)
  then show ?case by (cases u) auto
qed simp

lemma str_less_total: "s = t \<or> str_less s t \<or> str_less t s"
proof (induction s t rule: str_less.induct)
  case (1 t)
  then show ?case by (cases t) auto
qed auto

lemma has_entry_size: "e \<in> set kvs \<Longrightarrow> snd e \<in> Basic_BNFs.snds e"
  by (cases e) (simp add: Basic_BNFs.snds.simps)

lemma is_equal_sym: "is_equal a b \<Longrightarrow> plain a \<Longrightarrow> plain b \<Longrightarrow> is_equal b a"
proof (induction a arbitrary: b)
  case (JArr ls)
  then obtain rs where b: "b = JArr rs" by (auto split: jsval.splits)
  with JArr show ?case by (auto simp: list_all2_conv_all_nth list_all_length)
next
  case (JObj ls)
  from JObj.prems obtain rs where b: "b = JObj rs"
    by (auto split: jsval.splits)
  have len: "length ls = length rs" and dl: "distinct (map fst ls)" and dr: "distinct (map fst rs)"
    and all: "\<And>e. e \<in> set ls \<Longrightarrow> has_member rs (fst e) \<and> is_equal (snd e) (get_member rs (fst e))"
    and pl: "\<And>e. e \<in> set ls \<Longrightarrow> fst e \<noteq> proto_name \<and> fst e \<notin> set inherited_names \<and> plain (snd e)"
    and pr: "\<And>e. e \<in> set rs \<Longrightarrow> plain (snd e)"
    using JObj.prems by (auto simp: b list_all_iff)
  have sub: "fst ` set ls \<subseteq> fst ` set rs"
    using all pl has_member_plain by (fastforce simp: image_iff)
  have "card (fst ` set ls) = card (fst ` set rs)"
    using len dl dr distinct_card[of "map fst ls"] distinct_card[of "map fst rs"] by simp
  with sub have keys: "fst ` set rs = fst ` set ls"
    using card_subset_eq[of "fst ` set rs" "fst ` set ls"] by simp
  have "has_member ls (fst e) \<and> is_equal (snd e) (get_member ls (fst e))" if e: "e \<in> set rs" for e
  proof -
    obtain e' where e': "e' \<in> set ls" "fst e' = fst e"
      using keys e by (metis imageE imageI)
    have g: "get_member rs (fst e) = snd e" "get_member ls (fst e) = snd e'"
      using e e' dl dr by (auto intro!: get_member_in) (metis prod.collapse)
    have "is_equal (snd e') (snd e)" using all[OF e'(1)] e'(2) g(1) by simp
    then have "is_equal (snd e) (snd e')"
      using JObj.IH[OF e'(1) has_entry_size[OF e'(1)]] pl[OF e'(1)] pr[OF e] by blast
    moreover have "has_member ls (fst e)" using e' by (auto simp: has_member_def image_iff) metis
    ultimately show ?thesis using g(2) by simp
  qed
  then show ?case by (simp add: b len list_all_iff)
qed (auto simp: js_num_eq_sym split: jsval.splits)

text \<open>Static keys: a forbidden name is refused on every value but \<open>null\<close> and \<open>undefined\<close>.\<close>

lemma get_property_forbidden:
  "k \<in> set FORBIDDEN_PROPS \<Longrightarrow> obj \<noteq> Null \<Longrightarrow> obj \<noteq> Undefined \<Longrightarrow>
     get_property obj (JStr k) = Inl ForbiddenProperty"
  by (simp add: get_property_def)

text \<open>
  \<open>tame\<close>: the value holds no trace of the prototype chain but the harmless inherited methods;
  neither the \<open>Object\<close> constructor nor the prototype object.
\<close>

fun tame :: "jsval \<Rightarrow> bool" where
  "tame (JArr vs) = list_all tame vs"
| "tame (JObj kvs) = list_all (\<lambda>e. tame (snd e)) kvs"
| "tame (Builtin f) = (f \<noteq> js ''Object'')"
| "tame ObjectProto = False"
| "tame v = True"

lemma tame_array_at: "list_all tame vs \<Longrightarrow> tame (array_at vs n)"
  by (auto simp: array_at_def list_all_length split: jsnum.split)

lemma tame_inherited: "k \<noteq> js ''constructor'' \<Longrightarrow> tame (inherited k)"
  by (auto simp: inherited_def inherited_names_def)

lemma tame_get_member:
  assumes "list_all (\<lambda>e. tame (snd e)) kvs" "k \<noteq> proto_name" "k \<noteq> js ''constructor''"
  shows "tame (get_member kvs k)"
proof (cases "map_of kvs k")
  case None
  then show ?thesis using assms tame_inherited by (simp add: get_member_def)
next
  case (Some v)
  with map_of_SomeD[OF this] assms(1) show ?thesis by (auto simp: get_member_def list_all_iff)
qed

text \<open>A key whose text is no forbidden name, whatever its type.\<close>

definition safe_key :: "jsval \<Rightarrow> bool" where
  "safe_key key \<longleftrightarrow> (case to_jstr key of Some k \<Rightarrow> k \<notin> set FORBIDDEN_PROPS | None \<Rightarrow> True)"

lemma tame_get_property:
  assumes "tame obj" "safe_key key \<or> (\<exists>k. key = JStr k)" "get_property obj key = Inr v"
  shows "tame v"
proof -
  have member: "tame (get_member kvs k)" if "obj = JObj kvs" "to_jstr key = Some k" for kvs k
  proof -
    have "k \<notin> set FORBIDDEN_PROPS"
      using assms that by (auto simp: safe_key_def get_property_def split: if_splits)
    then show ?thesis using that(1) assms(1)
      by (intro tame_get_member) (auto simp: FORBIDDEN_PROPS_def proto_name_def)
  qed
  show ?thesis
    using assms tame_array_at member
    by (cases obj; cases key)
       (auto simp: get_property_def coerce_str_def nullish_def Let_def split: if_splits option.splits)
qed

end
