(* ===== verification/ExprGrammar.thy ===== *)
theory ExprGrammar
  imports ExprParser
begin

text \<open>
  The grammar of the expression language, and the proof that the parser of \<open>ExprParser\<close> accepts
  only its sentences, runs out of none of its loops' fuel, and throws
  \<open>operation_limit_exceeded\<close> only on nesting.
\<close>

section \<open>The grammar\<close>

text \<open>
  One non-terminal for each rule of the source's header comment; \<open>derives N ts a\<close>: the tokens
  \<open>ts\<close> are a sentence of \<open>N\<close> whose tree is \<open>a\<close>.
\<close>

datatype nonterm = NOr | NAnd | NNot | NComparison | NAdditive | NMultiplicative | NUnary | NPrimary

inductive derives :: "nonterm \<Rightarrow> token list \<Rightarrow> ast \<Rightarrow> bool"
  and derives_args :: "token list \<Rightarrow> ast list \<Rightarrow> bool"
  and derives_path :: "token list \<Rightarrow> path_key list \<Rightarrow> bool"
where
  or_and: "derives NAnd ts a \<Longrightarrow> derives NOr ts a"
| or_or: "derives NOr ts a \<Longrightarrow> ttype op = TOr \<Longrightarrow> derives NAnd us b \<Longrightarrow>
    derives NOr (ts @ op # us) (Logical LOr a b)"
| and_not: "derives NNot ts a \<Longrightarrow> derives NAnd ts a"
| and_and: "derives NAnd ts a \<Longrightarrow> ttype op = TAnd \<Longrightarrow> derives NNot us b \<Longrightarrow>
    derives NAnd (ts @ op # us) (Logical LAnd a b)"
| not_cmp: "derives NComparison ts a \<Longrightarrow> derives NNot ts a"
| not_not: "ttype op = TNot \<Longrightarrow> derives NNot ts a \<Longrightarrow> derives NNot (op # ts) (Not a)"
| cmp_add: "derives NAdditive ts a \<Longrightarrow> derives NComparison ts a"
| cmp_cmp: "derives NAdditive ts a \<Longrightarrow> is_cmp_op (ttype op) \<Longrightarrow> derives NAdditive us b \<Longrightarrow>
    derives NComparison (ts @ op # us) (Binary (binop_of (ttype op)) a b)"
| add_mul: "derives NMultiplicative ts a \<Longrightarrow> derives NAdditive ts a"
| add_add: "derives NAdditive ts a \<Longrightarrow> is_add_op (ttype op) \<Longrightarrow> derives NMultiplicative us b \<Longrightarrow>
    derives NAdditive (ts @ op # us) (Binary (binop_of (ttype op)) a b)"
| mul_un: "derives NUnary ts a \<Longrightarrow> derives NMultiplicative ts a"
| mul_mul: "derives NMultiplicative ts a \<Longrightarrow> is_mul_op (ttype op) \<Longrightarrow> derives NUnary us b \<Longrightarrow>
    derives NMultiplicative (ts @ op # us) (Binary (binop_of (ttype op)) a b)"
| un_prim: "derives NPrimary ts a \<Longrightarrow> derives NUnary ts a"
| un_un: "ttype op = TMinus \<Longrightarrow> derives NUnary ts a \<Longrightarrow> derives NUnary (op # ts) (Unary a)"
| num: "ttype t = TNumber \<Longrightarrow> derives NPrimary [t] (Literal (JNum (parse_float (tvalue t))))"
| str: "ttype t = TString \<Longrightarrow> derives NPrimary [t] (Literal (JStr (tvalue t)))"
| bool: "ttype t = TBoolean \<Longrightarrow> derives NPrimary [t] (Literal (JBool (tvalue t = js ''true'')))"
| null: "ttype t = TNull \<Longrightarrow> derives NPrimary [t] (Literal Null)"
| paren: "ttype l = TLparen \<Longrightarrow> derives NOr ts a \<Longrightarrow> ttype r = TRparen \<Longrightarrow>
    derives NPrimary (l # ts @ [r]) a"
| call0: "ttype f = TIdentifier \<Longrightarrow> ttype l = TLparen \<Longrightarrow> ttype r = TRparen \<Longrightarrow>
    derives NPrimary [f, l, r] (Call (tvalue f) [])"
| call: "ttype f = TIdentifier \<Longrightarrow> ttype l = TLparen \<Longrightarrow> derives_args ts as \<Longrightarrow> ttype r = TRparen \<Longrightarrow>
    derives NPrimary (f # l # ts @ [r]) (Call (tvalue f) as)"
| path: "derives_path ts p \<Longrightarrow> derives NPrimary ts (Property p)"
| arg: "derives NOr ts a \<Longrightarrow> derives_args ts [a]"
| arg_more: "derives_args ts as \<Longrightarrow> ttype c = TComma \<Longrightarrow> derives NOr us b \<Longrightarrow>
    derives_args (ts @ c # us) (as @ [b])"
| root: "ttype t = TIdentifier \<Longrightarrow> derives_path [t] [Key (JStr (tvalue t))]"
| dot: "derives_path ts p \<Longrightarrow> ttype d = TDot \<Longrightarrow> ttype t = TIdentifier \<Longrightarrow>
    tvalue t \<notin> set FORBIDDEN_PROPS \<Longrightarrow> derives_path (ts @ [d, t]) (p @ [Key (JStr (tvalue t))])"
| index: "derives_path ts p \<Longrightarrow> ttype l = TLbracket \<Longrightarrow> derives NOr us e \<Longrightarrow> ttype r = TRbracket \<Longrightarrow>
    derives_path (ts @ l # us @ [r]) (p @ [index_key e])"

section \<open>The contract of a parsing method\<close>

text \<open>The brackets of a token list that open a nested expression.\<close>

definition is_opening :: "token \<Rightarrow> bool" where
  "is_opening t \<longleftrightarrow> ttype t = TLparen \<or> ttype t = TLbracket"

definition openings :: "token list \<Rightarrow> nat" where
  "openings ts = length (filter is_opening ts)"

lemma openings_append [simp]: "openings (ts @ us) = openings ts + openings us"
  by (simp add: openings_def)

lemma openings_Cons [simp]: "openings (t # ts) = (if is_opening t then 1 else 0) + openings ts"
  by (simp add: openings_def)

lemma openings_Nil [simp]: "openings [] = 0"
  by (simp add: openings_def)

text \<open>
  \<open>meets m l G st r\<close>: a method called in state \<open>st\<close> that returned \<open>r\<close> has consumed a sentence of
  \<open>G\<close>, kept the depth and counted at most one operation per token; it diverges only if the fuel
  \<open>m\<close> is too small for the depth, and hits the operation limit only by nesting.
\<close>

definition meets ::
  "nat \<Rightarrow> nat \<Rightarrow> (token list \<Rightarrow> 'a \<Rightarrow> bool) \<Rightarrow> pst \<Rightarrow> expr_error + 'a \<times> pst \<Rightarrow> bool" where
  "meets m l G st r \<longleftrightarrow> (case r of
     Inr (a, st') \<Rightarrow>
       \<exists>used. toks st = used @ toks st' \<and> G used a \<and> depth st' = depth st \<and>
         p_ops st' \<le> p_ops st + length used
   | Inl e \<Rightarrow>
       (e = Diverged \<longrightarrow> \<not> (depth st \<le> 50 \<and> 51 \<le> depth st + m)) \<and>
       (e = OperationLimit \<longrightarrow> p_ops st + length (toks st) \<le> 10000 \<longrightarrow>
          l \<le> depth st + openings (toks st)))"

lemma meets_InrI:
  "toks st = used @ toks st' \<Longrightarrow> G used a \<Longrightarrow> depth st' = depth st \<Longrightarrow>
     p_ops st' \<le> p_ops st + length used \<Longrightarrow> meets m l G st (Inr (a, st'))"
  by (auto simp: meets_def)

lemma meets_Inl: "e \<noteq> Diverged \<Longrightarrow> e \<noteq> OperationLimit \<Longrightarrow> meets m l G st (Inl e)"
  by (simp add: meets_def)

lemma meets_bind:
  assumes m: "meets m l G st r"
    and f: "\<And>a st' used. toks st = used @ toks st' \<Longrightarrow> G used a \<Longrightarrow> depth st' = depth st \<Longrightarrow>
      meets m l (\<lambda>us b. H (used @ us) b) st' (f (a, st'))"
  shows "meets m l H st (bindR r f)"
proof (cases r)
  case (Inl e)
  with m show ?thesis by (simp add: meets_def)
next
  case (Inr x)
  obtain a st' where x: "x = (a, st')" by (cases x)
  from m obtain used where u: "toks st = used @ toks st'" "G used a" "depth st' = depth st"
      "p_ops st' \<le> p_ops st + length used"
    by (auto simp: Inr x meets_def)
  from f[OF u(1-3)] u show ?thesis
    by (auto simp: Inr x meets_def split: sum.splits)
qed

lemma meets_mono: "meets m l G st r \<Longrightarrow> (\<And>ts a. G ts a \<Longrightarrow> H ts a) \<Longrightarrow> meets m l H st r"
  by (fastforce simp: meets_def split: sum.splits prod.splits)

text \<open>Counting an operation and taking the next token is a step that consumes that token.\<close>

lemma meets_take:
  assumes "toks st = t # ts"
    and "\<And>st'. toks st' = ts \<Longrightarrow> depth st' = depth st \<Longrightarrow>
      meets m (if is_opening t then l - 1 else l) (\<lambda>us b. H (t # us) b) st' (f (t, st'))"
  shows "meets m l H st (bindR (next_tok st) f)"
proof -
  have "meets m (if is_opening t then l - 1 else l) (\<lambda>us b. H (t # us) b) (st\<lparr>toks := ts\<rparr>) (f (t, st\<lparr>toks := ts\<rparr>))"
    using assms(2)[of "st\<lparr>toks := ts\<rparr>"] by simp
  with assms(1) show ?thesis
    by (auto simp: next_tok_def meets_def split: sum.splits if_splits)
qed

lemma meets_count_take:
  assumes "toks st = t # ts"
    and "\<And>st'. toks st' = ts \<Longrightarrow> depth st' = depth st \<Longrightarrow>
      meets m (if is_opening t then l - 1 else l) (\<lambda>us b. H (t # us) b) st' (f (t, st'))"
  shows "meets m l H st (bindR (count_op st) (\<lambda>s. bindR (next_tok s) f))"
proof (cases "p_ops st + 1 > MAX_OPERATIONS")
  case True
  with assms(1) show ?thesis by (simp add: count_op_def meets_def MAX_OPERATIONS_def)
next
  case False
  let ?s = "st\<lparr>p_ops := p_ops st + 1, toks := ts\<rparr>"
  have "meets m (if is_opening t then l - 1 else l) (\<lambda>us b. H (t # us) b) ?s (f (t, ?s))" using assms(2)[of ?s] by simp
  with False assms(1) show ?thesis
    by (auto simp: count_op_def next_tok_def meets_def split: sum.splits if_splits)
qed

lemma check_eq: "check t st \<longleftrightarrow> (\<exists>tk r. toks st = tk # r \<and> ttype tk = t)"
  by (auto simp: check_def split: list.splits)

lemma check_any_eq: "check_any p st \<longleftrightarrow> (\<exists>tk r. toks st = tk # r \<and> p (ttype tk))"
  by (auto simp: check_any_def split: list.splits)

lemma meets_consume:
  assumes "\<And>tk st'. toks st = tk # toks st' \<Longrightarrow> ttype tk = t \<Longrightarrow> depth st' = depth st \<Longrightarrow>
      meets m l (\<lambda>us b. H (tk # us) b) st' (f (tk, st'))"
    and "t \<noteq> TLparen" "t \<noteq> TLbracket"
  shows "meets m l H st (bindR (consume t st) f)"
proof (cases "check t st")
  case True
  then obtain tk r where tk: "toks st = tk # r" "ttype tk = t" by (auto simp: check_eq)
  then have "meets m l H st (bindR (next_tok st) f)" using assms by (intro meets_take) (auto simp: is_opening_def)
  with True show ?thesis by (simp add: consume_def)
qed (simp add: consume_def meets_Inl)

locale sub_parser =
  fixes P :: "pst \<Rightarrow> expr_error + 'a \<times> pst"
    and G :: "token list \<Rightarrow> 'a \<Rightarrow> bool"
    and m :: nat
    and l :: nat
  assumes contract: "meets m l G st (P st)"
begin

lemma sound:
  "P st = Inr (a, st') \<Longrightarrow> \<exists>used. toks st = used @ toks st' \<and> G used a \<and> depth st' = depth st"
  using contract[of st] by (auto simp: meets_def)

lemma ops_le: "P st = Inr (a, st') \<Longrightarrow> p_ops st' + length (toks st') \<le> p_ops st + length (toks st)"
  using contract[of st] by (auto simp: meets_def)

lemma total: "depth st \<le> 50 \<Longrightarrow> 51 \<le> depth st + m \<Longrightarrow> P st \<noteq> Inl Diverged"
  using contract[of st] by (auto simp: meets_def)

lemma limit:
  "P st = Inl OperationLimit \<Longrightarrow> p_ops st + length (toks st) \<le> 10000 \<Longrightarrow>
     l \<le> depth st + openings (toks st)"
  using contract[of st] by (auto simp: meets_def)

lemma bind:
  assumes "\<And>a st' used. toks st = used @ toks st' \<Longrightarrow> G used a \<Longrightarrow> depth st' = depth st \<Longrightarrow>
      meets m l (\<lambda>us b. H (used @ us) b) st' (f (a, st'))"
  shows "meets m l H st (bindR (P st) f)"
  using contract assms by (rule meets_bind)

end

section \<open>Every level keeps the contract\<close>

context sub_parser
begin

lemma antimono: "k \<le> l \<Longrightarrow> sub_parser P G m k"
  using contract unfolding sub_parser_def
  by (fastforce simp: meets_def split: sum.splits)

end

text \<open>The loops of a level over \<open>Q\<close>, for operators that are not brackets.\<close>

lemma left_loop_meets:
  fixes mk :: "token \<Rightarrow> ast \<Rightarrow> ast \<Rightarrow> ast"
  assumes P: "sub_parser Q G' m l"
    and op: "\<And>t. is_op (ttype t) \<Longrightarrow> \<not> is_opening t"
    and mk: "\<And>ts a t us b. F ts a \<Longrightarrow> is_op (ttype t) \<Longrightarrow> G' us b \<Longrightarrow> F (ts @ t # us) (mk t a b)"
  shows "F pre left \<Longrightarrow> length (toks st) < n \<Longrightarrow>
    meets m l (\<lambda>us b. F (pre @ us) b) st (left_loop n is_op mk Q left st)"
proof (induction n arbitrary: pre left st)
  case (Suc n)
  show ?case
  proof (cases "check_any is_op st")
    case True
    then obtain t ts where t: "toks st = t # ts" "is_op (ttype t)" by (auto simp: check_any_eq)
    have step: "meets m l (\<lambda>us. F (pre @ t # used @ us)) st'' (left_loop n is_op mk Q (mk t left a) st'')"
      if a: "toks st' = ts" "toks st' = used @ toks st''" "G' used a" for st' st'' :: pst and a used
    proof -
      have "F (pre @ t # used) (mk t left a)" using mk[OF Suc.prems(1) t(2) a(3)] by simp
      moreover have "length (toks st'') < n"
        using Suc.prems(2) arg_cong[OF a(2), of length] by (simp add: t(1) a(1))
      ultimately show ?thesis using Suc.IH[of "pre @ t # used" "mk t left a" st''] by simp
    qed
    have "meets m l (\<lambda>us. F (pre @ t # us)) st'
        (bindR (Q st') (\<lambda>(right, st3). left_loop n is_op mk Q (mk t left right) st3))"
      if "toks st' = ts" for st'
      by (rule sub_parser.bind[OF P]) (auto intro: step that)
    then have "meets m l (\<lambda>us b. F (pre @ us) b) st
      (bindR (count_op st) (\<lambda>st1. bindR (next_tok st1) (\<lambda>(op, st2).
        bindR (Q st2) (\<lambda>(right, st3). left_loop n is_op mk Q (mk op left right) st3))))"
      by (intro meets_count_take[OF t(1)]) (simp add: op[OF t(2)])
    with True show ?thesis by simp
  next
    case False
    with Suc show ?thesis by (auto intro: meets_InrI[where used = "[]"])
  qed
qed simp

lemma sub_parser_left_chain:
  assumes P: "sub_parser Q G' m l"
    and op: "\<And>t. is_op (ttype t) \<Longrightarrow> \<not> is_opening t"
    and base: "\<And>ts a. G' ts a \<Longrightarrow> F ts a"
    and mk: "\<And>ts a t us b. F ts a \<Longrightarrow> is_op (ttype t) \<Longrightarrow> G' us b \<Longrightarrow> F (ts @ t # us) (mk t a b)"
  shows "sub_parser (left_chain is_op mk Q) F m l"
proof
  fix st
  have loop: "meets m l (\<lambda>us b. F (used @ us) b) st'
      (left_loop (Suc (length (toks st'))) is_op mk Q left st')"
    if "G' used left" for used left st'
    by (rule left_loop_meets[where F = F, OF P op mk]) (simp_all add: base that)
  then show "meets m l F st (left_chain is_op mk Q st)"
    unfolding left_chain_def by (intro sub_parser.bind[OF P]) simp
qed

lemma prefix_loop_meets:
  assumes P: "sub_parser Q G m l"
    and t: "t \<noteq> TLparen" "t \<noteq> TLbracket"
    and base: "\<And>ts a. G ts a \<Longrightarrow> F ts a"
    and mk: "\<And>tk ts a. ttype tk = t \<Longrightarrow> F ts a \<Longrightarrow> F (tk # ts) (mk a)"
  shows "length (toks st) < n \<Longrightarrow> meets m l F st (prefix_loop n t mk Q st)"
proof (induction n arbitrary: st)
  case (Suc n)
  show ?case
  proof (cases "check t st")
    case True
    then obtain tk ts where tk: "toks st = tk # ts" "ttype tk = t" by (auto simp: check_eq)
    then have no: "\<not> is_opening tk" using t by (simp add: is_opening_def)
    have "meets m l F st
      (bindR (count_op st) (\<lambda>st1. bindR (next_tok st1) (\<lambda>(_, st2).
        bindR (prefix_loop n t mk Q st2) (\<lambda>(operand, st3). Inr (mk operand, st3)))))"
    proof (rule meets_count_take[OF tk(1)], simp only: prod.case no if_False)
      fix st' :: pst assume "toks st' = ts"
      then have "meets m l F st' (prefix_loop n t mk Q st')" using Suc tk(1) by simp
      then show "meets m l (\<lambda>us. F (tk # us)) st'
          (bindR (prefix_loop n t mk Q st') (\<lambda>(operand, st3). Inr (mk operand, st3)))"
        by (rule meets_bind) (auto intro!: meets_InrI[where used = "[]"] mk[OF tk(2)])
    qed
    with True show ?thesis by simp
  next
    case False
    with meets_mono[OF sub_parser.contract[OF P, of st] base] show ?thesis by simp
  qed
qed simp

lemma sub_parser_prefix:
  assumes "sub_parser Q G m l" "t \<noteq> TLparen" "t \<noteq> TLbracket"
    and "\<And>ts a. G ts a \<Longrightarrow> F ts a"
    and "\<And>tk ts a. ttype tk = t \<Longrightarrow> F ts a \<Longrightarrow> F (tk # ts) (mk a)"
  shows "sub_parser (\<lambda>st. prefix_loop (Suc (length (toks st))) t mk Q st) F m l"
proof
  fix st
  show "meets m l F st (prefix_loop (Suc (length (toks st))) t mk Q st)"
    by (rule prefix_loop_meets[where G = G]) (simp_all add: assms)
qed

lemma op_not_opening:
  "is_mul_op (ttype t) \<Longrightarrow> \<not> is_opening t" "is_add_op (ttype t) \<Longrightarrow> \<not> is_opening t"
  "is_cmp_op (ttype t) \<Longrightarrow> \<not> is_opening t" "ttype t = TAnd \<Longrightarrow> \<not> is_opening t"
  "ttype t = TOr \<Longrightarrow> \<not> is_opening t"
  by (auto simp: is_mul_op_def is_add_op_def is_cmp_op_def is_opening_def)

lemmas derives_base =
  derives_derives_args_derives_path.or_and derives_derives_args_derives_path.and_not
  derives_derives_args_derives_path.not_cmp derives_derives_args_derives_path.cmp_add
  derives_derives_args_derives_path.add_mul derives_derives_args_derives_path.mul_un
  derives_derives_args_derives_path.un_prim

lemmas derives_op =
  derives_derives_args_derives_path.or_or derives_derives_args_derives_path.and_and
  derives_derives_args_derives_path.not_not derives_derives_args_derives_path.cmp_cmp
  derives_derives_args_derives_path.add_add derives_derives_args_derives_path.mul_mul
  derives_derives_args_derives_path.un_un

lemma sub_parser_unary: "sub_parser P (derives NPrimary) m l \<Longrightarrow> sub_parser (parse_unary P) (derives NUnary) m l"
  unfolding parse_unary_def[abs_def]
  by (rule sub_parser_prefix[where G = "derives NPrimary"]) (auto intro: derives_base derives_op)

lemma sub_parser_multiplicative:
  "sub_parser P (derives NPrimary) m l \<Longrightarrow> sub_parser (parse_multiplicative P) (derives NMultiplicative) m l"
  unfolding parse_multiplicative_def
  by (rule sub_parser_left_chain[OF sub_parser_unary])
     (auto simp: mk_binary_def op_not_opening intro: derives_base derives_op)

lemma sub_parser_additive:
  "sub_parser P (derives NPrimary) m l \<Longrightarrow> sub_parser (parse_additive P) (derives NAdditive) m l"
  unfolding parse_additive_def
  by (rule sub_parser_left_chain[OF sub_parser_multiplicative])
     (auto simp: mk_binary_def op_not_opening intro: derives_base derives_op)

lemma sub_parser_comparison:
  assumes P: "sub_parser P (derives NPrimary) m l"
  shows "sub_parser (parse_comparison P) (derives NComparison) m l"
proof (rule sub_parser.intro)
  fix st
  note A = sub_parser_additive[OF P]
  have "meets m l (\<lambda>us. derives NComparison (used @ us)) st'
      (if check_any is_cmp_op st' then
         bindR (count_op st') (\<lambda>st2. bindR (next_tok st2) (\<lambda>(op, st3).
         bindR (parse_additive P st3) (\<lambda>(right, st4). Inr (mk_binary op left right, st4))))
       else Inr (left, st'))" (is "meets _ _ _ _ (if _ then ?r else _)")
    if left: "derives NAdditive used left" for used left st'
  proof (cases "check_any is_cmp_op st'")
    case True
    then obtain t ts where t: "toks st' = t # ts" "is_cmp_op (ttype t)" by (auto simp: check_any_eq)
    have "meets m l (\<lambda>us. derives NComparison (used @ us)) st' ?r"
      by (rule meets_count_take[OF t(1)], simp only: prod.case op_not_opening(3)[OF t(2)] if_False,
          rule sub_parser.bind[OF A])
        (auto simp: mk_binary_def t(2) left intro!: meets_InrI[where used = "[]"] derives_op)
    with True show ?thesis by simp
  next
    case False
    with left show ?thesis by (auto intro!: meets_InrI[where used = "[]"] derives_base(4))
  qed
  then show "meets m l (derives NComparison) st (parse_comparison P st)"
    unfolding parse_comparison_def by (intro sub_parser.bind[OF A]) simp
qed

lemma sub_parser_not: "sub_parser P (derives NPrimary) m l \<Longrightarrow> sub_parser (parse_not P) (derives NNot) m l"
  unfolding parse_not_def[abs_def]
  by (rule sub_parser_prefix[OF sub_parser_comparison]) (auto intro: derives_base derives_op)

lemma sub_parser_and: "sub_parser P (derives NPrimary) m l \<Longrightarrow> sub_parser (parse_and P) (derives NAnd) m l"
  unfolding parse_and_def
  by (rule sub_parser_left_chain[OF sub_parser_not])
     (auto simp: mk_logical_def op_not_opening intro: derives_base derives_op)

lemma sub_parser_or: "sub_parser P (derives NPrimary) m l \<Longrightarrow> sub_parser (parse_or P) (derives NOr) m l"
  unfolding parse_or_def
  by (rule sub_parser_left_chain[OF sub_parser_and])
     (auto simp: mk_logical_def op_not_opening intro: derives_base derives_op)

section \<open>Primary expressions and the whole parser\<close>

lemma meets_antimono: "meets m l G st r \<Longrightarrow> k \<le> l \<Longrightarrow> meets m k G st r"
  by (fastforce simp: meets_def split: sum.splits)

lemma opening_brackets:
  "ttype t = TLparen \<Longrightarrow> is_opening t" "ttype t = TLbracket \<Longrightarrow> is_opening t"
  "ttype t = TDot \<Longrightarrow> \<not> is_opening t" "ttype t = TIdentifier \<Longrightarrow> \<not> is_opening t"
  "ttype t = TComma \<Longrightarrow> \<not> is_opening t"
  by (auto simp: is_opening_def)

lemma args_loop_meets:
  assumes E: "sub_parser E (derives NOr) m l"
  shows "derives_args pre args \<Longrightarrow> length (toks st) < n \<Longrightarrow>
    meets m l (\<lambda>us b. derives_args (pre @ us) b) st (args_loop n E args st)"
proof (induction n arbitrary: pre args st)
  case (Suc n)
  show ?case
  proof (cases "check TComma st")
    case True
    then obtain c ts where c: "toks st = c # ts" "ttype c = TComma" by (auto simp: check_eq)
    have step: "meets m l (\<lambda>us. derives_args (pre @ c # used @ us)) st'' (args_loop n E (args @ [a]) st'')"
      if "toks st' = ts" "toks st' = used @ toks st''" "derives NOr used a" for st' st'' :: pst and a used
      using Suc.IH[of "pre @ c # used" "args @ [a]" st''] that(3) c Suc.prems
        arg_cong[OF that(2), of length] that(1)
      by (simp add: derives_derives_args_derives_path.arg_more)
    have "meets m l (\<lambda>us. derives_args (pre @ c # us)) st' (bindR (E st') (\<lambda>(a, st2). args_loop n E (args @ [a]) st2))"
      if "toks st' = ts" for st'
      by (rule sub_parser.bind[OF E]) (auto intro: step that)
    then have "meets m l (\<lambda>us b. derives_args (pre @ us) b) st
        (bindR (next_tok st) (\<lambda>(_, st1). bindR (E st1) (\<lambda>(a, st2). args_loop n E (args @ [a]) st2)))"
      by (intro meets_take[OF c(1)]) (simp add: opening_brackets c(2))
    with True show ?thesis by simp
  next
    case False
    with Suc.prems show ?thesis by (auto intro: meets_InrI[where used = "[]"])
  qed
qed simp

lemma parse_call_meets:
  assumes E: "sub_parser E (derives NOr) m l" and f: "ttype f = TIdentifier" and c: "check TLparen st"
  shows "meets m (Suc l) (\<lambda>us. derives NPrimary (f # us)) st (parse_call E (tvalue f) st)"
proof -
  obtain p ts where p: "toks st = p # ts" "ttype p = TLparen" using c by (auto simp: check_eq)
  let ?G = "\<lambda>us as. (us = [] \<and> as = []) \<or> derives_args us as"
  have args: "meets m l ?G st1
      (if check TRparen st1 then Inr ([], st1)
       else bindR (E st1) (\<lambda>(a, st2). args_loop (Suc (length (toks st2))) E [a] st2))" for st1
  proof (cases "check TRparen st1")
    case True
    then show ?thesis by (auto intro: meets_InrI[where used = "[]"])
  next
    case False
    have "meets m l (\<lambda>us b. ?G (used @ us) b) st2 (args_loop (Suc (length (toks st2))) E [a] st2)"
      if "derives NOr used a" for used a st2
      by (rule meets_mono[OF args_loop_meets[OF E, of used]])
        (auto intro: derives_derives_args_derives_path.arg that)
    with False show ?thesis by (auto intro!: sub_parser.bind[OF E])
  qed
  have sentence: "derives NPrimary (f # p # used @ [r]) (Call (tvalue f) args)"
    if "?G used args" "ttype r = TRparen" for used args r
    using that derives_derives_args_derives_path.call0[OF f p(2), of r]
      derives_derives_args_derives_path.call[OF f p(2), of used args r] by auto
  have tail: "meets m l (\<lambda>us. derives NPrimary (f # p # used @ us)) st2
      (bindR (consume TRparen st2) (\<lambda>(_, st3). Inr (Call (tvalue f) args, st3)))"
    if "?G used args" for used args st2
    by (rule meets_consume) (use that sentence in \<open>auto intro!: meets_InrI[where used = "[]"]\<close>)
  have "meets m l (\<lambda>us. derives NPrimary (f # p # us)) st1
      (bindR (if check TRparen st1 then Inr ([], st1)
            else bindR (E st1) (\<lambda>(a, st2). args_loop (Suc (length (toks st2))) E [a] st2))
       (\<lambda>(args, st2). bindR (consume TRparen st2) (\<lambda>(_, st3). Inr (Call (tvalue f) args, st3))))" for st1
    by (rule meets_bind[OF args]) (simp only: prod.case tail)
  then show ?thesis
    unfolding parse_call_def
    by (intro meets_take[OF p(1)]) (simp only: opening_brackets p(2) if_True prod.case diff_Suc_1)
qed

lemma path_loop_meets:
  assumes E: "sub_parser E (derives NOr) m l"
  shows "derives_path pre path \<Longrightarrow> length (toks st) < n \<Longrightarrow>
    meets m (Suc l) (\<lambda>us. derives_path (pre @ us)) st (path_loop n E path st)"
proof (induction n arbitrary: pre path st)
  case (Suc n)
  have IH: "meets m (Suc l) (\<lambda>us. derives_path (pre' @ us)) st' (path_loop n E path' st')"
    if "derives_path pre' path'" "length (toks st') < length (toks st)" for pre' path' st'
    using Suc.IH[OF that(1)] that(2) Suc.prems(2) by simp
  consider (dot) t ts where "toks st = t # ts" "ttype t = TDot"
    | (br) t ts where "toks st = t # ts" "ttype t = TLbracket"
    | (stop) "\<not> check TDot st" "\<not> check TLbracket st"
    by (auto simp: check_eq)
  then show ?case
  proof cases
    case dot
    have "meets m (Suc l) (\<lambda>us. derives_path (pre @ t # us)) st2
        (bindR (consume TIdentifier st2) (\<lambda>(pt, st3).
          if tvalue pt \<in> set FORBIDDEN_PROPS then Inl ForbiddenProperty
          else path_loop n E (path @ [Key (JStr (tvalue pt))]) st3))" if st2: "toks st2 = ts" for st2
    proof (rule meets_consume, simp only: prod.case)
      fix pt and st3 :: pst assume p: "toks st2 = pt # toks st3" "ttype pt = TIdentifier"
      show "meets m (Suc l) (\<lambda>us. derives_path (pre @ t # pt # us)) st3
          (if tvalue pt \<in> set FORBIDDEN_PROPS then Inl ForbiddenProperty
           else path_loop n E (path @ [Key (JStr (tvalue pt))]) st3)"
      proof (cases "tvalue pt \<in> set FORBIDDEN_PROPS")
        case False
        then have "derives_path (pre @ [t, pt]) (path @ [Key (JStr (tvalue pt))])"
          using Suc.prems(1) dot p by (intro derives_derives_args_derives_path.dot) auto
        from IH[OF this, of st3] p st2 dot(1) False show ?thesis by simp
      qed (simp add: meets_Inl)
    qed simp_all
    moreover have "check TDot st" using dot by (simp add: check_eq)
    ultimately show ?thesis
      by (simp, intro meets_count_take[OF dot(1)]) (simp add: opening_brackets dot(2))
  next
    case br
    have step: "meets m l (\<lambda>us. derives_path (pre @ t # used @ r # us)) st4 (path_loop n E (path @ [index_key e]) st4)"
      if "derives NOr used e" "ttype r = TRbracket" "length (toks st4) < length ts" for used e r st4
    proof -
      have "derives_path (pre @ t # used @ [r]) (path @ [index_key e])"
        using Suc.prems(1) br(2) that by (intro derives_derives_args_derives_path.index)
      from meets_antimono[OF IH[OF this, of st4], of l] that(3) br(1) show ?thesis by simp
    qed
    have "meets m l (\<lambda>us. derives_path (pre @ t # us)) st2
        (bindR (E st2) (\<lambda>(e, st3). bindR (consume TRbracket st3) (\<lambda>(_, st4).
          path_loop n E (path @ [index_key e]) st4)))" if st2: "toks st2 = ts" for st2
    proof (rule sub_parser.bind[OF E], simp only: prod.case)
      fix e used and st3 :: pst assume u: "toks st2 = used @ toks st3" "derives NOr used e"
      show "meets m l (\<lambda>us. derives_path (pre @ t # used @ us)) st3
         (bindR (consume TRbracket st3) (\<lambda>(_, st4). path_loop n E (path @ [index_key e]) st4))"
        by (rule meets_consume) (use u st2 in \<open>auto intro!: step\<close>)
    qed
    moreover have "check TLbracket st" "\<not> check TDot st" using br by (simp_all add: check_eq)
    ultimately show ?thesis
      by (simp, intro meets_count_take[OF br(1)]) (simp add: opening_brackets br(2))
  next
    case stop
    with Suc.prems show ?thesis by (auto intro: meets_InrI[where used = "[]"])
  qed
qed simp

lemma literal_meets:
  "toks st = tk # rest \<Longrightarrow> derives NPrimary [tk] a \<Longrightarrow>
     meets m l (derives NPrimary) st (Inr (a, st\<lparr>toks := rest\<rparr>))"
  by (rule meets_InrI[where used = "[tk]"]) auto

lemma meets_drop_first:
  "toks st = tk # rest \<Longrightarrow>
     meets m (if is_opening tk then l - 1 else l) (\<lambda>us. G (tk # us)) (st\<lparr>toks := rest\<rparr>) r \<Longrightarrow> meets m l G st r"
  by (auto simp: meets_def split: sum.splits if_splits)

lemma primary_body_meets:
  assumes E: "sub_parser E (derives NOr) m l"
  shows "meets m (Suc l) (derives NPrimary) st (primary_body E st)"
proof (cases "toks st")
  case Nil
  then show ?thesis by (simp add: primary_body_def meets_Inl)
next
  case (Cons tk rest)
  let ?s = "st\<lparr>toks := rest\<rparr>"
  note D = derives_derives_args_derives_path.intros
  consider (lit) "ttype tk \<in> {TNumber, TString, TBoolean, TNull}"
    | (paren) "ttype tk = TLparen" | (ident) "ttype tk = TIdentifier"
    | (other) "ttype tk \<notin> {TNumber, TString, TBoolean, TNull, TLparen, TIdentifier}" by blast
  then show ?thesis
  proof cases
    case lit
    then show ?thesis
      by (auto simp: primary_body_def Cons Let_def intro!: literal_meets[OF Cons] D(15,16,18) D(17)[simplified])
  next
    case paren
    have "meets m l (\<lambda>us. derives NPrimary (tk # us)) ?s
        (bindR (E ?s) (\<lambda>(e, st2). bindR (consume TRparen st2) (\<lambda>(_, st3). Inr (e, st3))))"
    proof (rule sub_parser.bind[OF E], simp only: prod.case)
      fix a used and st2 :: pst assume "derives NOr used a"
      then show "meets m l (\<lambda>us. derives NPrimary (tk # used @ us)) st2
          (bindR (consume TRparen st2) (\<lambda>(_, st3). Inr (a, st3)))"
        by (intro meets_consume) (auto intro!: meets_InrI[where used = "[]"] D(19) simp: paren)
    qed
    then show ?thesis
      using paren by (intro meets_drop_first[OF Cons])
        (simp add: primary_body_def Cons Let_def opening_brackets)
  next
    case ident
    have path: "meets m (Suc l) (\<lambda>us. derives NPrimary (tk # us)) ?s
        (bindR (path_loop (Suc (length rest)) E [Key (JStr (tvalue tk))] ?s)
          (\<lambda>(path, st2). Inr (Property path, st2)))"
      by (rule meets_bind[OF path_loop_meets[OF E D(25)[OF ident]]])
        (auto intro!: meets_InrI[where used = "[]"] D(22))
    show ?thesis
      using ident path parse_call_meets[OF E ident, of ?s]
      by (intro meets_drop_first[OF Cons])
        (simp add: primary_body_def Cons Let_def opening_brackets)
  next
    case other
    then show ?thesis
      by (cases "ttype tk") (auto simp: primary_body_def Cons Let_def intro: meets_Inl)
  qed
qed

lemma sub_parser_primary:
  assumes E: "sub_parser E (derives NOr) m 50"
  shows "sub_parser (parse_primary E) (derives NPrimary) (Suc m) 50"
proof
  fix st
  show "meets (Suc m) 50 (derives NPrimary) st (parse_primary E st)"
    using primary_body_meets[OF E, of "st\<lparr>depth := depth st + 1\<rparr>"]
    by (auto simp: parse_primary_def MAX_RECURSION_def meets_def bindR_eq_Inl split: sum.splits)
qed

lemma sub_parser_or_n: "sub_parser (parse_or_n n) (derives NOr) n 50"
proof (induction n)
  case 0
  then show ?case by unfold_locales (simp add: meets_def)
next
  case (Suc n)
  from sub_parser_or[OF sub_parser_primary[OF this]]
  show ?case by (simp add: sub_parser_def)
qed

interpretation expr: sub_parser "parse_or_n 51" "derives NOr" 51 50
  by (rule sub_parser_or_n)

lemma parse_sound: "parse ts = Inr a \<Longrightarrow> derives NOr ts a"
  using expr.sound[of "\<lparr>toks = ts, p_ops = 0, depth = 0\<rparr>"]
  by (auto simp: parse_def split: if_splits)

lemma parse_not_Diverged: "parse ts \<noteq> Inl Diverged"
  using expr.total[of "\<lparr>toks = ts, p_ops = 0, depth = 0\<rparr>"]
  by (auto simp: parse_def bindR_eq_Inl)

lemma parse_expression_cases:
  assumes "parse_expression s = r"
  obtains "500 < length s" "r = Inl ExpressionTooLong"
    | "length s \<le> 500" "r = Inl Unparseable"
    | ts where "length s \<le> 500" "tokenize s = Inr ts" "length ts \<le> 500" "parse ts = r"
  using assms
  by (cases "tokenize s") (auto simp: parse_expression_def MAX_EXPRESSION_LENGTH_def
      dest: tokenize_error length_tokenize split: if_splits)

lemma parse_expression_not_Diverged [fuel_intros]: "parse_expression s \<noteq> Inl Diverged"
  by (rule parse_expression_cases[OF refl, of s]) (auto simp: parse_not_Diverged)

section \<open>Properties\<close>


text \<open>
  C33: parsing always returns: no loop and no nesting of \<open>parseOr\<close> inside itself runs out of the
  fuel that the model gives it.
\<close>

theorem parse_expression_total: "parse_expression s \<noteq> Inl Diverged"
  by (rule parse_expression_not_Diverged)

text \<open>
  Within the length limit the parser's own operation counter never reaches its limit:
  parsing an expression with fewer than 50 opening brackets never throws
  \<open>operation_limit_exceeded\<close>.
\<close>

theorem parse_limit_is_nesting:
  assumes "tokenize s = Inr ts" and "openings ts < 50"
  shows "parse_expression s \<noteq> Inl OperationLimit"
proof
  assume "parse_expression s = Inl OperationLimit"
  then show False
  proof (rule parse_expression_cases)
    fix us assume "tokenize s = Inr us" "length us \<le> 500" "parse us = Inl OperationLimit"
    with assms show False
      using expr.limit[of "\<lparr>toks = ts, p_ops = 0, depth = 0\<rparr>"]
      by (auto simp: parse_def bindR_eq_Inl split: if_splits)
  qed simp_all
qed

lemmas tokenize_eval = tokenize.simps two_char_op_def one_char_op_def keyword_def ascii_lower_def
  lower_unit_def is_ident_start_def is_ident_char_def is_num_char_def char_class_defs push_token_def

theorem parse_limit_is_nesting_witness:
  "parse_expression (js ''(a[b])'') \<noteq> Inl OperationLimit"
  by (rule parse_limit_is_nesting[where ts = "[tok TLparen (js ''(''), tok TIdentifier (js ''a''),
      tok TLbracket (js ''[''), tok TIdentifier (js ''b''), tok TRbracket (js '']''), tok TRparen (js '')'')]"])
    (simp_all add: tokenize_eval is_opening_def)

lemmas parse_eval = parse_expression_def MAX_EXPRESSION_LENGTH_def parse_def parse_or_def parse_and_def
  parse_not_def parse_comparison_def parse_additive_def parse_multiplicative_def parse_unary_def
  parse_primary_def primary_body_def left_chain_def check_def check_any_def next_tok_def count_op_def
  consume_def MAX_OPERATIONS_def MAX_RECURSION_def is_mul_op_def is_add_op_def is_cmp_op_def
  mk_binary_def mk_logical_def parse_call_def index_key_def


end
