(* ===== verification/ExprEval.thy ===== *)
theory ExprEval
  imports ExprOps ExprGrammar
begin

text \<open>
  The evaluator of \<open>packages/engine/src/expression-evaluator.ts\<close>: \<open>resolveProperty\<close>, the built-in
  functions and \<open>evaluate\<close>.

  \<open>eval_step ev\<close> is the body of \<open>evaluate\<close> with \<open>ev\<close> for its calls to itself, and \<open>evaln\<close> closes
  it with a fuel of 10001, which is enough because each call counts an operation before it makes
  any other and the 10001st throws.  What the source takes from its runtime, the clock, the
  Unicode case tables and the date library luxon, is the record \<open>host\<close>.
\<close>

section \<open>The host and the context\<close>

text \<open>
  \<open>now_iso\<close> depends on the operation count, so two readings of the clock may differ.  A luxon call
  that throws is \<open>None\<close>, an invalid date is \<open>None\<close> of \<open>from_iso\<close> and \<open>set_zone\<close>.
\<close>

record 'dt host =
  now_iso :: "nat \<Rightarrow> jstr"
  to_lower :: "jstr \<Rightarrow> jstr"
  to_upper :: "jstr \<Rightarrow> jstr"
  from_iso :: "jsval \<Rightarrow> 'dt option"
  set_zone :: "'dt \<Rightarrow> jsval \<Rightarrow> 'dt option"
  to_format :: "'dt \<Rightarrow> jsval \<Rightarrow> jstr option"
  plus_iso :: "'dt \<Rightarrow> jstr \<Rightarrow> jsval \<Rightarrow> jsval option"
  diff_in :: "'dt \<Rightarrow> 'dt \<Rightarrow> jstr \<Rightarrow> jsnum"

text \<open>
  \<open>EvalContext\<close>; a missing field is \<open>Undefined\<close>.  The secrets are absent, an object, or a
  resolver function, which gets the name as written.
\<close>

datatype secrets = NoSecrets | SecretObj entries | SecretFun "jsval \<Rightarrow> jsval"

record ctx =
  inputs :: jsval
  steps_out :: jsval
  loop_frame :: jsval
  trigger :: jsval
  secrets :: secrets
  env :: jsval
  run_info :: jsval
  item :: jsval
  item_index :: jsval

text \<open>The state of an evaluation: the operation count, and the secret names looked up so far.\<close>

record est =
  e_ops :: nat
  asked :: "jsval list"

type_synonym evaluator = "ctx \<Rightarrow> ast \<Rightarrow> est \<Rightarrow> expr_error + jsval \<times> est"

definition tick :: "est \<Rightarrow> expr_error + est" where
  "tick st = (if e_ops st + 1 > MAX_OPERATIONS then Inl OperationLimit
              else Inr (st\<lparr>e_ops := e_ops st + 1\<rparr>))"

section \<open>Property paths\<close>

definition obj1 :: "string \<Rightarrow> jsval \<Rightarrow> string \<Rightarrow> jsval \<Rightarrow> jsval" where
  "obj1 a x b y = JObj [(js a, x), (js b, y)]"

text \<open>The root of a path; \<open>None\<close> is an early \<open>return null\<close>.\<close>

definition root_value :: "ctx \<Rightarrow> jstr \<Rightarrow> expr_error + jsval option" where
  "root_value c rt =
     (if rt = js ''inputs'' then Inr (Some (nullish (inputs c) (JObj [])))
      else if rt = js ''steps'' then Inr (Some (nullish (steps_out c) (JObj [])))
      else if rt = js ''loop'' then
        Inr (if loop_frame c = Null \<or> loop_frame c = Undefined then None else Some (loop_frame c))
      else if rt = js ''trigger'' then
        Inr (Some (nullish (trigger c) (obj1 ''type'' (JStr (js ''manual'')) ''payload'' Null)))
      else if rt = js ''secrets'' then Inr (Some Null)
      else if rt = js ''env'' then Inr (Some (nullish (env c) (JObj [(js ''FF_APP_URL'', Null)])))
      else if rt = js ''run'' then
        Inr (Some (nullish (run_info c) (obj1 ''id'' (JStr []) ''scheduled_at'' Null)))
      else if rt = js ''item'' then Inr (Some (item c))
      else if rt = js ''index'' then Inr (Some (item_index c))
      else if rt = js ''now'' then Inr None
      else Inl UnknownVariable)"

definition lookup_secret :: "ctx \<Rightarrow> path_key \<Rightarrow> est \<Rightarrow> expr_error + jsval \<times> est" where
  "lookup_secret c k st =
     (let name = (case k of Key v \<Rightarrow> v | Dyn _ \<Rightarrow> JObj []); st1 = st\<lparr>asked := asked st @ [name]\<rparr> in
      case secrets c of
        SecretFun f \<Rightarrow> Inr (f name, st1)
      | SecretObj kvs \<Rightarrow>
          bindR (coerce_str name) (\<lambda>n. Inr (nullish (get_member kvs n) Null, st1))
      | NoSecrets \<Rightarrow> Inr (Null, st1))"

definition env_url :: "ctx \<Rightarrow> jsval" where
  "env_url c = (case env c of JObj kvs \<Rightarrow> nullish (get_member kvs (js ''FF_APP_URL'')) Null | _ \<Rightarrow> Null)"

primrec walk_path :: "evaluator \<Rightarrow> ctx \<Rightarrow> path_key list \<Rightarrow> jsval \<Rightarrow> est \<Rightarrow> expr_error + jsval \<times> est" where
  "walk_path ev c [] current st = Inr (current, st)"
| "walk_path ev c (key # rest) current st =
     bindR (tick st) (\<lambda>st1.
     bindR (case key of Key v \<Rightarrow> Inr (v, st1) | Dyn e \<Rightarrow> ev c e st1) (\<lambda>(k, st2).
     bindR (get_property current k) (\<lambda>v. walk_path ev c rest v st2)))"

definition resolve_property ::
  "evaluator \<Rightarrow> ctx \<Rightarrow> path_key list \<Rightarrow> est \<Rightarrow> expr_error + jsval \<times> est" where
  "resolve_property ev c path st =
     (case path of
        [] \<Rightarrow> Inr (Null, st)
      | r # rest \<Rightarrow>
          let rt = (case r of Key (JStr s) \<Rightarrow> s | _ \<Rightarrow> []) in
          bindR (root_value c rt) (\<lambda>cur. case cur of
            None \<Rightarrow> Inr (Null, st)
          | Some current \<Rightarrow>
              if rt = js ''secrets'' \<and> rest \<noteq> [] then lookup_secret c (hd rest) st
              else if rt = js ''env'' \<and> rest \<noteq> [] then
                (if hd rest = Key (JStr (js ''FF_APP_URL'')) then Inr (env_url c, st)
                 else Inl UnknownEnvVariable)
              else walk_path ev c rest current st))"

section \<open>Built-in functions\<close>

text \<open>\<open>String(v ?? '')\<close>.\<close>

definition str_or_empty :: "jsval \<Rightarrow> expr_error + jstr" where
  "str_or_empty v = coerce_str (nullish v (JStr []))"

definition need :: "bool \<Rightarrow> expr_error + 'a \<Rightarrow> expr_error + 'a" where
  "need ok r = (if ok then r else Inl TypeMismatch)"

definition coerce_num :: "jsval \<Rightarrow> expr_error + jsnum" where
  "coerce_num v = (case to_num v of Some n \<Rightarrow> Inr n | None \<Rightarrow> Inl EngineTypeError)"

definition js_true :: "jsval \<Rightarrow> bool" where
  "js_true v = (case v of Undefined \<Rightarrow> False | Null \<Rightarrow> False | JBool b \<Rightarrow> b
     | JNum n \<Rightarrow> n \<noteq> NaN \<and> \<not> is_zero n | JStr s \<Rightarrow> s \<noteq> [] | _ \<Rightarrow> True)"

definition len_of :: "jsval \<Rightarrow> expr_error + jsval" where
  "len_of a = (case a of
     JStr s \<Rightarrow> Inr (JNum (Num (of_nat (length s))))
   | JArr vs \<Rightarrow> Inr (JNum (Num (of_nat (length vs))))
   | Null \<Rightarrow> Inr (JNum (Num 0))
   | _ \<Rightarrow> Inl TypeMismatch)"

definition contains_in :: "jsval \<Rightarrow> jsval \<Rightarrow> expr_error + bool" where
  "contains_in haystack needle = (case haystack of
     JStr s \<Rightarrow> bindR (coerce_str needle) (\<lambda>n. Inr (str_includes s n))
   | JArr vs \<Rightarrow> Inr (list_ex (\<lambda>v. is_equal v needle) vs)
   | JObj kvs \<Rightarrow> bindR (coerce_str needle) (\<lambda>n. Inr (has_member kvs n))
   | ObjectProto \<Rightarrow> bindR (coerce_str needle) (\<lambda>n. Inr (has_member [] n))
   | _ \<Rightarrow> Inr False)"

definition valid_units :: "jsval list" where
  "valid_units = map (JStr \<circ> js)
     [''second'', ''minute'', ''hour'', ''day'', ''week'', ''month'', ''year'']"

definition unit_name :: "jsval \<Rightarrow> jstr" where
  "unit_name v = (case v of JStr s \<Rightarrow> s | _ \<Rightarrow> [])"

definition of_option :: "expr_error \<Rightarrow> 'a option \<Rightarrow> expr_error + 'a" where
  "of_option e x = (case x of Some a \<Rightarrow> Inr a | None \<Rightarrow> Inl e)"

definition format_date :: "'dt host \<Rightarrow> jsval list \<Rightarrow> expr_error + jsval" where
  "format_date h args =
     need (2 \<le> length args \<and> length args \<le> 3)
       (bindR (of_option InvalidDateFormat (from_iso h (args ! 0))) (\<lambda>dt.
        let tz = (if length args = 3 then args ! 2 else Undefined) in
        bindR (if js_true tz then of_option InvalidTimezone (set_zone h dt tz) else Inr dt) (\<lambda>use_dt.
        bindR (of_option EngineTypeError (to_format h use_dt (args ! 1))) (\<lambda>s. Inr (JStr s)))))"

definition date_add :: "'dt host \<Rightarrow> jsval list \<Rightarrow> expr_error + jsval" where
  "date_add h args =
     need (length args = 3)
       (bindR (of_option InvalidDateFormat (from_iso h (args ! 0))) (\<lambda>dt.
        need (args ! 2 \<in> set valid_units)
          (of_option EngineTypeError (plus_iso h dt (unit_name (args ! 2)) (args ! 1)))))"

definition date_diff :: "'dt host \<Rightarrow> jsval list \<Rightarrow> expr_error + jsval" where
  "date_diff h args =
     need (length args = 3)
       (bindR (of_option InvalidDateFormat (from_iso h (args ! 0))) (\<lambda>a.
        bindR (of_option InvalidDateFormat (from_iso h (args ! 1))) (\<lambda>b.
        need (args ! 2 \<in> set valid_units)
          (Inr (JNum (math_trunc (diff_in h b a (unit_name (args ! 2)))))))))"

text \<open>The list and the parsed inner expression of \<open>filter\<close> and \<open>map\<close>; \<open>None\<close>: the list is null.\<close>

definition list_args :: "jsval list \<Rightarrow> expr_error + (jsval list \<times> ast) option" where
  "list_args args =
     need (length args = 2)
       (case args ! 0 of
          JArr vs \<Rightarrow> (case args ! 1 of
             JStr e \<Rightarrow> bindR (parse_expression e) (\<lambda>a. Inr (Some (vs, a)))
           | _ \<Rightarrow> Inl TypeMismatch)
        | Null \<Rightarrow> Inr None
        | _ \<Rightarrow> Inl TypeMismatch)"

definition inner_ctx :: "ctx \<Rightarrow> nat \<Rightarrow> jsval \<Rightarrow> ctx" where
  "inner_ctx c i v = c\<lparr>loop_frame := Null, item := v, item_index := JNum (Num (of_nat i))\<rparr>"

definition map_list :: "evaluator \<Rightarrow> ctx \<Rightarrow> jsval list \<Rightarrow> est \<Rightarrow> expr_error + jsval \<times> est" where
  "map_list ev c args st =
     bindR (list_args args) (\<lambda>la. case la of
       None \<Rightarrow> Inr (JArr [], st)
     | Some (vs, a) \<Rightarrow>
         bindR (mapS (\<lambda>(i, v). ev (inner_ctx c i v) a) (List.enumerate 0 vs) st)
           (\<lambda>(rs, st1). Inr (JArr rs, st1)))"

definition filter_list :: "evaluator \<Rightarrow> ctx \<Rightarrow> jsval list \<Rightarrow> est \<Rightarrow> expr_error + jsval \<times> est" where
  "filter_list ev c args st =
     bindR (list_args args) (\<lambda>la. case la of
       None \<Rightarrow> Inr (JArr [], st)
     | Some (vs, a) \<Rightarrow>
         bindR (mapS (\<lambda>(i, v). ev (inner_ctx c i v) a) (List.enumerate 0 vs) st)
           (\<lambda>(rs, st1). Inr (JArr (map fst (filter (\<lambda>(v, r). is_truthy r) (zip vs rs))), st1)))"

text \<open>The functions that neither evaluate an expression nor read the clock.\<close>

definition pure_function :: "'dt host \<Rightarrow> jstr \<Rightarrow> jsval list \<Rightarrow> expr_error + jsval" where
  "pure_function h name args =
     (let n = length args; jstring = (\<lambda>r. bindR r (\<lambda>s. Inr (JStr s)));
          jbool = (\<lambda>r. bindR r (\<lambda>b. Inr (JBool b))) in
      if name = js ''len'' then need (n = 1) (len_of (args ! 0))
      else if name = js ''lower'' then
        need (n = 1) (jstring (bindR (str_or_empty (args ! 0)) (\<lambda>s. Inr (to_lower h s))))
      else if name = js ''upper'' then
        need (n = 1) (jstring (bindR (str_or_empty (args ! 0)) (\<lambda>s. Inr (to_upper h s))))
      else if name = js ''trim'' then
        need (n = 1) (jstring (bindR (str_or_empty (args ! 0)) (\<lambda>s. Inr (trim s))))
      else if name = js ''join'' then
        need (n = 2) (case args ! 0 of
          JArr vs \<Rightarrow> jstring (bindR (mapR coerce_str vs) (\<lambda>ss.
                       bindR (coerce_str (args ! 1)) (\<lambda>sep. Inr (join ss sep))))
        | _ \<Rightarrow> Inl TypeMismatch)
      else if name = js ''split'' then
        need (n = 2) (bindR (str_or_empty (args ! 0)) (\<lambda>s.
          bindR (coerce_str (args ! 1)) (\<lambda>sep. Inr (JArr (map JStr (str_split s sep))))))
      else if name = js ''contains'' then need (n = 2) (jbool (contains_in (args ! 0) (args ! 1)))
      else if name = js ''starts_with'' then
        need (n = 2) (jbool (bindR (str_or_empty (args ! 0)) (\<lambda>s.
          bindR (coerce_str (args ! 1)) (\<lambda>p. Inr (starts_with s p)))))
      else if name = js ''ends_with'' then
        need (n = 2) (jbool (bindR (str_or_empty (args ! 0)) (\<lambda>s.
          bindR (coerce_str (args ! 1)) (\<lambda>p. Inr (ends_with s p)))))
      else if name = js ''default'' then need (n = 2) (Inr (nullish (args ! 0) (args ! 1)))
      else if name = js ''coalesce'' then
        need (2 \<le> n) (Inr (case filter (\<lambda>a. a \<noteq> Null \<and> a \<noteq> Undefined) args of a # _ \<Rightarrow> a | [] \<Rightarrow> Null))
      else if name = js ''round'' then
        need (n = 1) (bindR (coerce_num (args ! 0)) (\<lambda>x. Inr (JNum (math_round x))))
      else if name = js ''abs'' then
        need (n = 1) (bindR (coerce_num (args ! 0)) (\<lambda>x. Inr (JNum (math_abs x))))
      else if name = js ''format_date'' then format_date h args
      else if name = js ''date_add'' then date_add h args
      else if name = js ''date_diff'' then date_diff h args
      else Inl UnknownVariable)"

definition call_function ::
  "'dt host \<Rightarrow> evaluator \<Rightarrow> ctx \<Rightarrow> jstr \<Rightarrow> jsval list \<Rightarrow> est \<Rightarrow> expr_error + jsval \<times> est" where
  "call_function h ev c name args st =
     (if name = js ''now'' then need (args = []) (Inr (JStr (now_iso h (e_ops st)), st))
      else if name = js ''filter'' then filter_list ev c args st
      else if name = js ''map'' then map_list ev c args st
      else bindR (pure_function h name args) (\<lambda>v. Inr (v, st)))"

section \<open>evaluate\<close>

definition binary_op :: "binop \<Rightarrow> jsval \<Rightarrow> jsval \<Rightarrow> expr_error + jsval" where
  "binary_op op l r =
     (if op = OpEq then Inr (JBool (is_equal l r))
      else if op = OpNeq then Inr (JBool (\<not> is_equal l r))
      else if op \<in> {OpLt, OpLte, OpGt, OpGte} then
        bindR (compare_values op l r) (\<lambda>b. Inr (JBool b))
      else arith_op op l r)"

definition eval_node :: "'dt host \<Rightarrow> evaluator \<Rightarrow> evaluator" where
  "eval_node h ev c node st =
     (case node of
       Literal v \<Rightarrow> Inr (v, st)
     | Property path \<Rightarrow> resolve_property ev c path st
     | Not a \<Rightarrow> bindR (ev c a st) (\<lambda>(v, st1). Inr (JBool (\<not> is_truthy v), st1))
     | Logical op l r \<Rightarrow>
         bindR (ev c l st) (\<lambda>(v, st1).
           if op = LOr \<and> is_truthy v then Inr (JBool True, st1)
           else if op = LAnd \<and> \<not> is_truthy v then Inr (JBool False, st1)
           else bindR (ev c r st1) (\<lambda>(w, st2). Inr (JBool (is_truthy w), st2)))
     | Binary op l r \<Rightarrow>
         bindR (ev c l st) (\<lambda>(v, st1). bindR (ev c r st1) (\<lambda>(w, st2).
           bindR (binary_op op v w) (\<lambda>x. Inr (x, st2))))
     | Unary a \<Rightarrow>
         bindR (ev c a st) (\<lambda>(v, st1). bindR (to_number_strict v) (\<lambda>n. Inr (JNum (js_neg n), st1)))
     | Call name args \<Rightarrow>
         bindR (mapS (ev c) args st) (\<lambda>(vs, st1). call_function h ev c name vs st1))"

definition eval_step :: "'dt host \<Rightarrow> evaluator \<Rightarrow> evaluator" where
  "eval_step h ev c node st = bindR (tick st) (eval_node h ev c node)"

primrec evaln :: "'dt host \<Rightarrow> nat \<Rightarrow> evaluator" where
  "evaln h 0 c node st = Inl Diverged"
| "evaln h (Suc n) c node st = eval_step h (evaln h n) c node st"

definition evaluate :: "'dt host \<Rightarrow> evaluator" where
  "evaluate h = evaln h 10001"

definition evaluate_expression :: "'dt host \<Rightarrow> jstr \<Rightarrow> ctx \<Rightarrow> expr_error + jsval" where
  "evaluate_expression h expr c =
     bindR (parse_expression expr) (\<lambda>a.
     bindR (evaluate h c a \<lparr>e_ops = 0, asked = []\<rparr>) (\<lambda>(v, st). Inr v))"

section \<open>The contract of the evaluator\<close>

text \<open>
  An evaluation never lowers the operation count, never takes it past the limit, only appends to
  the log of secrets, and, with enough fuel for the operations that are left, does not diverge.
\<close>

definition est_le :: "est \<Rightarrow> est \<Rightarrow> bool" where
  "est_le s t \<longleftrightarrow> e_ops s \<le> e_ops t \<and> (e_ops s \<le> 10000 \<longrightarrow> e_ops t \<le> 10000) \<and> prefix (asked s) (asked t)"

lemma est_le_refl [simp]: "est_le s s"
  by (simp add: est_le_def)

lemma est_le_trans: "est_le s t \<Longrightarrow> est_le t u \<Longrightarrow> est_le s u"
  by (auto simp: est_le_def)

definition behaves :: "nat \<Rightarrow> est \<Rightarrow> expr_error + 'a \<times> est \<Rightarrow> bool" where
  "behaves n st r \<longleftrightarrow> (case r of
     Inr (v, st') \<Rightarrow> est_le st st'
   | Inl e \<Rightarrow> e = Diverged \<longrightarrow> \<not> (e_ops st \<le> 10000 \<and> 10001 \<le> e_ops st + n))"

lemma behaves_Inr [simp]: "behaves n st (Inr (v, st')) = est_le st st'"
  by (simp add: behaves_def)

lemma behaves_Inl: "e \<noteq> Diverged \<Longrightarrow> behaves n st (Inl e)"
  by (simp add: behaves_def)

lemma behaves_bind:
  assumes "behaves n st r" "\<And>v st'. r = Inr (v, st') \<Longrightarrow> est_le st st' \<Longrightarrow> behaves n st' (f (v, st'))"
  shows "behaves n st (bindR r f)"
proof (cases r)
  case (Inl e)
  with assms(1) show ?thesis by (simp add: behaves_def)
next
  case (Inr x)
  obtain v st' where x: "x = (v, st')" by (cases x)
  with assms Inr have "est_le st st'" "behaves n st' (f (v, st'))" by (auto simp: behaves_def)
  then show ?thesis
    by (auto simp: Inr x behaves_def est_le_def split: sum.splits)
qed

text \<open>A computation without state either gives a value or an error of its own.\<close>

lemma behaves_pure:
  "r \<noteq> Inl Diverged \<Longrightarrow> (\<And>v. behaves n st (f v)) \<Longrightarrow> behaves n st (bindR r f)"
  by (cases r) (auto simp: behaves_Inl)

lemma behaves_tick:
  assumes "\<And>st'. asked st' = asked st \<Longrightarrow> e_ops st' = e_ops st + 1 \<Longrightarrow> e_ops st' \<le> 10000 \<Longrightarrow> behaves n st' (f st')"
  shows "behaves (Suc n) st (bindR (tick st) f)"
proof (cases "e_ops st + 1 > MAX_OPERATIONS")
  case True
  then show ?thesis by (simp add: tick_def behaves_Inl)
next
  case False
  let ?s = "st\<lparr>e_ops := e_ops st + 1\<rparr>"
  have "behaves n ?s (f ?s)" using assms[of ?s] False by (simp add: MAX_OPERATIONS_def)
  with False show ?thesis
    by (auto simp: tick_def behaves_def est_le_def MAX_OPERATIONS_def split: sum.splits)
qed

lemma behaves_mono: "behaves (Suc n) st r \<Longrightarrow> behaves n st r"
  by (auto simp: behaves_def split: sum.splits)

locale evaluator_contract =
  fixes ev :: evaluator and n :: nat
  assumes ev_behaves: "behaves n st (ev c a st)"
begin

lemma mapS_behaves: "(\<And>x st. behaves n st (f x st)) \<Longrightarrow> behaves n st (mapS f xs st)"
proof (induction xs arbitrary: st)
  case (Cons x xs)
  show ?case by (simp, rule behaves_bind[OF Cons.prems], clarsimp, rule behaves_bind[OF Cons.IH[OF Cons.prems]]) auto
qed simp

lemma walk_behaves: "behaves n st (walk_path ev c path cur st)"
proof (induction path arbitrary: cur st)
  case (Cons k path)
  have np: "get_property x y \<noteq> Inl Diverged" for x y
    by (auto simp: get_property_def coerce_str_def Let_def bindR_eq_Inl
        split: if_splits jsval.splits option.splits)
  have "behaves n st1 (bindR (case k of Key v \<Rightarrow> Inr (v, st1) | Dyn e \<Rightarrow> ev c e st1) (\<lambda>(k, st2).
      bindR (get_property cur k) (\<lambda>v. walk_path ev c path v st2)))" for st1
    by (rule behaves_bind)
      (auto simp: ev_behaves split: path_key.split intro!: behaves_pure[OF np] Cons.IH)
  then show ?case by (simp add: behaves_mono[OF behaves_tick])
qed simp

lemma lookup_secret_behaves: "behaves n st (lookup_secret c k st)"
  by (auto simp: lookup_secret_def Let_def coerce_str_def est_le_def split: secrets.split option.split
      intro: behaves_Inl)

lemma resolve_behaves: "behaves n st (resolve_property ev c path st)"
proof -
  have "root_value c r \<noteq> Inl Diverged" for r
    by (simp add: root_value_def)
  then show ?thesis
    by (auto simp: resolve_property_def Let_def walk_behaves lookup_secret_behaves
        split: list.split option.split intro!: behaves_pure behaves_Inl)
qed

lemma list_args_not_Diverged: "list_args args \<noteq> Inl Diverged"
  by (auto simp: list_args_def need_def bindR_eq_Inl fuel_intros split: jsval.split)

lemma map_list_behaves: "behaves n st (map_list ev c args st)"
  unfolding map_list_def
  by (rule behaves_pure[OF list_args_not_Diverged])
    (auto split: option.split intro!: behaves_bind[OF mapS_behaves] ev_behaves)

lemma filter_list_behaves: "behaves n st (filter_list ev c args st)"
  unfolding filter_list_def
  by (rule behaves_pure[OF list_args_not_Diverged])
    (auto split: option.split intro!: behaves_bind[OF mapS_behaves] ev_behaves)

end

text \<open>\<open>returns r\<close>: a computation without state that does not diverge.\<close>

definition returns :: "expr_error + 'a \<Rightarrow> bool" where
  "returns r \<longleftrightarrow> r \<noteq> Inl Diverged"

lemma returns_Inr [fuel_intros]: "returns (Inr x)"
  by (simp add: returns_def)

lemma returns_Inl [fuel_intros]: "e \<noteq> Diverged \<Longrightarrow> returns (Inl e)"
  by (simp add: returns_def)

lemma returns_bind [fuel_intros]: "returns r \<Longrightarrow> (\<And>x. returns (f x)) \<Longrightarrow> returns (bindR r f)"
  by (auto simp: returns_def bindR_eq_Inl)

lemma returns_if [fuel_intros]: "returns x \<Longrightarrow> returns y \<Longrightarrow> returns (if b then x else y)"
  by simp

lemma returns_need [fuel_intros]: "returns x \<Longrightarrow> returns (need b x)"
  by (simp add: need_def returns_def)

lemma returns_of_option [fuel_intros]: "e \<noteq> Diverged \<Longrightarrow> returns (of_option e x)"
  by (simp add: of_option_def returns_def split: option.split)

lemma returns_coerce [fuel_intros]:
  "returns (coerce_str v)" "returns (str_or_empty v)" "returns (coerce_num v)" "returns (to_number_strict v)"
  by (simp_all add: coerce_str_def str_or_empty_def coerce_num_def to_number_strict_def returns_def
      split: option.split)

lemma returns_mapR [fuel_intros]: "(\<And>x. returns (f x)) \<Longrightarrow> returns (mapR f xs)"
  by (induction xs) (auto simp: returns_def bindR_eq_Inl)

lemma returns_len_of [fuel_intros]: "returns (len_of v)"
  by (simp add: len_of_def returns_def split: jsval.split)

lemma returns_contains_in [fuel_intros]: "returns (contains_in v w)"
  by (auto simp: contains_in_def split: jsval.split intro!: fuel_intros)

lemma returns_dates [fuel_intros]:
  "returns (format_date h args)" "returns (date_add h args)" "returns (date_diff h args)"
  unfolding format_date_def date_add_def date_diff_def Let_def by (intro fuel_intros; simp)+

lemma returns_case_array [fuel_intros]:
  "(\<And>vs. returns (f vs)) \<Longrightarrow> returns (case v of JArr vs \<Rightarrow> f vs | _ \<Rightarrow> Inl TypeMismatch)"
  by (simp add: returns_def split: jsval.split)

lemma returns_pure_function [fuel_intros]: "returns (pure_function h name args)"
  unfolding pure_function_def Let_def by (intro fuel_intros; simp)

lemma returns_compare [fuel_intros]: "returns (compare_values op v w)"
  by (cases v; cases w; simp add: compare_values_def to_number_def returns_def Let_def)

lemma returns_arith [fuel_intros]: "returns (arith_op op v w)"
proof -
  have "returns (bindR (to_number_strict v) (\<lambda>x. bindR (to_number_strict w) (\<lambda>y.
          case op of
            OpAdd \<Rightarrow> Inr (JNum (js_add x y))
          | OpSub \<Rightarrow> Inr (JNum (js_sub x y))
          | OpMul \<Rightarrow> Inr (JNum (js_mul x y))
          | OpDiv \<Rightarrow> if is_zero y then Inl TypeMismatch else Inr (JNum (js_div x y))
          | OpMod \<Rightarrow> if is_zero y then Inl TypeMismatch else Inr (JNum (js_rem x y))
          | _ \<Rightarrow> Inl TypeMismatch)))"
    by (intro fuel_intros; cases op; simp add: fuel_intros)
  then show ?thesis
    by (auto simp: arith_op_def Let_def returns_def split: jsval.split)
qed

lemma returns_binary [fuel_intros]: "returns (binary_op op v w)"
  unfolding binary_op_def by (intro fuel_intros)

lemma behaves_returns: "returns r \<Longrightarrow> (\<And>v. behaves n st (f v)) \<Longrightarrow> behaves n st (bindR r f)"
  by (simp add: behaves_pure returns_def)

context evaluator_contract
begin

lemma call_behaves: "behaves n st (call_function h ev c name args st)"
  by (auto simp: call_function_def need_def map_list_behaves filter_list_behaves
      intro!: behaves_Inl behaves_returns fuel_intros)

lemma node_behaves: "behaves n s (eval_node h ev c node s)"
proof (cases node)
  case (Binary op l r)
  then show ?thesis
    by (auto simp: eval_node_def intro!: behaves_bind[OF ev_behaves] behaves_returns fuel_intros)
next
  case (Unary a)
  then show ?thesis
    by (auto simp: eval_node_def intro!: behaves_bind[OF ev_behaves] behaves_returns fuel_intros)
next
  case (Call name args)
  have "behaves n s (mapS (ev c) args s)" by (rule mapS_behaves) (rule ev_behaves)
  with Call show ?thesis by (auto simp: eval_node_def intro!: behaves_bind call_behaves)
qed (auto simp: eval_node_def resolve_behaves intro!: behaves_bind[OF ev_behaves])

lemma step_behaves: "behaves (Suc n) st (eval_step h ev c node st)"
  unfolding eval_step_def by (rule behaves_tick) (rule node_behaves)

lemma step_counts:
  assumes "eval_step h ev c node st = Inr (v, st')"
  shows "e_ops st < e_ops st'"
proof -
  let ?s = "st\<lparr>e_ops := e_ops st + 1\<rparr>"
  from assms have "eval_node h ev c node ?s = Inr (v, st')"
    by (auto simp: eval_step_def tick_def split: if_splits)
  with node_behaves[of ?s h c node] show ?thesis by (simp add: est_le_def)
qed

end

lemma evaluator_contract_evaln: "evaluator_contract (evaln h n) n"
proof (induction n)
  case 0
  then show ?case by unfold_locales (simp add: behaves_def)
next
  case (Suc n)
  then show ?case by unfold_locales (simp add: evaluator_contract.step_behaves)
qed

interpretation eval: evaluator_contract "evaluate h" 10001 for h :: "'dt host"
  unfolding evaluate_def by (rule evaluator_contract_evaln)

lemma evaluate_unfold: "evaluate h c a st = eval_step h (evaln h 10000) c a st"
proof -
  have "(10001::nat) = Suc 10000" by simp
  then show ?thesis unfolding evaluate_def by (simp only: evaln.simps)
qed

section \<open>Static paths cannot reach the prototype chain\<close>

definition static_key :: "path_key \<Rightarrow> bool" where
  "static_key k = (case k of Key v \<Rightarrow> safe_key v \<or> (\<exists>s. v = JStr s) | Dyn e \<Rightarrow> False)"

definition tame_ctx :: "ctx \<Rightarrow> bool" where
  "tame_ctx c \<longleftrightarrow> list_all tame [inputs c, steps_out c, loop_frame c, trigger c, env c, run_info c,
     item c, item_index c]"

lemma tame_nullish: "tame v \<Longrightarrow> tame d \<Longrightarrow> tame (nullish v d)"
  by (simp add: nullish_def)

lemma tame_root: "tame_ctx c \<Longrightarrow> root_value c r = Inr (Some v) \<Longrightarrow> tame v"
  by (auto simp: root_value_def tame_ctx_def obj1_def tame_nullish split: if_splits)

lemma tame_env_url: "tame_ctx c \<Longrightarrow> tame (env_url c)"
  by (auto simp: tame_ctx_def env_url_def proto_name_def intro!: tame_nullish tame_get_member
      split: jsval.splits)

lemma tame_walk:
  "walk_path ev c path v st = Inr (w, st') \<Longrightarrow> list_all static_key path \<Longrightarrow> tame v \<Longrightarrow> tame w"
proof (induction path arbitrary: v st)
  case (Cons k path)
  from Cons.prems obtain key st1 u where key: "safe_key key \<or> (\<exists>s. key = JStr s)"
    and u: "get_property v key = Inr u" "walk_path ev c path u st1 = Inr (w, st')"
    by (auto simp: static_key_def split: path_key.splits)
  then show ?case using Cons tame_get_property[OF Cons.prems(3) key u(1)] by simp
qed simp

section \<open>Properties\<close>

text \<open>
  C32: evaluating an expression always returns a value or an error of the language; the recursion
  of \<open>evaluate\<close> cannot outrun the operation counter.
\<close>

theorem evaluate_expression_total: "evaluate_expression h e c \<noteq> Inl Diverged"
proof -
  have "evaluate h c a \<lparr>e_ops = 0, asked = []\<rparr> \<noteq> Inl Diverged" for a
    using eval.ev_behaves[of "\<lparr>e_ops = 0, asked = []\<rparr>" h c a] by (auto simp: behaves_def)
  then show ?thesis
    by (auto simp: evaluate_expression_def bindR_eq_Inl parse_expression_not_Diverged)
qed

text \<open>
  An evaluation that succeeds has counted at least one and at most 10,000 operations in all,
  and the secrets it has looked up are only added to.
\<close>

theorem evaluate_bounded:
  assumes "evaluate h c a st = Inr (v, st')" and "e_ops st \<le> 10000"
  shows "e_ops st < e_ops st' \<and> e_ops st' \<le> 10000 \<and> (\<exists>names. asked st' = asked st @ names)"
proof -
  from assms(1) have le: "est_le st st'"
    by (metis behaves_Inr eval.ev_behaves)
  have "e_ops st < e_ops st'"
    using evaluator_contract.step_counts[OF evaluator_contract_evaln] assms(1)
    unfolding evaluate_unfold by blast
  with le assms(2) show ?thesis by (auto simp: est_le_def prefix_def)
qed

definition sample_host :: "unit host" where
  "sample_host = \<lparr>now_iso = (\<lambda>_. []), to_lower = ascii_lower, to_upper = (\<lambda>s. s),
     from_iso = (\<lambda>_. None), set_zone = (\<lambda>_ _. None), to_format = (\<lambda>_ _. None),
     plus_iso = (\<lambda>_ _ _. None), diff_in = (\<lambda>_ _ _. NaN)\<rparr>"

definition sample_ctx :: ctx where
  "sample_ctx = \<lparr>inputs = JObj [(js ''n'', JNum (Num 3))], steps_out = Undefined, loop_frame = Undefined,
     trigger = Undefined, secrets = SecretObj [(js ''K'', JStr (js ''v''))], env = Undefined,
     run_info = Undefined, item = Undefined, item_index = Undefined\<rparr>"

lemmas eval_simps = evaluate_unfold eval_step_def eval_node_def tick_def MAX_OPERATIONS_def
  resolve_property_def root_value_def lookup_secret_def sample_ctx_def nullish_def
  get_property_def coerce_str_def get_member_def

theorem evaluate_bounded_witness:
  "0 < (1::nat) \<and> (1::nat) \<le> 10000 \<and> (\<exists>names. [JStr (js ''K'')] = [] @ names)"
proof -
  have "evaluate sample_host sample_ctx (Property [Key (JStr (js ''secrets'')), Key (JStr (js ''K''))])
      \<lparr>e_ops = 0, asked = []\<rparr> = Inr (JStr (js ''v''), \<lparr>e_ops = 1, asked = [JStr (js ''K'')]\<rparr>)"
    by (simp add: eval_simps)
  from evaluate_bounded[OF this] show ?thesis by simp
qed

text \<open>
  \<open>and\<close> and \<open>or\<close> give booleans, and do not evaluate their right operand when the left one
  decides: the result and the state are then those of the left operand alone.
\<close>

theorem logical_short_circuit:
  assumes "eval_step h ev c (Logical op a b) st = Inr (v, st')"
  shows "\<exists>x s t. tick st = Inr s \<and> ev c a s = Inr (x, t) \<and>
    (if is_truthy x = (op = LOr) then v = JBool (is_truthy x) \<and> st' = t
     else \<exists>y. ev c b t = Inr (y, st') \<and> v = JBool (is_truthy y))"
  using assms by (cases op) (auto simp: eval_step_def eval_node_def split: if_splits)

theorem logical_short_circuit_witness:
  "\<exists>x s t. tick \<lparr>e_ops = 0, asked = []\<rparr> = Inr s \<and>
    evaln sample_host 5 sample_ctx (Literal (JBool False)) s = Inr (x, t) \<and>
    (if is_truthy x = (LAnd = LOr) then JBool False = JBool (is_truthy x) \<and> \<lparr>e_ops = 2, asked = []\<rparr> = t
     else \<exists>y. evaln sample_host 5 sample_ctx (Call (js ''nope'') []) t = Inr (y, \<lparr>e_ops = 2, asked = []\<rparr>) \<and>
       JBool False = JBool (is_truthy y))"
  by (rule logical_short_circuit)
    (simp add: eval_step_def eval_node_def tick_def MAX_OPERATIONS_def numeral_eq_Suc is_truthy_def)



text \<open>
  A computed index does reach it: the forbidden names are compared with string keys only, and
  a one-element array is a key with the same text, so \<open>inputs[split('constructor', '|')]\<close> is the
  \<open>Object\<close> constructor.
\<close>

definition escape_expr :: ast where
  "escape_expr = Property [Key (JStr (js ''inputs'')),
     Dyn (Call (js ''split'') [Literal (JStr (js ''constructor'')), Literal (JStr (js ''|''))])]"

theorem computed_index_escapes:
  "\<exists>st. evaluate h sample_ctx escape_expr \<lparr>e_ops = 0, asked = []\<rparr> = Inr (Builtin (js ''Object''), st)"
proof -
  have e: "evaln h 10000 c a st = eval_step h (evaln h 9999) c a st"
    "evaln h 9999 c a st = eval_step h (evaln h 9998) c a st" for c a st
  proof -
    have "(10000::nat) = Suc 9999" "(9999::nat) = Suc 9998" by simp_all
    then show "evaln h 10000 c a st = eval_step h (evaln h 9999) c a st"
      "evaln h 9999 c a st = eval_step h (evaln h 9998) c a st"
      by (simp_all only: evaln.simps)
  qed
  show ?thesis
    by (simp add: eval_simps e escape_expr_def call_function_def pure_function_def need_def
        str_or_empty_def str_split_def starts_with_def FORBIDDEN_PROPS_def proto_name_def inherited_def
        inherited_names_def)
qed

end
