(* ===== verification/Interp.thy ===== *)
theory Interp
  imports ExprEval
begin

text \<open>
  Interpolation, from \<open>packages/engine/src/expression-evaluator.ts\<close>: \<open>resolveInterpolation\<close>,
  \<open>stringifyValue\<close> and \<open>resolvePureInterpolation\<close>.  The expression evaluator is the argument
  \<open>ev\<close> (\<open>evaluate_expression\<close> on a fixed context).
\<close>

definition braces_open :: jstr where "braces_open = [123, 123]"
definition braces_close :: jstr where "braces_close = [125, 125]"

text \<open>
  \<open>stringifyValue\<close>.  For a function \<open>JSON.stringify\<close> gives \<open>undefined\<close>, which the concatenation
  turns into text.
\<close>

definition stringify_value :: "jsval \<Rightarrow> jstr" where
  "stringify_value v = (case v of
     Null \<Rightarrow> [] | Undefined \<Rightarrow> []
   | JBool b \<Rightarrow> if b then js ''true'' else js ''false''
   | JNum n \<Rightarrow> num_to_jstr n
   | JStr s \<Rightarrow> s
   | Builtin _ \<Rightarrow> js ''undefined''
   | _ \<Rightarrow> json_text v)"

text \<open>The text up to the first \<open>}}\<close>, and what follows it; \<open>None\<close> if there is none.\<close>

fun until_close :: "jstr \<Rightarrow> (jstr \<times> jstr) option" where
  "until_close [] = None"
| "until_close (c # cs) =
     (if starts_with (c # cs) braces_close then Some ([], drop 1 cs)
      else map_option (\<lambda>(e, r). (c # e, r)) (until_close cs))"

lemma until_close_shorter: "until_close s = Some (e, r) \<Longrightarrow> length r < length s"
  by (induction s arbitrary: e r) (auto split: if_splits intro: less_SucI)

function resolve_interpolation :: "(jstr \<Rightarrow> expr_error + jsval) \<Rightarrow> jstr \<Rightarrow> expr_error + jstr" where
  "resolve_interpolation ev [] = Inr []"
| "resolve_interpolation ev (c # cs) =
     (if c = 92 \<and> starts_with cs braces_open then
        bindR (resolve_interpolation ev (drop 2 cs)) (\<lambda>r. Inr (braces_open @ r))
      else if starts_with (c # cs) braces_open then
        (case until_close (dropWhile is_space (drop 1 cs)) of
           None \<Rightarrow> Inl Unparseable
         | Some (e, rest) \<Rightarrow>
             bindR (ev (trim e)) (\<lambda>v.
             bindR (resolve_interpolation ev rest) (\<lambda>r. Inr (stringify_value v @ r))))
      else bindR (resolve_interpolation ev cs) (\<lambda>r. Inr (c # r)))"
  by pat_completeness auto
termination
proof (relation "measure (\<lambda>(ev, s). length s)", goal_cases)
  case (3 ev c cs x e rest)
  then have "length rest < length (dropWhile is_space (drop 1 cs))"
    by (auto dest: until_close_shorter)
  also have "\<dots> \<le> length cs"
    using length_dropWhile_le[of is_space "drop 1 cs"] by simp
  finally show ?case by simp
qed auto

definition resolve_pure_interpolation :: "(jstr \<Rightarrow> expr_error + jsval) \<Rightarrow> jstr \<Rightarrow> expr_error + jsval" where
  "resolve_pure_interpolation ev str =
     (let t = trim str;
          inner = trim (take (length t - 2 - 2) (drop 2 t));
          whole = starts_with t braces_open \<and> ends_with t braces_close \<and>
            \<not> str_includes inner braces_open \<and> \<not> str_includes inner braces_close
      in if whole then ev inner
         else bindR (resolve_interpolation ev str) (\<lambda>s. Inr (JStr s)))"

declare resolve_interpolation.simps(2) [simp del]

lemma braces_append: "braces_open @ r = 123 # 123 # r" "braces_close @ r = 125 # 125 # r"
  by (simp_all add: braces_open_def braces_close_def)

section \<open>Literal text\<close>

text \<open>Writing a text as a template: a backslash goes before every \<open>{{\<close>.\<close>

function escape_text :: "jstr \<Rightarrow> jstr" where
  "escape_text [] = []"
| "escape_text (c # cs) =
     (if starts_with (c # cs) braces_open then 92 # 123 # 123 # escape_text (drop 1 cs)
      else c # escape_text cs)"
  by pat_completeness auto
termination by (relation "measure length") auto

lemma starts_open: "starts_with s braces_open \<longleftrightarrow> (\<exists>r. s = 123 # 123 # r)"
proof -
  have "starts_with s braces_open \<longleftrightarrow> prefix braces_open s" by (rule starts_with_prefix)
  then show ?thesis by (auto simp: braces_open_def prefix_def)
qed

lemma escape_hd: "escape_text s = d # r \<Longrightarrow> d = 92 \<or> (\<exists>s'. s = d # s')"
  by (cases s) (auto split: if_splits)

lemma escape_single: "escape_text s = [d] \<Longrightarrow> s = [d]"
  by (cases s; cases "tl s") (auto split: if_splits)

lemma escape_no_open: "escape_text s \<noteq> 123 # 123 # r"
proof
  assume e: "escape_text s = 123 # 123 # r"
  then obtain s' where s: "s = 123 # s'" by (cases s) (auto split: if_splits)
  with e have e': "escape_text s' = 123 # r" and no: "\<not> starts_with (123 # s') braces_open"
    by (auto split: if_splits)
  from escape_hd[OF e'] obtain s'' where "s' = 123 # s''" by auto
  with no show False by (simp add: starts_open)
qed

lemma resolve_escape_append:
  "s = [] \<or> last s \<notin> {92, 123} \<or> t = [] \<Longrightarrow>
   resolve_interpolation ev (escape_text s @ t) = bindR (resolve_interpolation ev t) (\<lambda>r. Inr (s @ r))"
proof (induction s rule: escape_text.induct)
  case 1
  show ?case by (cases "resolve_interpolation ev t") auto
next
  case (2 c cs)
  show ?case
  proof (cases "starts_with (c # cs) braces_open")
    case True
    then obtain r where r: "c = 123" "cs = 123 # r" by (auto simp: starts_open)
    have "r = [] \<or> last r \<notin> {92, 123} \<or> t = []" using "2.prems" r by auto
    from "2.IH"(1)[OF True] this r True show ?thesis
      by (simp add: resolve_interpolation.simps(2)[of _ 92] starts_open braces_append bindR_assoc)
  next
    case no: False
    have IH: "resolve_interpolation ev (escape_text cs @ t) = bindR (resolve_interpolation ev t) (\<lambda>r. Inr (cs @ r))"
      using "2.IH"(2)[OF no] "2.prems" by (cases cs) auto
    have no_open: "escape_text cs @ t \<noteq> 123 # 123 # r" if c: "c = 92" for r
    proof
      assume eq: "escape_text cs @ t = 123 # 123 # r"
      show False
      proof (cases "escape_text cs")
        case Nil
        then have "cs = []" by (cases cs) (auto split: if_splits)
        with eq "2.prems" c show False by simp
      next
        case (Cons d e)
        with eq have d: "d = 123" by simp
        show False
        proof (cases e)
          case Nil
          with Cons d have "cs = [123]" using escape_single by blast
          with eq "2.prems" show False by (auto simp: starts_open split: if_splits)
        next
          case (Cons d' e')
          with \<open>escape_text cs = d # e\<close> eq d escape_no_open[of cs e'] show False by simp
        qed
      qed
    qed
    have no_start: "escape_text cs @ t \<noteq> 123 # r" if c: "c = 123" for r
    proof
      assume eq: "escape_text cs @ t = 123 # r"
      show False
      proof (cases "escape_text cs")
        case Nil
        then have "cs = []" by (cases cs) (auto split: if_splits)
        with eq "2.prems" c show False by simp
      next
        case (Cons d e)
        with eq escape_hd[OF Cons] no c show False by (auto simp: starts_open)
      qed
    qed
    have "resolve_interpolation ev (c # escape_text cs @ t) =
        bindR (resolve_interpolation ev (escape_text cs @ t)) (\<lambda>r. Inr (c # r))"
      using no_open no_start by (auto simp: resolve_interpolation.simps(2) starts_open)
    then show ?thesis using no by (simp add: IH bindR_assoc)
  qed
qed

section \<open>Expression blocks\<close>

definition no_close :: "jstr \<Rightarrow> bool" where
  "no_close e \<longleftrightarrow> \<not> str_includes (e @ [125]) braces_close"

lemma starts_close: "starts_with s braces_close \<longleftrightarrow> (\<exists>r. s = 125 # 125 # r)"
proof -
  have "starts_with s braces_close \<longleftrightarrow> prefix braces_close s" by (rule starts_with_prefix)
  then show ?thesis by (auto simp: braces_close_def prefix_def)
qed

lemma until_close_append: "no_close e \<Longrightarrow> until_close (e @ 125 # 125 # r) = Some (e, r)"
proof (induction e)
  case (Cons c e)
  then have "no_close e" and c: "\<not> starts_with (c # e @ [125]) braces_close"
    by (auto simp: no_close_def)
  moreover have "\<not> starts_with (c # e @ 125 # 125 # r) braces_close"
    using c by (cases e) (auto simp: starts_close)
  ultimately show ?case using Cons.IH by simp
qed (simp add: starts_close)

lemma no_close_dropWhile: "no_close e \<Longrightarrow> no_close (dropWhile p e)"
  by (induction e) (auto simp: no_close_def)

lemma dropWhile_space_append: "dropWhile is_space (e @ 125 # r) = dropWhile is_space e @ 125 # r"
  by (induction e) (auto simp: is_space_def)

lemma trim_dropWhile: "trim (dropWhile is_space e) = trim e"
  by (induction e) (simp_all add: trim_def)

lemma resolve_block:
  assumes "no_close e"
  shows "resolve_interpolation ev (123 # 123 # e @ 125 # 125 # t) =
    bindR (ev (trim e)) (\<lambda>v. bindR (resolve_interpolation ev t) (\<lambda>r. Inr (stringify_value v @ r)))"
  using until_close_append[OF no_close_dropWhile[OF assms], of is_space t]
  by (simp add: resolve_interpolation.simps(2)[of _ 123] starts_open dropWhile_space_append trim_dropWhile)

section \<open>Properties\<close>

text \<open>
  Any text can be written literally: with a backslash before each \<open>{{\<close> it comes out of
  \<open>resolveInterpolation\<close> as it is, and nothing is evaluated.
\<close>

theorem interpolation_literal: "resolve_interpolation ev (escape_text s) = Inr s"
  using resolve_escape_append[of s "[]" ev] by simp

text \<open>
  A template of a literal text, a block and a rest resolves to the text, the printed value of
  the block's trimmed expression and the resolved rest; the first error, from the left, is the
  result.
\<close>

theorem interpolation_block:
  assumes "s = [] \<or> last s \<notin> {92, 123}" and "no_close e"
  shows "resolve_interpolation ev (escape_text s @ braces_open @ e @ braces_close @ t) =
    bindR (ev (trim e)) (\<lambda>v. bindR (resolve_interpolation ev t) (\<lambda>r. Inr (s @ stringify_value v @ r)))"
  using assms(1) resolve_escape_append[of s "braces_open @ e @ braces_close @ t" ev]
    resolve_block[OF assms(2), of ev t]
  by (auto simp: bindR_assoc braces_append)

theorem interpolation_block_witness:
  "resolve_interpolation (\<lambda>e. Inr (JStr e)) (escape_text (js ''a '') @ braces_open @ js '' x '' @ braces_close @ js ''!'') =
    bindR (Inr (JStr (trim (js '' x '')))) (\<lambda>v. bindR (resolve_interpolation (\<lambda>e. Inr (JStr e)) (js ''!''))
      (\<lambda>r. Inr (js ''a '' @ stringify_value v @ r)))"
  by (rule interpolation_block) (simp_all add: no_close_def braces_close_def starts_with_def)

text \<open>
  C40: a field that is one block and nothing else keeps the expression's native value; it is not
  turned into text.
\<close>

theorem pure_interpolation_native:
  assumes "\<not> str_includes (trim e) braces_open" and "\<not> str_includes (trim e) braces_close"
  shows "resolve_pure_interpolation ev (braces_open @ e @ braces_close) = ev (trim e)"
proof -
  have t: "trim (braces_open @ e @ braces_close) = braces_open @ e @ braces_close"
    by (simp add: trim_def braces_open_def braces_close_def is_space_def)
  have "ends_with (braces_open @ e @ braces_close) braces_close"
    by (simp add: ends_with_suffix suffix_def)
  moreover have "starts_with (braces_open @ e @ braces_close) braces_open"
    by (simp add: starts_with_prefix)
  moreover have "take (length (braces_open @ e @ braces_close) - 2 - 2) (drop 2 (braces_open @ e @ braces_close)) = e"
    by (simp add: braces_open_def braces_close_def)
  ultimately show ?thesis using assms by (simp add: resolve_pure_interpolation_def t Let_def)
qed

theorem pure_interpolation_native_witness:
  "resolve_pure_interpolation (\<lambda>e. Inr (JNum (Num 1))) (braces_open @ js '' x '' @ braces_close) = Inr (JNum (Num 1))"
  by (rule pure_interpolation_native)
    (simp_all add: trim_def is_space_def starts_with_def braces_open_def braces_close_def)

end
