(* ===== verification/Rbac.thy ===== *)
theory Rbac
  imports Prelude
begin

text \<open>
  Roles and permissions, \<open>packages/shared/src/rbac.ts\<close>.  The roles are ordered by rank, which is
  what the monotonicity of the permission matrix is stated over.
\<close>

datatype role = Owner | Admin | Member | Viewer

datatype permission =
    VIEW_WORKSPACE | VIEW_WORKFLOWS | CREATE_EDIT_WORKFLOWS | DELETE_WORKFLOWS | RUN_WORKFLOWS
  | APPROVE_REJECT | VIEW_RUNS | CANCEL_RUNS | MANAGE_MEMBERS | INVITE_MEMBERS | REMOVE_MEMBERS
  | CHANGE_MEMBER_ROLES | MANAGE_CREDENTIALS | MANAGE_ALLOWLIST | MANAGE_WEBHOOK_SECRETS
  | MANAGE_OIDC | MANAGE_OWN_TOKENS | MANAGE_OTHERS_TOKENS | VIEW_AUDIT_LOG
  | MANAGE_SUBSCRIPTION | DELETE_WORKSPACE

definition PERMISSIONS :: "permission list" where
  "PERMISSIONS =
     [VIEW_WORKSPACE, VIEW_WORKFLOWS, CREATE_EDIT_WORKFLOWS, DELETE_WORKFLOWS, RUN_WORKFLOWS,
      APPROVE_REJECT, VIEW_RUNS, CANCEL_RUNS, MANAGE_MEMBERS, INVITE_MEMBERS, REMOVE_MEMBERS,
      CHANGE_MEMBER_ROLES, MANAGE_CREDENTIALS, MANAGE_ALLOWLIST, MANAGE_WEBHOOK_SECRETS,
      MANAGE_OIDC, MANAGE_OWN_TOKENS, MANAGE_OTHERS_TOKENS, VIEW_AUDIT_LOG,
      MANAGE_SUBSCRIPTION, DELETE_WORKSPACE]"

fun role_permissions :: "role \<Rightarrow> permission list" where
  "role_permissions Owner = PERMISSIONS"
| "role_permissions Admin =
     [VIEW_WORKSPACE, VIEW_WORKFLOWS, CREATE_EDIT_WORKFLOWS, DELETE_WORKFLOWS, RUN_WORKFLOWS,
      APPROVE_REJECT, VIEW_RUNS, CANCEL_RUNS, MANAGE_MEMBERS, INVITE_MEMBERS, REMOVE_MEMBERS,
      MANAGE_CREDENTIALS, MANAGE_ALLOWLIST, MANAGE_WEBHOOK_SECRETS, MANAGE_OWN_TOKENS,
      MANAGE_OTHERS_TOKENS, VIEW_AUDIT_LOG]"
| "role_permissions Member =
     [VIEW_WORKSPACE, VIEW_WORKFLOWS, RUN_WORKFLOWS, APPROVE_REJECT, VIEW_RUNS, MANAGE_OWN_TOKENS]"
| "role_permissions Viewer = [VIEW_WORKSPACE, VIEW_WORKFLOWS, VIEW_RUNS]"

definition has_permission :: "role \<Rightarrow> permission \<Rightarrow> bool" where
  "has_permission r p \<longleftrightarrow> p \<in> set (role_permissions r)"

section \<open>The order of the roles\<close>

fun role_rank :: "role \<Rightarrow> nat" where
  "role_rank Viewer = 0" | "role_rank Member = 1" | "role_rank Admin = 2" | "role_rank Owner = 3"

lemma role_rank_inject [simp]: "role_rank r = role_rank s \<longleftrightarrow> r = s"
  by (cases r; cases s) simp_all

instantiation role :: linorder
begin

definition less_eq_role :: "role \<Rightarrow> role \<Rightarrow> bool" where
  "less_eq_role r s \<longleftrightarrow> role_rank r \<le> role_rank s"

definition less_role :: "role \<Rightarrow> role \<Rightarrow> bool" where
  "less_role r s \<longleftrightarrow> role_rank r < role_rank s"

instance
  by standard (auto simp: less_eq_role_def less_role_def dest: antisym)

end

lemma has_permission_mono: "r \<le> s \<Longrightarrow> has_permission r p \<Longrightarrow> has_permission s p"
  by (cases r; cases s; cases p) (simp_all add: has_permission_def less_eq_role_def PERMISSIONS_def)

lemma owner_has_all [simp]: "has_permission Owner p"
  by (cases p) (simp_all add: has_permission_def PERMISSIONS_def)

lemma all_roles: "(\<forall>r. P r) \<longleftrightarrow> P Owner \<and> P Admin \<and> P Member \<and> P Viewer"
  by (metis role.exhaust)

text \<open>The permissions that only the owner holds.\<close>

lemma owner_only:
  "(\<forall>r. has_permission r p \<longrightarrow> r = Owner) \<longleftrightarrow>
     p \<in> {CHANGE_MEMBER_ROLES, MANAGE_OIDC, MANAGE_SUBSCRIPTION, DELETE_WORKSPACE}"
  by (cases p) (simp_all add: all_roles has_permission_def)

end
