(* ===== verification/Access.thy ===== *)
theory Access
  imports Rbac JsString
begin

text \<open>
  Identity and access: sessions (\<open>apps/server/src/auth/session.ts\<close>), the request guards
  (\<open>apps/server/src/middleware/auth.ts\<close>), members and invitations
  (\<open>apps/server/src/routes/members.ts\<close>) and the account routes
  (\<open>apps/server/src/routes/auth.ts\<close>).

  A table is a list of rows; an id is a natural number, a time is in milliseconds, \<open>revoked_at\<close>
  and \<open>accepted_at\<close> are kept as whether they are set.  SHA-256, the keyed hash of a session
  token, and argon2 are the record \<open>crypto\<close>.  A rejected request is \<open>Inl\<close> of the reply's status
  and code.  A handler's statements run without interleaving.
\<close>

record crypto =
  sha256 :: "jstr \<Rightarrow> jstr"
  csrf_of :: "jstr \<Rightarrow> jstr"
  verify_password :: "jstr \<Rightarrow> jstr \<Rightarrow> bool"

record user_row =
  u_id :: nat
  u_email :: jstr
  u_hash :: jstr

record session_row =
  s_id :: nat
  s_user :: nat
  s_ws :: "nat option"
  s_hash :: jstr
  s_expires :: int
  s_revoked :: bool

record api_token_row =
  t_id :: nat
  t_ws :: nat
  t_user :: nat
  t_role :: role
  t_hash :: jstr
  t_revoked :: bool

record member_row =
  m_ws :: nat
  m_user :: nat
  m_role :: role

record invite_row =
  i_id :: nat
  i_ws :: nat
  i_role :: role
  i_hash :: jstr
  i_expires :: int
  i_accepted :: bool
  i_revoked :: bool

record attempt_row =
  a_count :: nat
  a_window :: int
  a_locked :: "int option"

record ws_row =
  w_id :: nat
  w_slug :: jstr
  w_deleted :: bool

record iddb =
  users :: "user_row list"
  workspaces :: "ws_row list"
  sessions :: "session_row list"
  api_tokens :: "api_token_row list"
  members :: "member_row list"
  invites :: "invite_row list"
  attempts :: "(jstr \<times> attempt_row) list"

type_synonym refusal = "nat \<times> string"

definition first_row :: "('a \<Rightarrow> bool) \<Rightarrow> 'a list \<Rightarrow> 'a option" where
  "first_row p xs = List.find p xs"

definition update_rows :: "('a \<Rightarrow> bool) \<Rightarrow> ('a \<Rightarrow> 'a) \<Rightarrow> 'a list \<Rightarrow> 'a list" where
  "update_rows p f = map (\<lambda>r. if p r then f r else r)"

lemma first_row_Some: "first_row p xs = Some x \<Longrightarrow> x \<in> set xs \<and> p x"
  unfolding first_row_def by (auto simp: find_Some_iff in_set_conv_nth)

lemma first_row_None: "first_row p xs = None \<longleftrightarrow> (\<forall>x \<in> set xs. \<not> p x)"
  unfolding first_row_def by (auto simp: find_None_iff)

lemma in_update_rows: "y \<in> set (update_rows p f xs) \<longleftrightarrow> (\<exists>x \<in> set xs. y = (if p x then f x else x))"
  by (auto simp: update_rows_def)

section \<open>Sessions\<close>

definition SESSION_DURATION_MS :: int where "SESSION_DURATION_MS = 7 * 24 * 60 * 60 * 1000"

definition create_session ::
  "crypto \<Rightarrow> int \<Rightarrow> nat \<Rightarrow> jstr \<Rightarrow> nat \<Rightarrow> nat option \<Rightarrow> iddb \<Rightarrow> iddb" where
  "create_session C now sid tkn uid ws db =
     db\<lparr>sessions := sessions db @ [\<lparr>s_id = sid, s_user = uid, s_ws = ws, s_hash = sha256 C tkn,
          s_expires = now + SESSION_DURATION_MS, s_revoked = False\<rparr>]\<rparr>"

definition live_session :: "jstr \<Rightarrow> int \<Rightarrow> session_row \<Rightarrow> bool" where
  "live_session h now s \<longleftrightarrow> s_hash s = h \<and> \<not> s_revoked s \<and> now < s_expires s"

definition get_session :: "crypto \<Rightarrow> int \<Rightarrow> jstr \<Rightarrow> iddb \<Rightarrow> session_row option \<times> iddb" where
  "get_session C now tkn db =
     (case first_row (live_session (sha256 C tkn) now) (sessions db) of
        None \<Rightarrow> (None, db)
      | Some s \<Rightarrow> (Some s, db\<lparr>sessions := update_rows (\<lambda>r. s_id r = s_id s)
                            (\<lambda>r. r\<lparr>s_expires := now + SESSION_DURATION_MS\<rparr>) (sessions db)\<rparr>))"

definition revoke_session :: "crypto \<Rightarrow> jstr \<Rightarrow> iddb \<Rightarrow> iddb" where
  "revoke_session C tkn db =
     db\<lparr>sessions := update_rows (\<lambda>r. s_hash r = sha256 C tkn) (\<lambda>r. r\<lparr>s_revoked := True\<rparr>) (sessions db)\<rparr>"

text \<open>\<open>isCsrfValid\<close>: equal length and equal bytes is equality.\<close>

definition is_csrf_valid :: "crypto \<Rightarrow> jstr \<Rightarrow> jstr option \<Rightarrow> bool" where
  "is_csrf_valid C tkn provided =
     (case provided of None \<Rightarrow> False | Some p \<Rightarrow> p \<noteq> [] \<and> p = csrf_of C tkn)"

section \<open>Request guards\<close>

record request =
  bearer :: "jstr option"
  cookie :: "jstr option"
  state_changing :: bool
  csrf_header :: "jstr option"

record auth_ctx =
  auth_user :: nat
  auth_ws :: nat
  auth_role :: role
  auth_session :: "nat option"

definition find_user :: "nat \<Rightarrow> iddb \<Rightarrow> user_row option" where
  "find_user uid db = first_row (\<lambda>u. u_id u = uid) (users db)"

definition find_member :: "nat \<Rightarrow> nat \<Rightarrow> iddb \<Rightarrow> member_row option" where
  "find_member ws uid db = first_row (\<lambda>m. m_ws m = ws \<and> m_user m = uid) (members db)"

definition token_auth :: "crypto \<Rightarrow> jstr \<Rightarrow> iddb \<Rightarrow> refusal + auth_ctx" where
  "token_auth C tkn db =
     (case first_row (\<lambda>t. t_hash t = sha256 C tkn \<and> \<not> t_revoked t) (api_tokens db) of
        None \<Rightarrow> Inl (401, ''unauthorized'')
      | Some t \<Rightarrow> (case find_user (t_user t) db of
            None \<Rightarrow> Inl (401, ''unauthorized'')
          | Some u \<Rightarrow> Inr \<lparr>auth_user = u_id u, auth_ws = t_ws t, auth_role = t_role t, auth_session = None\<rparr>))"

definition require_auth :: "crypto \<Rightarrow> int \<Rightarrow> request \<Rightarrow> iddb \<Rightarrow> (refusal + auth_ctx) \<times> iddb" where
  "require_auth C now req db =
     (case bearer req of
        Some tkn \<Rightarrow> (token_auth C tkn db, db)
      | None \<Rightarrow>
       (case cookie req of
          None \<Rightarrow> (Inl (401, ''unauthorized''), db)
        | Some tkn \<Rightarrow>
         (case get_session C now tkn db of
            (None, db1) \<Rightarrow> (Inl (401, ''unauthorized''), db1)
          | (Some s, db1) \<Rightarrow>
            if state_changing req \<and> \<not> is_csrf_valid C tkn (csrf_header req)
            then (Inl (403, ''csrf_token_invalid''), db1)
            else case s_ws s of
              None \<Rightarrow> (Inl (403, ''workspace_not_selected''), db1)
            | Some ws \<Rightarrow>
              (case find_user (s_user s) db1 of
                 None \<Rightarrow> (Inl (401, ''unauthorized''), db1)
               | Some u \<Rightarrow>
                (case find_member ws (s_user s) db1 of
                   None \<Rightarrow> (Inl (403, ''forbidden''), db1)
                 | Some m \<Rightarrow> (Inr \<lparr>auth_user = u_id u, auth_ws = ws, auth_role = m_role m,
                                 auth_session = Some (s_id s)\<rparr>, db1))))))"

text \<open>\<open>requireSession\<close> gives the user, the session and its workspace, if one is selected.\<close>

definition require_session :: "crypto \<Rightarrow> int \<Rightarrow> request \<Rightarrow> iddb \<Rightarrow> (refusal + session_row) \<times> iddb" where
  "require_session C now req db =
     (case cookie req of
        None \<Rightarrow> (Inl (401, ''unauthorized''), db)
      | Some tkn \<Rightarrow>
       (case get_session C now tkn db of
          (None, db1) \<Rightarrow> (Inl (401, ''unauthorized''), db1)
        | (Some s, db1) \<Rightarrow>
          if state_changing req \<and> \<not> is_csrf_valid C tkn (csrf_header req)
          then (Inl (403, ''csrf_token_invalid''), db1)
          else case find_user (s_user s) db1 of
            None \<Rightarrow> (Inl (401, ''unauthorized''), db1)
          | Some u \<Rightarrow> (Inr s, db1)))"

definition require_permission :: "permission \<Rightarrow> auth_ctx option \<Rightarrow> refusal + auth_ctx" where
  "require_permission p auth =
     (case auth of
        None \<Rightarrow> Inl (401, ''unauthorized'')
      | Some a \<Rightarrow> if has_permission (auth_role a) p then Inr a else Inl (403, ''forbidden''))"

text \<open>The \<open>preHandler\<close> chain of a route behind \<open>requireAuth\<close> and \<open>requirePermission\<close>.\<close>

definition guarded ::
  "crypto \<Rightarrow> int \<Rightarrow> permission \<Rightarrow> request \<Rightarrow> (auth_ctx \<Rightarrow> iddb \<Rightarrow> (refusal + 'a) \<times> iddb) \<Rightarrow>
   iddb \<Rightarrow> (refusal + 'a) \<times> iddb" where
  "guarded C now p req handler db =
     (case require_auth C now req db of
        (Inl e, db1) \<Rightarrow> (Inl e, db1)
      | (Inr a, db1) \<Rightarrow>
         (case require_permission p (Some a) of Inl e \<Rightarrow> (Inl e, db1) | Inr a \<Rightarrow> handler a db1))"

section \<open>Members\<close>

definition owner_count :: "nat \<Rightarrow> iddb \<Rightarrow> nat" where
  "owner_count ws db = length (filter (\<lambda>m. m_ws m = ws \<and> m_role m = Owner) (members db))"

definition is_owner :: "nat \<Rightarrow> nat \<Rightarrow> iddb \<Rightarrow> bool" where
  "is_owner ws uid db \<longleftrightarrow>
     list_ex (\<lambda>m. m_ws m = ws \<and> m_user m = uid \<and> m_role m = Owner) (members db)"

definition revoke_access :: "nat \<Rightarrow> nat \<Rightarrow> iddb \<Rightarrow> iddb" where
  "revoke_access ws uid db =
     db\<lparr>api_tokens := update_rows (\<lambda>t. t_ws t = ws \<and> t_user t = uid) (\<lambda>t. t\<lparr>t_revoked := True\<rparr>) (api_tokens db),
        sessions := update_rows (\<lambda>s. s_ws s = Some ws \<and> s_user s = uid) (\<lambda>s. s\<lparr>s_revoked := True\<rparr>) (sessions db)\<rparr>"

definition remove_member :: "nat \<Rightarrow> auth_ctx \<Rightarrow> iddb \<Rightarrow> (refusal + unit) \<times> iddb" where
  "remove_member uid a db =
     (let ws = auth_ws a in
      if is_owner ws uid db \<and> owner_count ws db \<le> 1 then (Inl (400, ''cannot_remove_last_owner''), db)
      else if find_member ws uid db = None then (Inl (404, ''not_found''), db)
      else (Inr (), revoke_access ws uid
              (db\<lparr>members := filter (\<lambda>m. \<not> (m_ws m = ws \<and> m_user m = uid)) (members db)\<rparr>)))"

text \<open>The body's role is any text; \<open>None\<close> is one that is no role.\<close>

definition change_role :: "nat \<Rightarrow> role option \<Rightarrow> auth_ctx \<Rightarrow> iddb \<Rightarrow> (refusal + unit) \<times> iddb" where
  "change_role uid new_role a db =
     (let ws = auth_ws a in
      case new_role of
        None \<Rightarrow> (Inl (400, ''validation_error''), db)
      | Some r \<Rightarrow>
        if r \<noteq> Owner \<and> is_owner ws uid db \<and> owner_count ws db \<le> 1
        then (Inl (400, ''cannot_remove_last_owner''), db)
        else if find_member ws uid db = None then (Inl (404, ''not_found''), db)
        else (Inr (), db\<lparr>members := update_rows (\<lambda>m. m_ws m = ws \<and> m_user m = uid)
                            (\<lambda>m. m\<lparr>m_role := r\<rparr>) (members db)\<rparr>))"

definition INVITE_TTL_MS :: int where "INVITE_TTL_MS = 7 * 24 * 60 * 60 * 1000"

definition invite_member ::
  "crypto \<Rightarrow> int \<Rightarrow> nat \<Rightarrow> jstr \<Rightarrow> jstr \<Rightarrow> role option \<Rightarrow> auth_ctx \<Rightarrow> iddb \<Rightarrow> (refusal + nat) \<times> iddb" where
  "invite_member C now iid tkn email r a db =
     (if email = [] then (Inl (400, ''validation_error''), db)
      else (Inr iid, db\<lparr>invites := invites db @ [\<lparr>i_id = iid, i_ws = auth_ws a,
             i_role = (case r of None \<Rightarrow> Member | Some x \<Rightarrow> x), i_hash = sha256 C tkn,
             i_expires = now + INVITE_TTL_MS, i_accepted = False, i_revoked = False\<rparr>]\<rparr>))"

definition open_invite :: "nat \<Rightarrow> nat \<Rightarrow> invite_row \<Rightarrow> bool" where
  "open_invite iid ws i \<longleftrightarrow> i_id i = iid \<and> i_ws i = ws \<and> \<not> i_revoked i \<and> \<not> i_accepted i"

definition revoke_invite :: "nat \<Rightarrow> auth_ctx \<Rightarrow> iddb \<Rightarrow> (refusal + unit) \<times> iddb" where
  "revoke_invite iid a db =
     (if first_row (open_invite iid (auth_ws a)) (invites db) = None then (Inl (404, ''not_found''), db)
      else (Inr (), db\<lparr>invites := update_rows (open_invite iid (auth_ws a))
                        (\<lambda>i. i\<lparr>i_revoked := True\<rparr>) (invites db)\<rparr>))"

definition resend_invite :: "crypto \<Rightarrow> int \<Rightarrow> nat \<Rightarrow> jstr \<Rightarrow> auth_ctx \<Rightarrow> iddb \<Rightarrow> (refusal + unit) \<times> iddb" where
  "resend_invite C now iid tkn a db =
     (if first_row (open_invite iid (auth_ws a)) (invites db) = None then (Inl (404, ''not_found''), db)
      else (Inr (), db\<lparr>invites := update_rows (\<lambda>i. i_id i = iid)
              (\<lambda>i. i\<lparr>i_hash := sha256 C tkn, i_expires := now + INVITE_TTL_MS\<rparr>) (invites db)\<rparr>))"

definition revoke_member_sessions :: "nat \<Rightarrow> auth_ctx \<Rightarrow> iddb \<Rightarrow> (refusal + unit) \<times> iddb" where
  "revoke_member_sessions uid a db =
     (Inr (), db\<lparr>sessions := update_rows (\<lambda>s. s_ws s = Some (auth_ws a) \<and> s_user s = uid)
                   (\<lambda>s. s\<lparr>s_revoked := True\<rparr>) (sessions db)\<rparr>)"

section \<open>Account routes\<close>

text \<open>\<open>listUserWorkspaces\<close>: the memberships whose workspace is not deleted.\<close>

definition user_workspaces :: "nat \<Rightarrow> iddb \<Rightarrow> (ws_row \<times> member_row) list" where
  "user_workspaces uid db =
     concat (map (\<lambda>m. map (\<lambda>w. (w, m)) (filter (\<lambda>w. w_id w = m_ws m \<and> \<not> w_deleted w) (workspaces db)))
       (filter (\<lambda>m. m_user m = uid) (members db)))"

text \<open>The body names the workspace by slug or else by id.\<close>

definition select_workspace ::
  "crypto \<Rightarrow> int \<Rightarrow> nat \<Rightarrow> jstr \<Rightarrow> jstr option \<Rightarrow> nat option \<Rightarrow> request \<Rightarrow> iddb \<Rightarrow> (refusal + role) \<times> iddb" where
  "select_workspace C now sid new_tok slug wid req db =
     (case require_session C now req db of
        (Inl e, db1) \<Rightarrow> (Inl e, db1)
      | (Inr s, db1) \<Rightarrow>
        if slug = None \<and> wid = None then (Inl (400, ''validation_error''), db1)
        else case first_row (\<lambda>(w, m). case slug of Some x \<Rightarrow> w_slug w = x | None \<Rightarrow> Some (w_id w) = wid)
                    (user_workspaces (s_user s) db1) of
          None \<Rightarrow> (Inl (403, ''forbidden''), db1)
        | Some (w, m) \<Rightarrow>
            (Inr (m_role m),
             revoke_session C (the (cookie req)) (create_session C now sid new_tok (s_user s) (Some (w_id w)) db1)))"

text \<open>\<open>policy\<close> is the code with which the password policy refuses a password.\<close>

definition change_password ::
  "crypto \<Rightarrow> (jstr \<Rightarrow> string option) \<Rightarrow> jstr \<Rightarrow> jstr \<Rightarrow> jstr \<Rightarrow> auth_ctx \<Rightarrow> iddb \<Rightarrow> (refusal + unit) \<times> iddb" where
  "change_password C policy current new_pw new_hash a db =
     (if current = [] \<or> new_pw = [] then (Inl (400, ''validation_error''), db)
      else case find_user (auth_user a) db of
        None \<Rightarrow> (Inl (401, ''invalid_credentials''), db)
      | Some u \<Rightarrow>
        if \<not> verify_password C (u_hash u) current then (Inl (401, ''invalid_credentials''), db)
        else case policy new_pw of Some code \<Rightarrow> (Inl (400, code), db)
        | None \<Rightarrow> (Inr (), db\<lparr>
          users := update_rows (\<lambda>r. u_id r = auth_user a) (\<lambda>r. r\<lparr>u_hash := new_hash\<rparr>) (users db),
          sessions := update_rows (\<lambda>s. s_user s = auth_user a) (\<lambda>s. s\<lparr>s_revoked := True\<rparr>) (sessions db),
          api_tokens := update_rows (\<lambda>t. t_user t = auth_user a) (\<lambda>t. t\<lparr>t_revoked := True\<rparr>) (api_tokens db)\<rparr>))"

text \<open>\<open>ON CONFLICT (workspace_id, user_id) DO NOTHING\<close>.\<close>

definition insert_member :: "nat \<Rightarrow> nat \<Rightarrow> role \<Rightarrow> iddb \<Rightarrow> iddb" where
  "insert_member ws uid r db =
     (if find_member ws uid db = None
      then db\<lparr>members := members db @ [\<lparr>m_ws = ws, m_user = uid, m_role = r\<rparr>]\<rparr> else db)"

definition accept_invite ::
  "crypto \<Rightarrow> int \<Rightarrow> nat \<Rightarrow> jstr \<Rightarrow> jstr \<Rightarrow> request \<Rightarrow> iddb \<Rightarrow> (refusal + nat) \<times> iddb" where
  "accept_invite C now sid new_tok tkn req db =
     (case require_session C now req db of
        (Inl e, db1) \<Rightarrow> (Inl e, db1)
      | (Inr s, db1) \<Rightarrow>
        if tkn = [] then (Inl (400, ''validation_error''), db1)
        else case first_row (\<lambda>i. i_hash i = sha256 C tkn) (invites db1) of
          None \<Rightarrow> (Inl (404, ''validation_error''), db1)
        | Some i \<Rightarrow>
          if i_revoked i then (Inl (400, ''validation_error''), db1)
          else if i_expires i \<le> now then (Inl (400, ''invitation_expired''), db1)
          else
            let db2 = db1\<lparr>invites := update_rows (\<lambda>r. i_id r = i_id i) (\<lambda>r. r\<lparr>i_accepted := True\<rparr>) (invites db1)\<rparr>;
                db3 = insert_member (i_ws i) (s_user s) (i_role i) db2;
                db4 = create_session C now sid new_tok (s_user s) (Some (i_ws i)) db3
            in (Inr (i_ws i), revoke_session C (the (cookie req)) db4))"

section \<open>Login and the lock\<close>

definition LOGIN_MAX_FAILURES :: nat where "LOGIN_MAX_FAILURES = 5"
definition LOGIN_WINDOW_MS :: int where "LOGIN_WINDOW_MS = 15 * 60 * 1000"

definition record_login_failure :: "int \<Rightarrow> jstr \<Rightarrow> iddb \<Rightarrow> bool \<times> iddb" where
  "record_login_failure now email db =
     (let old = map_of (attempts db) email;
          cnt = (case old of
                   None \<Rightarrow> 1
                 | Some r \<Rightarrow> if now - a_window r > LOGIN_WINDOW_MS then 1 else a_count r + 1);
          locked = (LOGIN_MAX_FAILURES \<le> cnt);
          window = (case old of
                      None \<Rightarrow> now
                    | Some r \<Rightarrow> if a_window r < now - LOGIN_WINDOW_MS then now else a_window r)
      in (locked, db\<lparr>attempts := AList.update email
            \<lparr>a_count = cnt, a_window = window, a_locked = (if locked then Some (now + LOGIN_WINDOW_MS) else None)\<rparr>
            (attempts db)\<rparr>))"

definition is_login_locked :: "int \<Rightarrow> jstr \<Rightarrow> iddb \<Rightarrow> bool" where
  "is_login_locked now email db =
     (case map_of (attempts db) email of
        None \<Rightarrow> False
      | Some r \<Rightarrow> (case a_locked r of None \<Rightarrow> False | Some t \<Rightarrow> now < t))"

definition clear_login_failures :: "jstr \<Rightarrow> iddb \<Rightarrow> iddb" where
  "clear_login_failures email db = db\<lparr>attempts := AList.delete email (attempts db)\<rparr>"

text \<open>\<open>email\<close> is the lower-cased address.\<close>

definition login ::
  "crypto \<Rightarrow> int \<Rightarrow> nat \<Rightarrow> jstr \<Rightarrow> jstr \<Rightarrow> jstr \<Rightarrow> iddb \<Rightarrow> (refusal + nat) \<times> iddb" where
  "login C now sid new_tok email password db =
     (if email = [] \<or> password = [] then (Inl (400, ''validation_error''), db)
      else if is_login_locked now email db then (Inl (423, ''account_locked''), db)
      else
        let u = first_row (\<lambda>u. u_email u = email) (users db) in
        case u of
          Some row \<Rightarrow>
            if verify_password C (u_hash row) password then
              let db1 = clear_login_failures email db in
              if user_workspaces (u_id row) db1 \<noteq> []
              then (Inr (u_id row), create_session C now sid new_tok (u_id row) None db1)
              else (Inl (403, ''forbidden''), db1)
            else (case record_login_failure now email db of
                    (lk, db1) \<Rightarrow> (Inl (if lk then (423, ''account_locked'') else (401, ''invalid_credentials'')), db1))
        | None \<Rightarrow> (case record_login_failure now email db of
                    (lk, db1) \<Rightarrow> (Inl (if lk then (423, ''account_locked'') else (401, ''invalid_credentials'')), db1)))"

section \<open>Lemmas\<close>

lemma get_session_Some:
  "get_session C now tkn db = (Some s, db1) \<Longrightarrow>
     s \<in> set (sessions db) \<and> live_session (sha256 C tkn) now s \<and>
     members db1 = members db \<and> users db1 = users db \<and> api_tokens db1 = api_tokens db \<and>
     invites db1 = invites db \<and> attempts db1 = attempts db"
  by (auto simp: get_session_def split: option.splits dest: first_row_Some)

lemma get_session_None: "get_session C now tkn db = (None, db1) \<Longrightarrow> db1 = db"
  by (auto simp: get_session_def split: option.splits)

text \<open>Who a request that passes \<open>require_auth\<close> is.\<close>

lemma require_auth_cases:
  assumes "require_auth C now req db = (Inr a, db1)"
  obtains (token) tkn t where "bearer req = Some tkn" "t \<in> set (api_tokens db)" "t_hash t = sha256 C tkn"
      "\<not> t_revoked t" "auth_user a = t_user t" "auth_ws a = t_ws t" "auth_role a = t_role t" "db1 = db"
    | (session) tkn s m where "bearer req = None" "cookie req = Some tkn" "s \<in> set (sessions db)"
      "live_session (sha256 C tkn) now s" "state_changing req \<longrightarrow> is_csrf_valid C tkn (csrf_header req)"
      "s_ws s = Some (auth_ws a)" "auth_user a = s_user s" "m \<in> set (members db)" "m_ws m = auth_ws a"
      "m_user m = auth_user a" "auth_role a = m_role m" "members db1 = members db"
proof (cases "bearer req")
  case (Some tkn)
  with assms show ?thesis
    by (auto simp: require_auth_def token_auth_def find_user_def split: option.splits
        dest!: first_row_Some intro!: token)
next
  case None
  with assms obtain tkn s where c: "cookie req = Some tkn" and g: "get_session C now tkn db = (Some s, db1)"
    and csrf: "state_changing req \<longrightarrow> is_csrf_valid C tkn (csrf_header req)"
    and r: "(case s_ws s of None \<Rightarrow> (Inl (403, ''workspace_not_selected''), db1)
            | Some ws \<Rightarrow> (case find_user (s_user s) db1 of None \<Rightarrow> (Inl (401, ''unauthorized''), db1)
               | Some u \<Rightarrow> (case find_member ws (s_user s) db1 of None \<Rightarrow> (Inl (403, ''forbidden''), db1)
                 | Some m \<Rightarrow> (Inr \<lparr>auth_user = u_id u, auth_ws = ws, auth_role = m_role m,
                      auth_session = Some (s_id s)\<rparr>, db1)))) = (Inr a, db1)"
    by (auto simp: require_auth_def split: option.splits prod.splits if_splits)
  from r obtain ws u m where w: "s_ws s = Some ws" "find_user (s_user s) db1 = Some u"
      "find_member ws (s_user s) db1 = Some m"
      "a = \<lparr>auth_user = u_id u, auth_ws = ws, auth_role = m_role m, auth_session = Some (s_id s)\<rparr>"
    by (auto split: option.splits)
  from get_session_Some[OF g] w None c csrf show ?thesis
    by (intro session[of tkn s m])
      (auto simp: find_user_def find_member_def dest!: first_row_Some)
qed

definition member_keys :: "iddb \<Rightarrow> (nat \<times> nat) list" where
  "member_keys db = map (\<lambda>m. (m_ws m, m_user m)) (members db)"

text \<open>The primary key of \<open>workspace_members\<close>, and an owner in the workspace.\<close>

definition owned :: "nat \<Rightarrow> iddb \<Rightarrow> bool" where
  "owned ws db \<longleftrightarrow> distinct (member_keys db) \<and> 0 < owner_count ws db"

lemma owned_cong: "members db' = members db \<Longrightarrow> owned ws db' = owned ws db"
  by (simp add: owned_def member_keys_def owner_count_def)

lemma find_member_None: "find_member ws uid db = None \<longleftrightarrow> (ws, uid) \<notin> set (member_keys db)"
  by (auto simp: find_member_def first_row_None member_keys_def)

lemma distinct_one_match:
  "distinct (map f xs) \<Longrightarrow> length (filter (\<lambda>x. f x = k) xs) \<le> 1"
  by (induction xs) (auto simp: filter_empty_conv image_iff le_Suc_eq)

lemma keep_an_owner:
  assumes "distinct (map (\<lambda>m. (m_ws m, m_user m)) ms)"
    and "\<not> (list_ex (\<lambda>m. m_ws m = ws \<and> m_user m = uid \<and> m_role m = Owner) ms \<and>
          length (filter (\<lambda>m. m_ws m = ws \<and> m_role m = Owner) ms) \<le> 1)"
    and "0 < length (filter (\<lambda>m. m_ws m = ws \<and> m_role m = Owner) ms)"
  shows "\<exists>m \<in> set ms. m_ws m = ws \<and> m_role m = Owner \<and> m_user m \<noteq> uid"
proof (rule ccontr)
  assume none: "\<not> ?thesis"
  let ?own = "\<lambda>m. m_ws m = ws \<and> m_role m = Owner"
  have "filter ?own ms = filter (\<lambda>m. ?own m \<and> m_user m = uid) ms"
    using none by (intro filter_cong) auto
  also have "\<dots> = filter ?own (filter (\<lambda>m. (m_ws m, m_user m) = (ws, uid)) ms)"
    by (auto simp: conj_commute intro: filter_cong)
  finally have "length (filter ?own ms) \<le> length (filter (\<lambda>m. (m_ws m, m_user m) = (ws, uid)) ms)"
    using length_filter_le[of ?own "filter (\<lambda>m. (m_ws m, m_user m) = (ws, uid)) ms"] by simp
  also have "\<dots> \<le> 1" by (rule distinct_one_match[OF assms(1)])
  finally have le: "length (filter ?own ms) \<le> 1" .
  obtain m where "m \<in> set ms" "?own m" using assms(3) by (auto simp: filter_empty_conv)
  with none have "list_ex (\<lambda>m. m_ws m = ws \<and> m_user m = uid \<and> m_role m = Owner) ms"
    by (auto simp: list_ex_iff)
  with le assms(2) show False by simp
qed

lemma owner_count_pos: "0 < owner_count ws db \<longleftrightarrow> (\<exists>m \<in> set (members db). m_ws m = ws \<and> m_role m = Owner)"
  by (auto simp: owner_count_def filter_empty_conv)

lemma remove_member_owned [inv_intros]:
  assumes "owned ws db" "remove_member uid a db = (r, db')"
  shows "owned ws db'"
proof (cases "members db' = members db")
  case True
  then show ?thesis using assms(1) owned_cong[OF True] by simp
next
  case False
  with assms(2) have r: "\<not> (is_owner (auth_ws a) uid db \<and> owner_count (auth_ws a) db \<le> 1)"
    "members db' = filter (\<lambda>m. \<not> (m_ws m = auth_ws a \<and> m_user m = uid)) (members db)"
    by (auto simp: remove_member_def revoke_access_def Let_def split: if_splits)
  have "distinct (member_keys db')"
    using assms(1) by (auto simp: owned_def member_keys_def r(2) distinct_map_filter)
  moreover have "\<exists>m \<in> set (members db'). m_ws m = ws \<and> m_role m = Owner"
  proof (cases "ws = auth_ws a")
    case True
    then show ?thesis
      using keep_an_owner[of "members db" ws uid] assms(1) r
      by (auto simp: owned_def member_keys_def is_owner_def owner_count_def)
  next
    case False
    then show ?thesis using assms(1) by (auto simp: owned_def owner_count_pos r(2))
  qed
  ultimately show ?thesis by (simp add: owned_def owner_count_pos)
qed

lemma change_role_owned [inv_intros]:
  assumes "owned ws db" "change_role uid nr a db = (r, db')"
  shows "owned ws db'"
proof (cases "members db' = members db")
  case True
  then show ?thesis using assms(1) owned_cong[OF True] by simp
next
  case False
  with assms(2) obtain x where x: "nr = Some x"
    "\<not> (x \<noteq> Owner \<and> is_owner (auth_ws a) uid db \<and> owner_count (auth_ws a) db \<le> 1)"
    "members db' = update_rows (\<lambda>m. m_ws m = auth_ws a \<and> m_user m = uid) (\<lambda>m. m\<lparr>m_role := x\<rparr>) (members db)"
    by (auto simp: change_role_def Let_def split: option.splits if_splits)
  have "map (\<lambda>m. (m_ws m, m_user m)) (members db') = map (\<lambda>m. (m_ws m, m_user m)) (members db)"
    by (simp add: x(3) update_rows_def)
  then have "distinct (member_keys db')" using assms(1) by (simp add: owned_def member_keys_def)
  moreover have "\<exists>m \<in> set (members db'). m_ws m = ws \<and> m_role m = Owner"
  proof (cases "ws = auth_ws a \<and> x \<noteq> Owner")
    case True
    then obtain m where "m \<in> set (members db)" "m_ws m = ws" "m_role m = Owner" "m_user m \<noteq> uid"
      using keep_an_owner[of "members db" ws uid] assms(1) x
      by (auto simp: owned_def member_keys_def is_owner_def owner_count_def)
    then show ?thesis by (intro bexI[of _ m]) (auto simp: x(3) in_update_rows intro!: bexI[of _ m])
  next
    case no: False
    from assms(1) obtain m where m: "m \<in> set (members db)" "m_ws m = ws" "m_role m = Owner"
      by (auto simp: owned_def owner_count_pos)
    let ?m = "if m_ws m = auth_ws a \<and> m_user m = uid then m\<lparr>m_role := x\<rparr> else m"
    have "?m \<in> set (members db')" using m(1) by (auto simp: x(3) in_update_rows)
    moreover have "m_ws ?m = ws \<and> m_role ?m = Owner" using m no by auto
    ultimately show ?thesis by blast
  qed
  ultimately show ?thesis by (simp add: owned_def owner_count_pos)
qed

lemma insert_member_owned [inv_intros]: "owned ws db \<Longrightarrow> owned ws (insert_member w uid r db)"
  by (auto simp: owned_def insert_member_def find_member_None member_keys_def owner_count_def)

section \<open>The routes as a transition system\<close>

inductive id_step :: "crypto \<Rightarrow> iddb \<Rightarrow> iddb \<Rightarrow> bool" for C where
  remove: "guarded C now REMOVE_MEMBERS req (remove_member uid) db = (r, db') \<Longrightarrow> id_step C db db'"
| change: "guarded C now CHANGE_MEMBER_ROLES req (change_role uid nr) db = (r, db') \<Longrightarrow> id_step C db db'"
| invite: "guarded C now INVITE_MEMBERS req (invite_member C now iid tkn email nr) db = (r', db') \<Longrightarrow> id_step C db db'"
| uninvite: "guarded C now MANAGE_MEMBERS req (revoke_invite iid) db = (r, db') \<Longrightarrow> id_step C db db'"
| resend: "guarded C now MANAGE_MEMBERS req (resend_invite C now iid tkn) db = (r, db') \<Longrightarrow> id_step C db db'"
| sessions: "guarded C now MANAGE_MEMBERS req (revoke_member_sessions uid) db = (r, db') \<Longrightarrow> id_step C db db'"
| select: "select_workspace C now sid new_tok slug wid req db = (r2, db') \<Longrightarrow> id_step C db db'"
| accept: "accept_invite C now sid new_tok tkn req db = (r', db') \<Longrightarrow> id_step C db db'"
| password: "require_auth C now req db = (Inr a, db1) \<Longrightarrow>
    change_password C ok cur new_pw new_hash a db1 = (r, db') \<Longrightarrow> id_step C db db'"
| login: "login C now sid new_tok email password db = (r', db') \<Longrightarrow> id_step C db db'"
| logout: "id_step C db (revoke_session C tkn db)"

lemma require_auth_members: "require_auth C now req db = (r, db1) \<Longrightarrow> members db1 = members db"
  by (auto simp: require_auth_def split: option.splits prod.splits if_splits
      dest: get_session_Some get_session_None)

lemma require_session_members: "require_session C now req db = (r, db1) \<Longrightarrow> members db1 = members db"
  by (auto simp: require_session_def split: option.splits prod.splits if_splits
      dest: get_session_Some get_session_None)

lemma guarded_owned:
  assumes "guarded C now p req h db = (r, db')" "owned ws db"
    and "\<And>a db1 r db2. owned ws db1 \<Longrightarrow> h a db1 = (r, db2) \<Longrightarrow> owned ws db2"
  shows "owned ws db'"
proof (cases "require_auth C now req db")
  case (Pair ra db1)
  then have o: "owned ws db1" using require_auth_members owned_cong assms(2) by blast
  show ?thesis
  proof (cases ra)
    case (Inl e)
    with assms(1) Pair o show ?thesis by (simp add: guarded_def)
  next
    case (Inr a)
    with assms(1) Pair o show ?thesis
      by (auto simp: guarded_def require_permission_def intro: assms(3) split: if_splits)
  qed
qed

lemma same_members:
  "members (create_session C now sid tkn uid w db) = members db"
  "members (revoke_session C tkn db) = members db"
  "members (clear_login_failures email db) = members db"
  "members (snd (record_login_failure now email db)) = members db"
  "members (snd (invite_member C now iid tkn email nr a db)) = members db"
  "members (snd (revoke_invite iid a db)) = members db"
  "members (snd (resend_invite C now iid tkn a db)) = members db"
  "members (snd (revoke_member_sessions uid a db)) = members db"
  by (simp_all add: create_session_def revoke_session_def clear_login_failures_def record_login_failure_def
      invite_member_def revoke_invite_def resend_invite_def revoke_member_sessions_def Let_def)

lemma change_password_members: "change_password C ok cur npw nh a db = (r, db') \<Longrightarrow> members db' = members db"
  by (auto simp: change_password_def split: option.splits if_splits)

lemma record_login_failure_members: "record_login_failure now email db = (l, d) \<Longrightarrow> members d = members db"
  using same_members(4)[of now email db] by simp

lemma login_members: "login C now sid tkn email pw db = (r, db') \<Longrightarrow> members db' = members db"
  by (auto simp: login_def Let_def same_members split: option.splits if_splits prod.splits
      dest: record_login_failure_members)

lemma select_workspace_members:
  "select_workspace C now sid tkn slug wid req db = (r, db') \<Longrightarrow> members db' = members db"
  by (auto simp: select_workspace_def same_members split: prod.splits sum.splits option.splits if_splits
      dest!: require_session_members)

lemma accept_invite_owned:
  assumes "accept_invite C now sid nt tkn req db = (r, db')" "owned ws db"
  shows "owned ws db'"
proof -
  obtain rs db1 where rs: "require_session C now req db = (rs, db1)" by (cases "require_session C now req db")
  have o: "owned ws db1" using require_session_members[OF rs] owned_cong assms(2) by blast
  have o2: "owned ws (insert_member w uid x (db1\<lparr>invites := y\<rparr>))" for w uid x y
    using o owned_cong[of "db1\<lparr>invites := y\<rparr>" db1 ws] by (simp add: insert_member_owned)
  have keep: "owned ws (revoke_session C t1 (create_session C now sid t2 u w d)) = owned ws d" for t1 t2 u w d
    by (rule owned_cong) (simp add: same_members)
  from assms(1) o show ?thesis
    by (auto simp: accept_invite_def rs Let_def keep o2 split: sum.splits option.splits if_splits)
qed

lemma guarded_same:
  assumes "guarded C now p req h db = (r, db')" "\<And>a d. members (snd (h a d)) = members d" "owned ws db"
  shows "owned ws db'"
proof (rule guarded_owned[OF assms(1,3)])
  fix a d r d' assume "owned ws d" "h a d = (r, d')"
  then show "owned ws d'" using assms(2)[of a d] owned_cong[of d' d] by simp
qed

lemma id_step_owned: "id_step C db db' \<Longrightarrow> owned ws db \<Longrightarrow> owned ws db'"
proof (induction rule: id_step.induct)
  case (remove now req uid db r db')
  then show ?case using guarded_owned[OF remove.hyps] remove_member_owned by blast
next
  case (change now req uid nr db r db')
  then show ?case using guarded_owned[OF change.hyps] change_role_owned by blast
next
  case (invite now req iid tkn email nr db r' db')
  then show ?case using guarded_same[OF invite.hyps same_members(5)] by blast
next
  case (uninvite now req iid db r db')
  then show ?case using guarded_same[OF uninvite.hyps same_members(6)] by blast
next
  case (resend now req iid tkn db r db')
  then show ?case using guarded_same[OF resend.hyps same_members(7)] by blast
next
  case (sessions now req uid db r db')
  then show ?case using guarded_same[OF sessions.hyps same_members(8)] by blast
next
  case (select now sid new_tok slug wid req db r2 db')
  then show ?case using select_workspace_members owned_cong by blast
next
  case (accept now sid new_tok tkn req db r' db')
  then show ?case using accept_invite_owned by blast
next
  case (password now req db a db1 ok cur new_pw new_hash r db')
  then show ?case using owned_cong[OF require_auth_members] owned_cong[OF change_password_members] by blast
next
  case (login now sid new_tok email password db r' db')
  then show ?case using login_members owned_cong by blast
next
  case (logout db tkn)
  then show ?case using same_members(2) owned_cong by blast
qed

section \<open>Repeated failures\<close>

definition login_failures :: "jstr \<Rightarrow> int list \<Rightarrow> iddb \<Rightarrow> iddb" where
  "login_failures email ts db = fold (\<lambda>t d. snd (record_login_failure t email d)) ts db"

lemma login_failures_count:
  assumes "map_of (attempts db) email = None" "\<forall>t \<in> set (t0 # ts). t0 \<le> t \<and> t - t0 \<le> LOGIN_WINDOW_MS"
  shows "map_of (attempts (login_failures email (t0 # ts) db)) email =
    Some \<lparr>a_count = length (t0 # ts), a_window = t0,
      a_locked = (if 5 \<le> length (t0 # ts) then Some (last (t0 # ts) + LOGIN_WINDOW_MS) else None)\<rparr>"
  using assms(2)
proof (induction ts rule: rev_induct)
  case Nil
  then show ?case
    using assms(1) by (simp add: login_failures_def record_login_failure_def LOGIN_MAX_FAILURES_def)
next
  case (snoc t ts)
  then have IH: "map_of (attempts (login_failures email (t0 # ts) db)) email =
    Some \<lparr>a_count = length (t0 # ts), a_window = t0,
      a_locked = (if 5 \<le> length (t0 # ts) then Some (last (t0 # ts) + LOGIN_WINDOW_MS) else None)\<rparr>"
    and t: "t0 \<le> t" "t - t0 \<le> LOGIN_WINDOW_MS" by auto
  have "login_failures email (t0 # ts @ [t]) db = snd (record_login_failure t email (login_failures email (t0 # ts) db))"
    by (simp add: login_failures_def)
  then show ?case
    using IH t by (simp add: record_login_failure_def LOGIN_MAX_FAILURES_def)
qed

section \<open>Properties\<close>

definition csrf_ok :: "crypto \<Rightarrow> jstr \<Rightarrow> request \<Rightarrow> bool" where
  "csrf_ok C tkn req \<longleftrightarrow> (state_changing req \<longrightarrow> is_csrf_valid C tkn (csrf_header req))"

text \<open>
  C4: no handler behind \<open>requireAuth\<close> and \<open>requirePermission\<close> runs without a credential: it took
  an unrevoked API token whose role holds the permission, or a live session, with its CSRF token
  when the method changes state, of a member whose role holds it.
\<close>

theorem guarded_needs_credential:
  assumes "guarded C now p req h db = (Inr x, db')"
  shows "(\<exists>tkn t. bearer req = Some tkn \<and> t \<in> set (api_tokens db) \<and> t_hash t = sha256 C tkn \<and>
            \<not> t_revoked t \<and> has_permission (t_role t) p) \<or>
    (\<exists>tkn s m. cookie req = Some tkn \<and> s \<in> set (sessions db) \<and> live_session (sha256 C tkn) now s \<and>
        csrf_ok C tkn req \<and>
        m \<in> set (members db) \<and> s_ws s = Some (m_ws m) \<and> s_user s = m_user m \<and> has_permission (m_role m) p)"
proof -
  from assms obtain a db1 where ra: "require_auth C now req db = (Inr a, db1)"
    and p: "has_permission (auth_role a) p"
    by (auto simp: guarded_def require_permission_def split: prod.splits sum.splits if_splits)
  from ra show ?thesis
  proof (cases rule: require_auth_cases)
    case (token tkn t)
    with p show ?thesis by auto
  next
    case (session tkn s m)
    with p show ?thesis
      by (intro disjI2 exI[of _ tkn] exI[of _ s] exI[of _ m]) (auto simp: csrf_ok_def)
  qed
qed

definition sample_crypto :: crypto where
  "sample_crypto = \<lparr>sha256 = (\<lambda>x. x), csrf_of = (\<lambda>x. 0 # x), verify_password = (\<lambda>h p. h = p)\<rparr>"

definition sample_db :: iddb where
  "sample_db = \<lparr>users = [\<lparr>u_id = 1, u_email = js ''o'', u_hash = js ''pw''\<rparr>, \<lparr>u_id = 2, u_email = js ''b'', u_hash = js ''pw''\<rparr>],
     workspaces = [\<lparr>w_id = 7, w_slug = js ''w'', w_deleted = False\<rparr>],
     sessions = [\<lparr>s_id = 1, s_user = 1, s_ws = Some 7, s_hash = js ''t1'', s_expires = 100, s_revoked = False\<rparr>,
       \<lparr>s_id = 2, s_user = 2, s_ws = None, s_hash = js ''t2'', s_expires = 100, s_revoked = False\<rparr>],
     api_tokens = [\<lparr>t_id = 4, t_ws = 7, t_user = 2, t_role = Member, t_hash = js ''k2'', t_revoked = False\<rparr>],
     members = [\<lparr>m_ws = 7, m_user = 1, m_role = Owner\<rparr>, \<lparr>m_ws = 7, m_user = 2, m_role = Member\<rparr>],
     invites = [\<lparr>i_id = 5, i_ws = 7, i_role = Admin, i_hash = js ''inv'', i_expires = 100, i_accepted = True, i_revoked = False\<rparr>],
     attempts = []\<rparr>"

definition owner_request :: request where
  "owner_request = \<lparr>bearer = None, cookie = Some (js ''t1''), state_changing = True, csrf_header = Some (0 # js ''t1'')\<rparr>"

lemmas access_eval = sample_crypto_def sample_db_def owner_request_def guarded_def require_auth_def
  get_session_def live_session_def first_row_def update_rows_def is_csrf_valid_def find_user_def
  find_member_def require_permission_def has_permission_def PERMISSIONS_def remove_member_def
  is_owner_def owner_count_def revoke_access_def require_session_def SESSION_DURATION_MS_def

theorem guarded_needs_credential_witness:
  "(\<exists>tkn t. bearer owner_request = Some tkn \<and> t \<in> set (api_tokens sample_db) \<and> t_hash t = sha256 sample_crypto tkn \<and>
            \<not> t_revoked t \<and> has_permission (t_role t) REMOVE_MEMBERS) \<or>
    (\<exists>tkn s m. cookie owner_request = Some tkn \<and> s \<in> set (sessions sample_db) \<and> live_session (sha256 sample_crypto tkn) 5 s \<and>
        csrf_ok sample_crypto tkn owner_request \<and>
        m \<in> set (members sample_db) \<and> s_ws s = Some (m_ws m) \<and> s_user s = m_user m \<and> has_permission (m_role m) REMOVE_MEMBERS)"
proof (rule guarded_needs_credential)
  show "guarded sample_crypto 5 REMOVE_MEMBERS owner_request (\<lambda>a db. (Inr (), db)) sample_db =
      (Inr (), snd (get_session sample_crypto 5 (js ''t1'') sample_db))"
    by (simp add: access_eval)
qed

text \<open>
  C18: a workspace that has an owner keeps one: no sequence of member, invitation, session,
  password and login requests, from anyone, removes or demotes the last owner.
\<close>

theorem last_owner_kept:
  assumes "(id_step C)\<^sup>*\<^sup>* db db'" and "distinct (member_keys db)" and "0 < owner_count ws db"
  shows "0 < owner_count ws db'"
proof -
  have "owned ws db" using assms(2,3) by (simp add: owned_def)
  with assms(1) have "owned ws db'" by (induction rule: rtranclp_induct) (auto intro: id_step_owned)
  then show ?thesis by (simp add: owned_def)
qed

theorem last_owner_kept_witness:
  "0 < owner_count 7 (snd (guarded sample_crypto 5 REMOVE_MEMBERS owner_request (remove_member 1) sample_db))"
proof (rule last_owner_kept)
  show "(id_step sample_crypto)\<^sup>*\<^sup>* sample_db
      (snd (guarded sample_crypto 5 REMOVE_MEMBERS owner_request (remove_member 1) sample_db))"
    by (rule r_into_rtranclp, rule id_step.remove) (rule prod.collapse[symmetric])
qed (simp_all add: member_keys_def sample_db_def owner_count_def)

text \<open>
  C28: once a member is removed, nothing he holds authenticates him in that workspace, neither an
  API token nor a session, whatever the request.
\<close>

theorem removed_member_locked_out:
  assumes "remove_member uid a db = (Inr (), db')"
  shows "\<not> (\<exists>b db''. require_auth C now req db' = (Inr b, db'') \<and> auth_user b = uid \<and> auth_ws b = auth_ws a)"
proof (rule notI, elim exE conjE)
  fix b db'' assume ra: "require_auth C now req db' = (Inr b, db'')" and b: "auth_user b = uid" "auth_ws b = auth_ws a"
  from assms have tok: "api_tokens db' = update_rows (\<lambda>t. t_ws t = auth_ws a \<and> t_user t = uid) (\<lambda>t. t\<lparr>t_revoked := True\<rparr>) (api_tokens db)"
    and mem: "members db' = filter (\<lambda>m. \<not> (m_ws m = auth_ws a \<and> m_user m = uid)) (members db)"
    by (auto simp: remove_member_def revoke_access_def Let_def split: if_splits)
  from ra show False
  proof (cases rule: require_auth_cases)
    case (token tkn t)
    then obtain x where "t = (if t_ws x = auth_ws a \<and> t_user x = uid then x\<lparr>t_revoked := True\<rparr> else x)"
      by (auto simp: tok in_update_rows)
    with token b show False by (cases "t_ws x = auth_ws a \<and> t_user x = uid") auto
  next
    case (session tkn s m)
    with b show False by (simp add: mem)
  qed
qed

theorem removed_member_locked_out_witness:
  "\<not> (\<exists>b db''. require_auth sample_crypto 5 \<lparr>bearer = Some (js ''k2''), cookie = None, state_changing = False, csrf_header = None\<rparr>
      (snd (remove_member 2 \<lparr>auth_user = 1, auth_ws = 7, auth_role = Owner, auth_session = None\<rparr> sample_db)) = (Inr b, db'') \<and>
      auth_user b = 2 \<and> auth_ws b = auth_ws \<lparr>auth_user = 1, auth_ws = 7, auth_role = Owner, auth_session = None\<rparr>)"
  by (rule removed_member_locked_out[where db = sample_db]) (simp add: access_eval)

text \<open>
  Five failures of one address within 15 minutes lock it: for 15 minutes after the fifth every
  login attempt is refused with 423, whatever the password, and leaves the database as it is.
\<close>

theorem five_failures_lock:
  assumes "map_of (attempts db) email = None" and "ts = [t1, t2, t3, t4, t5]"
    and "\<forall>t \<in> set ts. t1 \<le> t \<and> t - t1 \<le> LOGIN_WINDOW_MS"
    and "now < t5 + LOGIN_WINDOW_MS" and "email \<noteq> []" and "password \<noteq> []"
  shows "login C now sid tkn email password (login_failures email ts db) =
    (Inl (423, ''account_locked''), login_failures email ts db)"
  using login_failures_count[OF assms(1), of t1 "[t2, t3, t4, t5]"] assms
  by (simp add: login_def is_login_locked_def)

theorem five_failures_lock_witness:
  "login sample_crypto 1000 9 (js ''x'') (js ''b'') (js ''pw'') (login_failures (js ''b'') [1, 2, 3, 4, 5] sample_db) =
    (Inl (423, ''account_locked''), login_failures (js ''b'') [1, 2, 3, 4, 5] sample_db)"
  by (rule five_failures_lock[of sample_db "js ''b''" "[1, 2, 3, 4, 5]" 1 2 3 4 5 1000 "js ''pw''"])
    (simp_all add: sample_db_def LOGIN_WINDOW_MS_def)

text \<open>
  Accepting an invitation needs only an unrevoked, unexpired row: \<open>accepted_at\<close> is written but
  never read, so a token that has been accepted admits the next user who presents it.
\<close>

theorem invitation_is_reusable:
  assumes "require_session C now req db = (Inr s, db1)" and "tkn \<noteq> []"
    and "first_row (\<lambda>i. i_hash i = sha256 C tkn) (invites db1) = Some i"
    and "\<not> i_revoked i" and "now < i_expires i"
  shows "fst (accept_invite C now sid new_tok tkn req db) = Inr (i_ws i) \<and>
    find_member (i_ws i) (s_user s) (snd (accept_invite C now sid new_tok tkn req db)) \<noteq> None"
  using assms
  by (auto simp: accept_invite_def Let_def find_member_None member_keys_def same_members insert_member_def)

theorem invitation_is_reusable_witness:
  "fst (accept_invite sample_crypto 5 9 (js ''n'') (js ''inv'')
      \<lparr>bearer = None, cookie = Some (js ''t2''), state_changing = False, csrf_header = None\<rparr> sample_db) = Inr 7 \<and>
    find_member 7 2 (snd (accept_invite sample_crypto 5 9 (js ''n'') (js ''inv'')
      \<lparr>bearer = None, cookie = Some (js ''t2''), state_changing = False, csrf_header = None\<rparr> sample_db)) \<noteq> None"
proof -
  let ?req = "\<lparr>bearer = None, cookie = Some (js ''t2''), state_changing = False, csrf_header = None\<rparr>"
  let ?s = "\<lparr>s_id = 2, s_user = 2, s_ws = None, s_hash = js ''t2'', s_expires = 100, s_revoked = False\<rparr>"
  let ?i = "\<lparr>i_id = 5, i_ws = 7, i_role = Admin, i_hash = js ''inv'', i_expires = 100, i_accepted = True, i_revoked = False\<rparr>"
  have "require_session sample_crypto 5 ?req sample_db = (Inr ?s, snd (get_session sample_crypto 5 (js ''t2'') sample_db))"
    by (simp add: access_eval)
  moreover have "first_row (\<lambda>i. i_hash i = sha256 sample_crypto (js ''inv''))
      (invites (snd (get_session sample_crypto 5 (js ''t2'') sample_db))) = Some ?i"
    by (simp add: access_eval)
  ultimately show ?thesis
    using invitation_is_reusable[of sample_crypto 5 ?req sample_db ?s _ "js ''inv''" ?i 9 "js ''n''"] by simp
qed

end
