(* ===== verification/AuditChain.thy ===== *)
theory AuditChain
  imports JsValue "HOL-Library.List_Lexorder"
begin

text \<open>
  The audit ledger: canonical JSON and the hash of an event
  (\<open>packages/shared/src/audit-events.ts\<close>), emission and verification of the hash chain
  (\<open>apps/server/src/audit/emit.ts\<close>) and the retention purge of audit rows
  (\<open>runRetentionPurge\<close> of \<open>apps/server/src/services/system-jobs.ts\<close>).

  SHA-256, as a function from the hashed text to lower-case hex, is the argument \<open>sha\<close>.  The
  metadata column gives back the value that was written, and the statements of one emission run
  without interleaving (the table's unique key on workspace and number makes a lost race fail).
\<close>

section \<open>Canonical JSON\<close>

fun canonical_json :: "jsval \<Rightarrow> jstr" where
  "canonical_json (JBool b) = (if b then js ''true'' else js ''false'')"
| "canonical_json (JNum n) = num_to_jstr n"
| "canonical_json (JStr s) = json_str s"
| "canonical_json (JArr vs) = js ''['' @ join (map canonical_json vs) (js '','') @ js '']''"
| "canonical_json (JObj kvs) =
     js ''{'' @
     join (map (\<lambda>e. json_str (fst e) @ js '':'' @ canonical_json (snd e))
            (sort_key fst (filter (\<lambda>e. snd e \<noteq> Undefined) (own_entries kvs)))) (js '','') @ js ''}''"
| "canonical_json ObjectProto = js ''{}''"
| "canonical_json _ = js ''null''"

definition compute_audit_hash :: "(jstr \<Rightarrow> jstr) \<Rightarrow> jstr \<Rightarrow> jsval \<Rightarrow> jstr" where
  "compute_audit_hash sha prev_hash data = sha (prev_hash @ canonical_json data)"

definition GENESIS_HASH :: jstr where
  "GENESIS_HASH = js ''e3b0c44298fc1c149afbf4c8996fb92427ae41e4649b934ca495991b7852b855''"

section \<open>Rows, emission, verification\<close>

record audit_event =
  ev_actor :: "jstr option"
  ev_action :: jstr
  ev_entity_type :: jstr
  ev_entity_id :: jstr
  ev_metadata :: entries

record audit_row =
  au_ws :: jstr
  au_seq :: nat
  au_event :: audit_event
  au_prev :: jstr
  au_hash :: jstr
  au_created :: int

definition hash_input :: "jstr \<Rightarrow> nat \<Rightarrow> audit_event \<Rightarrow> jstr \<Rightarrow> jsval" where
  "hash_input ws sequence ev prev = JObj
     [(js ''workspace_id'', JStr ws),
      (js ''sequence_num'', JNum (round_double (of_nat sequence))),
      (js ''actor_id'', case ev_actor ev of Some a \<Rightarrow> JStr a | None \<Rightarrow> Null),
      (js ''action'', JStr (ev_action ev)),
      (js ''entity_type'', JStr (ev_entity_type ev)),
      (js ''entity_id'', JStr (ev_entity_id ev)),
      (js ''metadata'', JObj (ev_metadata ev)),
      (js ''prev_hash'', JStr prev)]"

definition event_hash :: "(jstr \<Rightarrow> jstr) \<Rightarrow> jstr \<Rightarrow> nat \<Rightarrow> audit_event \<Rightarrow> jstr \<Rightarrow> jstr" where
  "event_hash sha ws sequence ev prev = compute_audit_hash sha prev (hash_input ws sequence ev prev)"

definition ws_rows :: "jstr \<Rightarrow> audit_row list \<Rightarrow> audit_row list" where
  "ws_rows ws rows = sort_key au_seq (filter (\<lambda>r. au_ws r = ws) rows)"

text \<open>\<open>ORDER BY sequence_num DESC LIMIT 1\<close>.\<close>

definition last_row :: "jstr \<Rightarrow> audit_row list \<Rightarrow> audit_row option" where
  "last_row ws rows = (case rev (ws_rows ws rows) of r # _ \<Rightarrow> Some r | [] \<Rightarrow> None)"

definition emit_audit_event ::
  "(jstr \<Rightarrow> jstr) \<Rightarrow> int \<Rightarrow> jstr \<Rightarrow> audit_event \<Rightarrow> audit_row list \<Rightarrow> audit_row list" where
  "emit_audit_event sha now ws ev rows =
     (let prev = (case last_row ws rows of Some r \<Rightarrow> au_hash r | None \<Rightarrow> GENESIS_HASH);
          sequence = (case last_row ws rows of Some r \<Rightarrow> au_seq r + 1 | None \<Rightarrow> 1)
      in rows @ [\<lparr>au_ws = ws, au_seq = sequence, au_event = ev, au_prev = prev,
                  au_hash = event_hash sha ws sequence ev prev, au_created = now\<rparr>])"

record verification_result =
  valid :: bool
  broken_at :: "nat option"
  checked_count :: nat
  truncated :: bool
  anchor_sequence_num :: "nat option"

fun verify_loop ::
  "(jstr \<Rightarrow> jstr) \<Rightarrow> jstr \<Rightarrow> verification_result \<Rightarrow> bool \<Rightarrow> jstr \<Rightarrow> audit_row list \<Rightarrow> verification_result" where
  "verify_loop sha ws ok is_anchor expected [] = ok"
| "verify_loop sha ws ok is_anchor expected (r # rs) =
     (if \<not> (is_anchor \<and> truncated ok) \<and> au_prev r \<noteq> expected
      then ok\<lparr>valid := False, broken_at := Some (au_seq r)\<rparr>
      else if event_hash sha ws (au_seq r) (au_event r) (au_prev r) \<noteq> au_hash r
      then ok\<lparr>valid := False, broken_at := Some (au_seq r)\<rparr>
      else verify_loop sha ws ok False (au_hash r) rs)"

definition verify_chain_rows :: "(jstr \<Rightarrow> jstr) \<Rightarrow> jstr \<Rightarrow> audit_row list \<Rightarrow> verification_result" where
  "verify_chain_rows sha ws rows =
     (case rows of
        [] \<Rightarrow> \<lparr>valid = True, broken_at = None, checked_count = 0, truncated = False, anchor_sequence_num = None\<rparr>
      | r # _ \<Rightarrow> verify_loop sha ws
          \<lparr>valid = True, broken_at = None, checked_count = length rows, truncated = au_seq r > 1,
           anchor_sequence_num = Some (au_seq r)\<rparr> True GENESIS_HASH rows)"

definition verify_audit_chain :: "(jstr \<Rightarrow> jstr) \<Rightarrow> jstr \<Rightarrow> audit_row list \<Rightarrow> verification_result" where
  "verify_audit_chain sha ws rows = verify_chain_rows sha ws (ws_rows ws rows)"

text \<open>Step 1 of \<open>runRetentionPurge\<close> for one workspace; \<open>cutoff\<close> is now less the retention.\<close>

definition purge_audit :: "jstr \<Rightarrow> int \<Rightarrow> audit_row list \<Rightarrow> audit_row list" where
  "purge_audit ws cutoff rows = filter (\<lambda>r. \<not> (au_ws r = ws \<and> au_created r < cutoff)) rows"

section \<open>The chain invariant\<close>

fun linked :: "(jstr \<Rightarrow> jstr) \<Rightarrow> jstr \<Rightarrow> audit_row list \<Rightarrow> bool" where
  "linked sha ws [] = True"
| "linked sha ws (r # rs) =
     (au_ws r = ws \<and> au_hash r = event_hash sha ws (au_seq r) (au_event r) (au_prev r) \<and>
      (case rs of [] \<Rightarrow> True
       | s # _ \<Rightarrow> au_prev s = au_hash r \<and> au_seq s = au_seq r + 1 \<and> au_created r \<le> au_created s) \<and>
      linked sha ws rs)"

definition anchored :: "audit_row list \<Rightarrow> bool" where
  "anchored rs \<longleftrightarrow> (case rs of [] \<Rightarrow> True
     | r # _ \<Rightarrow> 1 \<le> au_seq r \<and> (au_seq r = 1 \<longrightarrow> au_prev r = GENESIS_HASH))"

definition chain_ok :: "(jstr \<Rightarrow> jstr) \<Rightarrow> jstr \<Rightarrow> audit_row list \<Rightarrow> bool" where
  "chain_ok sha ws rows \<longleftrightarrow>
     (let rs = filter (\<lambda>r. au_ws r = ws) rows in linked sha ws rs \<and> anchored rs)"

lemma linked_seq_le: "linked sha ws (r # rs) \<Longrightarrow> s \<in> set rs \<Longrightarrow> au_seq r < au_seq s \<and> au_created r \<le> au_created s"
proof (induction rs arbitrary: r)
  case (Cons t rs)
  then show ?case by (cases "s = t") fastforce+
qed simp

lemma linked_sorted: "linked sha ws rs \<Longrightarrow> sort_key au_seq rs = rs"
proof (induction rs)
  case (Cons r rs)
  have "\<forall>s \<in> set rs. au_seq r \<le> au_seq s"
    using linked_seq_le[OF Cons.prems] less_imp_le by blast
  with Cons show ?case by (simp add: insort_is_Cons)
qed simp

lemma linked_snoc:
  "linked sha ws (rs @ [r]) \<longleftrightarrow> linked sha ws rs \<and> au_ws r = ws \<and>
     au_hash r = event_hash sha ws (au_seq r) (au_event r) (au_prev r) \<and>
     (rs \<noteq> [] \<longrightarrow> au_prev r = au_hash (last rs) \<and> au_seq r = au_seq (last rs) + 1 \<and> au_created (last rs) \<le> au_created r)"
  by (induction rs) (auto split: list.split)

lemma verify_loop_linked:
  "linked sha ws rs \<Longrightarrow> (rs \<noteq> [] \<longrightarrow> (is_anchor \<and> truncated ok) \<or> au_prev (hd rs) = expected) \<Longrightarrow>
     verify_loop sha ws ok is_anchor expected rs = ok"
proof (induction rs arbitrary: is_anchor expected)
  case (Cons r rs)
  from Cons.prems have "linked sha ws rs" "rs \<noteq> [] \<longrightarrow> au_prev (hd rs) = au_hash r"
    by (auto split: list.splits)
  with Cons show ?case by auto
qed simp

lemma chain_ok_valid:
  assumes "chain_ok sha ws rows"
  shows "valid (verify_audit_chain sha ws rows)"
proof -
  let ?rs = "filter (\<lambda>r. au_ws r = ws) rows"
  from assms have l: "linked sha ws ?rs" and a: "anchored ?rs" by (simp_all add: chain_ok_def Let_def)
  have "ws_rows ws rows = ?rs" using linked_sorted[OF l] by (simp add: ws_rows_def)
  moreover have "valid (verify_chain_rows sha ws ?rs)"
  proof (cases ?rs)
    case (Cons r rs)
    have "verify_loop sha ws ok True GENESIS_HASH ?rs = ok" if "truncated ok = (1 < au_seq r)" for ok
      using verify_loop_linked[OF l, of True ok GENESIS_HASH] a that
      by (auto simp: Cons anchored_def)
    then show ?thesis by (simp add: verify_chain_rows_def Cons)
  qed (simp add: verify_chain_rows_def)
  ultimately show ?thesis by (simp add: verify_audit_chain_def)
qed

lemma last_row_ok:
  assumes "chain_ok sha ws rows"
  shows "last_row ws rows = (let rs = filter (\<lambda>r. au_ws r = ws) rows in if rs = [] then None else Some (last rs))"
proof -
  let ?rs = "filter (\<lambda>r. au_ws r = ws) rows"
  have "ws_rows ws rows = ?rs"
    using assms linked_sorted[of sha ws ?rs] by (simp add: ws_rows_def chain_ok_def Let_def)
  then show ?thesis
    by (cases ?rs rule: rev_cases) (simp_all add: last_row_def)
qed

lemma emit_chain_ok:
  assumes "chain_ok sha w rows" "chain_ok sha ws rows" "\<forall>r \<in> set rows. au_created r \<le> now"
  shows "chain_ok sha w (emit_audit_event sha now ws ev rows)"
proof (cases "w = ws")
  case False
  with assms(1) show ?thesis by (simp add: chain_ok_def emit_audit_event_def Let_def)
next
  case True
  let ?rs = "filter (\<lambda>r. au_ws r = ws) rows"
  have "linked sha ws ?rs" "anchored ?rs" using assms(2) by (simp_all add: chain_ok_def Let_def)
  moreover have "au_created (last ?rs) \<le> now" if "?rs \<noteq> []"
    using assms(3) last_in_set[OF that] by auto
  ultimately show ?thesis
    using True last_row_ok[OF assms(2)]
    by (auto simp: chain_ok_def emit_audit_event_def Let_def linked_snoc anchored_def split: list.splits)
qed

lemma linked_drop: "linked sha ws rs \<Longrightarrow> linked sha ws (drop k rs)"
  by (induction rs arbitrary: k) (auto simp: drop_Cons split: nat.split)

lemma linked_filter_created:
  assumes "linked sha ws rs"
  shows "\<exists>k. filter (\<lambda>r. \<not> au_created r < c) rs = drop k rs"
  using assms
proof (induction rs)
  case (Cons r rs)
  show ?case
  proof (cases "au_created r < c")
    case True
    from Cons obtain k where "filter (\<lambda>r. \<not> au_created r < c) rs = drop k rs" by auto
    with True have "filter (\<lambda>r. \<not> au_created r < c) (r # rs) = drop (Suc k) (r # rs)" by simp
    then show ?thesis by blast
  next
    case False
    then have "\<forall>s \<in> set rs. \<not> au_created s < c" using linked_seq_le[OF Cons.prems] by fastforce
    with False have "filter (\<lambda>r. \<not> au_created r < c) (r # rs) = drop 0 (r # rs)" by (simp add: filter_id_conv)
    then show ?thesis by blast
  qed
qed simp

lemma anchored_drop: "linked sha ws rs \<Longrightarrow> anchored rs \<Longrightarrow> anchored (drop k rs)"
proof (cases k)
  case (Suc j)
  assume l: "linked sha ws rs" and a: "anchored rs"
  have "\<forall>s \<in> set (drop (Suc j) rs). 1 < au_seq s"
  proof
    fix s assume "s \<in> set (drop (Suc j) rs)"
    then obtain r rs' where rs: "rs = r # rs'" "s \<in> set rs'"
      by (cases rs) (auto dest: in_set_dropD)
    with linked_seq_le[of sha ws r rs' s] l a show "1 < au_seq s" by (auto simp: anchored_def)
  qed
  then show ?thesis by (auto simp: Suc anchored_def split: list.split)
qed simp

lemma purge_chain_ok:
  assumes "chain_ok sha w rows"
  shows "chain_ok sha w (purge_audit ws c rows)"
proof (cases "w = ws")
  case False
  then have "filter (\<lambda>r. au_ws r = w) (purge_audit ws c rows) = filter (\<lambda>r. au_ws r = w) rows"
    by (auto simp: purge_audit_def intro: filter_cong)
  with assms show ?thesis by (simp add: chain_ok_def)
next
  case True
  let ?rs = "filter (\<lambda>r. au_ws r = ws) rows"
  have l: "linked sha ws ?rs" and a: "anchored ?rs" using assms True by (simp_all add: chain_ok_def Let_def)
  have "filter (\<lambda>r. au_ws r = ws) (purge_audit ws c rows) = filter (\<lambda>r. \<not> au_created r < c) ?rs"
    by (auto simp: purge_audit_def intro: filter_cong)
  moreover obtain k where "filter (\<lambda>r. \<not> au_created r < c) ?rs = drop k ?rs"
    using linked_filter_created[OF l] by blast
  ultimately show ?thesis
    using True linked_drop[OF l, of k] anchored_drop[OF l a, of k] by (simp add: chain_ok_def)
qed

section \<open>Tamper evidence\<close>

text \<open>The text that is hashed for a row.\<close>

definition row_text :: "jstr \<Rightarrow> audit_row \<Rightarrow> jstr" where
  "row_text ws r = au_prev r @ canonical_json (hash_input ws (au_seq r) (au_event r) (au_prev r))"

fun hash_linked :: "(jstr \<Rightarrow> jstr) \<Rightarrow> jstr \<Rightarrow> jstr \<Rightarrow> audit_row list \<Rightarrow> bool" where
  "hash_linked sha ws expected [] = True"
| "hash_linked sha ws expected (r # rs) =
     (au_prev r = expected \<and> au_hash r = sha (row_text ws r) \<and> hash_linked sha ws (au_hash r) rs)"

lemma verify_loop_hash_linked:
  "valid (verify_loop sha ws ok is_anchor expected rs) \<Longrightarrow> \<not> (is_anchor \<and> truncated ok) \<Longrightarrow>
     hash_linked sha ws expected rs"
  by (induction rs arbitrary: is_anchor expected)
    (auto simp: row_text_def event_hash_def compute_audit_hash_def split: if_splits)

lemma hash_linked_snoc:
  "hash_linked sha ws g (rs @ [r]) \<longleftrightarrow> hash_linked sha ws g rs \<and>
     au_prev r = (if rs = [] then g else au_hash (last rs)) \<and> au_hash r = sha (row_text ws r)"
  by (induction rs arbitrary: g) auto

lemma hash_linked_unique:
  assumes "\<And>x. length (sha x) = 64" "length g = 64"
  shows "hash_linked sha ws g rs \<Longrightarrow> hash_linked sha ws g rs' \<Longrightarrow> length rs = length rs' \<Longrightarrow>
    (rs \<noteq> [] \<longrightarrow> au_hash (last rs) = au_hash (last rs')) \<Longrightarrow>
    inj_on sha (row_text ws ` (set rs \<union> set rs')) \<Longrightarrow> map (row_text ws) rs = map (row_text ws) rs'"
proof (induction rs arbitrary: rs' rule: rev_induct)
  case (snoc r rs)
  from snoc.prems(3) obtain ss s where rs': "rs' = ss @ [s]" by (cases rs' rule: rev_cases) auto
  note H = snoc.prems[unfolded rs' hash_linked_snoc]
  have "sha (row_text ws r) = sha (row_text ws s)" using H by simp
  then have t: "row_text ws r = row_text ws s" by (rule inj_onD[OF H(5)]) auto
  have len: "length (au_prev x) = 64" if "hash_linked sha ws g xs"
      "au_prev x = (if xs = [] then g else au_hash (last xs))" for x xs
    using that assms by (cases xs rule: rev_cases) (auto simp: hash_linked_snoc)
  have "au_prev r = au_prev s"
    using t len[of rs r] len[of ss s] H(1,2) by (simp add: row_text_def)
  then have "rs \<noteq> [] \<longrightarrow> au_hash (last rs) = au_hash (last ss)"
    using H(1-3) by (auto split: if_splits)
  moreover have "inj_on sha (row_text ws ` (set rs \<union> set ss))"
    using H(5) by (rule inj_on_subset) auto
  ultimately have "map (row_text ws) rs = map (row_text ws) ss"
    using snoc.IH[of ss] H(1-3) by simp
  with t show ?case by (simp add: rs')
qed simp

section \<open>Properties\<close>

inductive audit_step :: "(jstr \<Rightarrow> jstr) \<Rightarrow> audit_row list \<Rightarrow> audit_row list \<Rightarrow> bool" for sha where
  emit: "\<forall>r \<in> set rows. au_created r \<le> now \<Longrightarrow> audit_step sha rows (emit_audit_event sha now ws ev rows)"
| purge: "audit_step sha rows (purge_audit ws cutoff rows)"

lemma audit_steps_ok: "(audit_step sha)\<^sup>*\<^sup>* [] rows \<Longrightarrow> chain_ok sha ws rows"
proof (induction arbitrary: ws rule: rtranclp_induct)
  case (step rows rows')
  from step.hyps(2) show ?case
    by cases (auto intro: emit_chain_ok purge_chain_ok step.IH)
qed (simp add: chain_ok_def anchored_def)


definition sample_event :: audit_event where
  "sample_event = \<lparr>ev_actor = None, ev_action = js ''run.created'', ev_entity_type = js ''run'',
     ev_entity_id = js ''r1'', ev_metadata = []\<rparr>"


text \<open>
  The newest hash fixes the history: two untruncated chains of one workspace that both verify,
  with as many rows and the same last hash, hash the same texts row by row, unless two of those
  texts collide.  So an edited, swapped or replaced row is found out.
\<close>

theorem audit_history_determined:
  assumes "\<And>x. length (sha x) = 64"
    and "valid (verify_chain_rows sha ws rs)" and "valid (verify_chain_rows sha ws rs')"
    and "rs \<noteq> []" and "au_seq (hd rs) = 1" and "length rs' = length rs" and "au_seq (hd rs') = 1"
    and "au_hash (last rs') = au_hash (last rs)"
    and "inj_on sha (row_text ws ` (set rs \<union> set rs'))"
  shows "map (row_text ws) rs' = map (row_text ws) rs"
proof -
  have link: "hash_linked sha ws GENESIS_HASH xs"
    if "valid (verify_chain_rows sha ws xs)" "au_seq (hd xs) = 1" "xs \<noteq> []" for xs
    using that by (cases xs) (auto simp: verify_chain_rows_def dest!: verify_loop_hash_linked simp del: verify_loop.simps)
  have "rs' \<noteq> []" using assms(4,6) by auto
  then have "map (row_text ws) rs = map (row_text ws) rs'"
    using hash_linked_unique[of sha GENESIS_HASH ws rs rs'] link assms
    by (simp add: GENESIS_HASH_def)
  then show ?thesis ..
qed

theorem audit_history_determined_witness:
  "map (row_text (js ''w'')) (emit_audit_event (\<lambda>x. replicate 64 0) 5 (js ''w'') sample_event []) =
   map (row_text (js ''w'')) (emit_audit_event (\<lambda>x. replicate 64 0) 5 (js ''w'') sample_event [])"
  by (rule audit_history_determined[where sha = "\<lambda>x. replicate 64 0"])
    (simp_all add: emit_audit_event_def last_row_def ws_rows_def verify_chain_rows_def event_hash_def
      compute_audit_hash_def)

end
