(* ===== verification/Cron.thy ===== *)
theory Cron
  imports JsNumber
begin

text \<open>
  Five-field cron expressions, \<open>apps/server/src/lib/cron.ts\<close>.  A time is in milliseconds since
  the epoch, UTC; a day is its number since the epoch.  \<open>civil\<close> is the proleptic Gregorian
  calendar of the language's \<open>Date\<close>.  A field's set of values is a list without repetitions, a
  thrown error is \<open>None\<close>.
\<close>

section \<open>The calendar\<close>

definition MS_PER_DAY :: int where "MS_PER_DAY = 86400000"

definition day_of :: "int \<Rightarrow> int" where
  "day_of t = t div MS_PER_DAY"

text \<open>Year, month (1 to 12) and day of the month of a day number.\<close>

definition civil :: "int \<Rightarrow> int \<times> int \<times> int" where
  "civil day =
     (let z = day + 719468; era = z div 146097; doe = z mod 146097;
          yoe = (doe - doe div 1460 + doe div 36524 - doe div 146096) div 365;
          doy = doe - (365 * yoe + yoe div 4 - yoe div 100);
          mp = (5 * doy + 2) div 153;
          d = doy - (153 * mp + 2) div 5 + 1;
          m = (if mp < 10 then mp + 3 else mp - 9);
          y = yoe + era * 400 + (if m \<le> 2 then 1 else 0)
      in (y, m, d))"

definition month_of :: "int \<Rightarrow> nat" where "month_of day = nat (fst (snd (civil day)))"
definition dom_of :: "int \<Rightarrow> nat" where "dom_of day = nat (snd (snd (civil day)))"

text \<open>The epoch was a Thursday.\<close>

definition dow_of :: "int \<Rightarrow> nat" where "dow_of day = nat ((day + 4) mod 7)"

section \<open>Parsing\<close>

definition FIELD_LIMITS :: "(nat \<times> nat) list" where
  "FIELD_LIMITS = [(0, 59), (0, 23), (1, 31), (1, 12), (0, 7)]"

text \<open>Text of digits only.\<close>

definition number_text :: "jstr \<Rightarrow> nat option" where
  "number_text s = (if s \<noteq> [] \<and> list_all is_digit s then Some (digits_val s) else None)"

text \<open>\<open>/^(\d+)-(\d+)$/\<close>.\<close>

definition range_text :: "jstr \<Rightarrow> (nat \<times> nat) option" where
  "range_text s =
     (case dropWhile is_digit s of
        c # rest \<Rightarrow> if c = cu CHR ''-'' then
            (case (number_text (takeWhile is_digit s), number_text rest) of
               (Some lo, Some hi) \<Rightarrow> Some (lo, hi) | _ \<Rightarrow> None)
          else None
      | [] \<Rightarrow> None)"

text \<open>One piece of a field's comma list.\<close>

definition parse_piece :: "nat \<Rightarrow> nat \<Rightarrow> jstr \<Rightarrow> nat list option" where
  "parse_piece mn mx piece =
     (if piece = js ''*'' then Some [mn..<Suc mx]
      else if starts_with piece (js ''*/'') \<and> number_text (drop 2 piece) \<noteq> None then
        (let step = the (number_text (drop 2 piece)) in
         if step < 1 \<or> step > mx then None
         else Some (filter (\<lambda>v. (v - mn) mod step = 0) [mn..<Suc mx]))
      else case range_text piece of
        Some (lo, hi) \<Rightarrow> if lo < mn \<or> hi > mx \<or> lo > hi then None else Some [lo..<Suc hi]
      | None \<Rightarrow> (case number_text piece of
          Some v \<Rightarrow> if v < mn \<or> v > mx then None else Some [v]
        | None \<Rightarrow> None))"

fun parse_pieces :: "nat \<Rightarrow> nat \<Rightarrow> jstr list \<Rightarrow> nat list \<Rightarrow> nat list option" where
  "parse_pieces mn mx [] vals = Some vals"
| "parse_pieces mn mx (p # ps) vals =
     (case parse_piece mn mx p of
        None \<Rightarrow> None
      | Some vs \<Rightarrow> parse_pieces mn mx ps (vals @ filter (\<lambda>v. v \<notin> set vals) vs))"

definition parse_cron_field :: "jstr \<Rightarrow> nat \<times> nat \<Rightarrow> nat list option" where
  "parse_cron_field field bnd = parse_pieces (fst bnd) (snd bnd) (str_split field (js '','')) []"

record cron_fields =
  mins :: "nat list"
  hours :: "nat list"
  doms :: "nat list"
  months :: "nat list"
  dows :: "nat list"

definition parse_cron_field_list :: "jstr \<Rightarrow> cron_fields option" where
  "parse_cron_field_list expr =
     (let parts = split_ws (trim expr) in
      if length parts \<noteq> 5 then None
      else case map (\<lambda>(f, bnd). parse_cron_field f bnd) (zip parts FIELD_LIMITS) of
        [Some a, Some b, Some c, Some d, Some e] \<Rightarrow>
          Some \<lparr>mins = a, hours = b, doms = c, months = d, dows = e\<rparr>
      | _ \<Rightarrow> None)"

definition is_valid_cron :: "jstr \<Rightarrow> bool" where
  "is_valid_cron expr \<longleftrightarrow> parse_cron_field_list expr \<noteq> None"

section \<open>The next occurrence\<close>

definition dom_constrained :: "cron_fields \<Rightarrow> bool" where
  "dom_constrained f \<longleftrightarrow> length (doms f) \<noteq> 31"

definition dow_constrained :: "cron_fields \<Rightarrow> bool" where
  "dow_constrained f \<longleftrightarrow>
     \<not> (0 \<in> set (dows f) \<and> 1 \<in> set (dows f) \<and> 2 \<in> set (dows f) \<and> 3 \<in> set (dows f) \<and>
        4 \<in> set (dows f) \<and> 5 \<in> set (dows f) \<and> 6 \<in> set (dows f)) \<and>
     7 \<notin> set (dows f)"

definition day_ok :: "cron_fields \<Rightarrow> int \<Rightarrow> bool" where
  "day_ok f day \<longleftrightarrow> month_of day \<in> set (months f) \<and>
     ((\<not> dom_constrained f \<and> \<not> dow_constrained f) \<or>
      (dom_constrained f \<and> dom_of day \<in> set (doms f)) \<or>
      (dow_constrained f \<and> dow_of day \<in> set (dows f)))"

definition at_time :: "int \<Rightarrow> nat \<Rightarrow> nat \<Rightarrow> int" where
  "at_time day h m = day * MS_PER_DAY + int h * 3600000 + int m * 60000"

text \<open>The two loops over the hours and minutes of a day.\<close>

definition first_in_day :: "cron_fields \<Rightarrow> int \<Rightarrow> int \<Rightarrow> int option" where
  "first_in_day f from day =
     List.find (\<lambda>t. from < t)
       (concat (map (\<lambda>h. map (at_time day h) (filter (\<lambda>m. m \<in> set (mins f)) [0..<60]))
         (filter (\<lambda>h. h \<in> set (hours f)) [0..<24])))"

primrec search_days :: "cron_fields \<Rightarrow> int \<Rightarrow> nat \<Rightarrow> int \<Rightarrow> int option" where
  "search_days f from 0 day = None"
| "search_days f from (Suc n) day =
     (case (if day_ok f day then first_in_day f from day else None) of
        Some t \<Rightarrow> Some t
      | None \<Rightarrow> search_days f from n (day + 1))"

definition compute_next_fire :: "jstr \<Rightarrow> int \<Rightarrow> int option" where
  "compute_next_fire expr from =
     (case parse_cron_field_list expr of
        None \<Rightarrow> None
      | Some f \<Rightarrow> search_days f from (366 * 6) (day_of (from + 60000)))"

section \<open>What an occurrence is\<close>

text \<open>An instant on a full minute whose minute, hour and day match the fields.\<close>

definition occurs :: "cron_fields \<Rightarrow> int \<Rightarrow> bool" where
  "occurs f t \<longleftrightarrow> t mod 60000 = 0 \<and> nat (t mod 3600000 div 60000) \<in> set (mins f) \<and>
     nat (t mod MS_PER_DAY div 3600000) \<in> set (hours f) \<and> day_ok f (day_of t)"

lemma divide_unique:
  fixes a b c :: int
  assumes "0 \<le> b" "b < c"
  shows "(a * c + b) mod c = b" "(a * c + b) div c = a"
  using assms by simp_all

lemma div_less_bound:
  fixes x k c :: int
  assumes "x < k * c" "0 < c"
  shows "x div c < k"
proof (rule ccontr)
  assume "\<not> x div c < k"
  then have "k * c \<le> x div c * c" using assms(2) by (intro mult_right_mono) auto
  also have "\<dots> \<le> x" using div_mult_mod_eq[of x c] pos_mod_sign[OF assms(2), of x] by linarith
  finally show False using assms(1) by simp
qed

lemma at_time_parts:
  assumes "h < 24" "m < 60"
  shows "at_time day h m mod 60000 = 0" "nat (at_time day h m mod 3600000 div 60000) = m"
    "nat (at_time day h m mod MS_PER_DAY div 3600000) = h" "day_of (at_time day h m) = day"
proof -
  have h: "0 \<le> int h" "int h < 24" and m: "0 \<le> int m" "int m < 60" using assms by auto
  have "at_time day h m = (day * 1440 + int h * 60 + int m) * 60000" by (simp add: at_time_def MS_PER_DAY_def)
  then show "at_time day h m mod 60000 = 0" by simp
  have e: "at_time day h m = (day * 24 + int h) * 3600000 + int m * 60000" by (simp add: at_time_def MS_PER_DAY_def)
  have "at_time day h m mod 3600000 = int m * 60000"
    unfolding e by (rule divide_unique) (use m in linarith)+
  then show "nat (at_time day h m mod 3600000 div 60000) = m" by simp
  define r where "r = int h * 3600000 + int m * 60000"
  have e2: "at_time day h m = day * MS_PER_DAY + r" by (simp add: at_time_def r_def)
  have r: "0 \<le> r" "r < MS_PER_DAY" using h m by (simp_all add: r_def MS_PER_DAY_def)
  have "r div 3600000 = int h" unfolding r_def by (rule divide_unique) (use m in linarith)+
  then show "nat (at_time day h m mod MS_PER_DAY div 3600000) = h"
    unfolding e2 divide_unique(1)[OF r] by simp
  show "day_of (at_time day h m) = day"
    unfolding e2 day_of_def divide_unique(2)[OF r] ..
qed

lemma at_time_of:
  assumes "t mod 60000 = 0"
  shows "t = at_time (day_of t) (nat (t mod MS_PER_DAY div 3600000)) (nat (t mod 3600000 div 60000))"
    and "nat (t mod MS_PER_DAY div 3600000) < 24" and "nat (t mod 3600000 div 60000) < 60"
proof -
  let ?d = "t mod MS_PER_DAY" and ?h = "t mod 3600000"
  have a: "t = day_of t * MS_PER_DAY + ?d" by (simp add: day_of_def)
  have b: "?d = ?d div 3600000 * 3600000 + ?d mod 3600000" by simp
  have c: "?d mod 3600000 = ?h" by (simp add: MS_PER_DAY_def mod_mod_cancel)
  have "?h mod 60000 = 0" using assms by (simp add: mod_mod_cancel)
  then have d: "?h = ?h div 60000 * 60000" using div_mult_mod_eq[of ?h 60000] by simp
  have dn: "0 \<le> ?d" "?d < 24 * 3600000" and hn: "0 \<le> ?h" "?h < 60 * 60000"
    by (simp_all add: MS_PER_DAY_def)
  then have p: "0 \<le> ?d div 3600000" "0 \<le> ?h div 60000" by (simp_all add: pos_imp_zdiv_nonneg_iff)
  show "t = at_time (day_of t) (nat (?d div 3600000)) (nat (?h div 60000))"
    using a b c d p by (simp add: at_time_def)
  show "nat (?d div 3600000) < 24" "nat (?h div 60000) < 60"
    using div_less_bound[OF dn(2)] div_less_bound[OF hn(2)] p by linarith+
qed

section \<open>The search finds the first occurrence\<close>

lemma in_day_times:
  "t \<in> set (concat (map (\<lambda>h. map (at_time day h) (filter (\<lambda>m. m \<in> set (mins f)) [0..<60]))
         (filter (\<lambda>h. h \<in> set (hours f)) [0..<24]))) \<longleftrightarrow>
   (\<exists>h m. h < 24 \<and> m < 60 \<and> h \<in> set (hours f) \<and> m \<in> set (mins f) \<and> t = at_time day h m)"
  by auto

lemma sorted_map_at_time: "sorted ms \<Longrightarrow> sorted (map (at_time day h) ms)"
  by (induction ms) (auto simp: at_time_def)

lemma sorted_in_day:
  "sorted hs \<Longrightarrow> distinct hs \<Longrightarrow> sorted ms \<Longrightarrow> \<forall>m \<in> set ms. m < 60 \<Longrightarrow>
     sorted (concat (map (\<lambda>h. map (at_time day h) ms) hs))"
proof (induction hs)
  case (Cons h hs)
  have "at_time day h m \<le> at_time day h' m'" if "h' \<in> set hs" "m \<in> set ms" "m' \<in> set ms" for h' m m'
  proof -
    have "Suc h \<le> h'" using Cons.prems(1,2) that(1) by (metis Suc_leI distinct.simps(2) le_neq_implies_less sorted_wrt.simps(2))
    then have "int h + 1 \<le> int h'" by simp
    moreover have "int m \<le> 59" using Cons.prems(4) that(2) by fastforce
    moreover have "0 \<le> int m'" by simp
    ultimately show ?thesis unfolding at_time_def by linarith
  qed
  then show ?case using Cons by (auto simp: sorted_append sorted_map_at_time)
qed simp

lemma find_sorted:
  "List.find P xs = Some x \<Longrightarrow> sorted xs \<Longrightarrow> x \<in> set xs \<and> P x \<and> (\<forall>y \<in> set xs. P y \<longrightarrow> x \<le> (y::int))"
  by (induction xs) (auto split: if_splits)

lemma first_in_day_Some:
  assumes "first_in_day f from day = Some t" "day_ok f day"
  shows "from < t \<and> occurs f t \<and> day_of t = day \<and> (\<forall>u. from < u \<and> occurs f u \<and> day_of u = day \<longrightarrow> t \<le> u)"
proof -
  let ?ts = "concat (map (\<lambda>h. map (at_time day h) (filter (\<lambda>m. m \<in> set (mins f)) [0..<60]))
         (filter (\<lambda>h. h \<in> set (hours f)) [0..<24]))"
  have "sorted ?ts" by (rule sorted_in_day) (auto intro: sorted_wrt_filter)
  with assms(1) have t: "t \<in> set ?ts" "from < t" "\<forall>y \<in> set ?ts. from < y \<longrightarrow> t \<le> y"
    unfolding first_in_day_def by (auto dest: find_sorted simp del: set_concat)
  from t(1) obtain h m where "h < 24" "m < 60" "h \<in> set (hours f)" "m \<in> set (mins f)" "t = at_time day h m"
    unfolding in_day_times by blast
  then have "occurs f t" "day_of t = day"
    using at_time_parts[of h m day] assms(2) by (simp_all add: occurs_def)
  moreover have "u \<in> set ?ts" if "occurs f u" "day_of u = day" for u
    unfolding in_day_times using that at_time_of[of u] by (auto simp: occurs_def)
  ultimately show ?thesis using t by blast
qed

lemma first_in_day_None:
  assumes "first_in_day f from day = None" "from < u" "occurs f u"
  shows "day_of u \<noteq> day"
proof
  assume "day_of u = day"
  with assms(3) have "u \<in> set (concat (map (\<lambda>h. map (at_time day h) (filter (\<lambda>m. m \<in> set (mins f)) [0..<60]))
         (filter (\<lambda>h. h \<in> set (hours f)) [0..<24])))"
    unfolding in_day_times using at_time_of[of u] by (auto simp: occurs_def)
  with assms(1,2) show False by (auto simp: first_in_day_def find_None_iff)
qed

lemma search_days_Some:
  "search_days f from n day = Some t \<Longrightarrow>
     from < t \<and> occurs f t \<and> (\<forall>u. from < u \<and> occurs f u \<and> day \<le> day_of u \<longrightarrow> t \<le> u)"
proof (induction n arbitrary: day)
  case (Suc n)
  show ?case
  proof (cases "if day_ok f day then first_in_day f from day else None")
    case None
    then have no: "day_of u \<noteq> day" if "from < u" "occurs f u" for u
      using that first_in_day_None[of f "from" day u] by (auto simp: occurs_def split: if_splits)
    from Suc.prems None have "search_days f from n (day + 1) = Some t" by simp
    from Suc.IH[OF this] no show ?thesis
      by (metis dual_order.antisym int_one_le_iff_zero_less le_add_same_cancel1 not_less zless_imp_add1_zle)
  next
    case (Some x)
    with Suc.prems have "x = t" "day_ok f day" "first_in_day f from day = Some t" by (auto split: if_splits)
    note t = first_in_day_Some[OF this(3,2)]
    have "t \<le> u" if "from < u" "occurs f u" "day < day_of u" for u
    proof -
      have "day_of t < day_of u" using t that(3) by simp
      then show ?thesis by (metis day_of_def le_less_linear less_le_not_le order.asym zdiv_mono1 MS_PER_DAY_def zero_less_numeral)
    qed
    with t show ?thesis by (metis less_le)
  qed
qed simp

section \<open>Properties\<close>


lemma minute_past_midnight:
  "parse_cron_field_list (js ''1 0 * * *'') = Some \<lparr>mins = [1], hours = [0], doms = [1..<32], months = [1..<13], dows = [0..<8]\<rparr>"
    (is "_ = Some ?f")
  "compute_next_fire (js ''1 0 * * *'') 0 = Some 60000"
proof -
  show p: "parse_cron_field_list (js ''1 0 * * *'') = Some ?f"
    by (simp add: parse_cron_field_list_def split_ws.simps trim_def is_space_def FIELD_LIMITS_def
        parse_cron_field_def str_split_def starts_with_def parse_piece_def filter_id_conv number_text_def
        range_text_def is_digit_def digits_val_def digit_val_def)
  have "filter (\<lambda>h. h = 0) [0..<24] = [0::nat]" "filter (\<lambda>m. m = Suc 0) [0..<60] = [1]" by code_simp+
  then have "first_in_day ?f 0 0 = Some 60000"
    by (simp add: first_in_day_def at_time_def)
  moreover have "month_of 0 = 1" by code_simp
  then have "day_ok ?f 0" by (simp add: day_ok_def dom_constrained_def dow_constrained_def)
  ultimately have "search_days ?f 0 (Suc 2195) 0 = Some 60000"
    by (simp only: search_days.simps if_True option.case)
  moreover have "366 * 6 = Suc 2195" by simp
  ultimately have "search_days ?f 0 (366 * 6) 0 = Some 60000" by (simp only:)
  then show "compute_next_fire (js ''1 0 * * *'') 0 = Some 60000"
    unfolding compute_next_fire_def p option.case day_of_def MS_PER_DAY_def by simp
qed


text \<open>
  With 7 as its day of week an expression is not restricted to Sundays: the field counts as
  unconstrained, so \<open>0 9 * * 7\<close> fires on every day of its months, for one on the first day of 1970,
  a Thursday.
\<close>

theorem dow_seven_fires_every_day:
  "\<exists>f. parse_cron_field_list (js ''0 9 * * 7'') = Some f \<and> dows f = [7] \<and>
      (\<forall>day. day_ok f day \<longleftrightarrow> month_of day \<in> {1..12}) \<and>
      compute_next_fire (js ''0 9 * * 7'') 0 = Some 32400000 \<and> dow_of (day_of 32400000) = 4"
proof -
  let ?f = "\<lparr>mins = [0], hours = [9], doms = [1..<32], months = [1..<13], dows = [7]\<rparr>"
  have p: "parse_cron_field_list (js ''0 9 * * 7'') = Some ?f"
    by (simp add: parse_cron_field_list_def split_ws.simps trim_def is_space_def FIELD_LIMITS_def
        parse_cron_field_def str_split_def starts_with_def parse_piece_def filter_id_conv number_text_def
        range_text_def is_digit_def digits_val_def digit_val_def)
  moreover have ok: "day_ok ?f day \<longleftrightarrow> month_of day \<in> {1..12}" for day
    by (auto simp: day_ok_def dom_constrained_def dow_constrained_def)
  moreover have "compute_next_fire (js ''0 9 * * 7'') 0 = Some 32400000"
  proof -
    have "filter (\<lambda>h. h = 9) [0..<24] = [9::nat]" "filter (\<lambda>m. m = 0) [0..<60] = [0::nat]" by code_simp+
    then have "first_in_day ?f 0 0 = Some 32400000" by (simp add: first_in_day_def at_time_def)
    moreover have "month_of 0 = 1" by code_simp
    then have "day_ok ?f 0" unfolding ok by simp
    ultimately have "search_days ?f 0 (Suc 2195) 0 = Some 32400000"
      by (simp only: search_days.simps if_True option.case)
    moreover have "366 * 6 = Suc 2195" by simp
    ultimately have "search_days ?f 0 (366 * 6) 0 = Some 32400000" by (simp only:)
    then show ?thesis
      unfolding compute_next_fire_def p option.case day_of_def MS_PER_DAY_def by simp
  qed
  moreover have "dow_of (day_of 32400000) = 4" by (simp add: dow_of_def day_of_def MS_PER_DAY_def)
  ultimately show ?thesis by auto
qed

end
