(* ===== verification/Plans.thy ===== *)
theory Plans
  imports Prelude
begin

text \<open>
  Plans and what they entitle to: the plan table (\<open>packages/shared/src/plans.ts\<close>), the
  entitlement checks (\<open>apps/server/src/auth/entitlements.ts\<close>), the numbers of the usage route
  (\<open>apps/server/src/routes/usage.ts\<close>) and the closing of a billing period
  (\<open>apps/server/src/services/system-jobs.ts\<close>).  A null column is \<open>None\<close>.
\<close>

section \<open>The plan table\<close>

datatype feature =
    CredentialVault | AuditLog | ManualApproval | WebhookTriggers | ScheduleTriggers | ApiTokens

record plan =
  plan_id :: string
  price_cents :: nat
  run_limit :: "nat option"
  seat_limit :: "nat option"
  overage_rate_cents :: "nat option"
  run_history_days :: "nat option"
  audit_retention_days :: "nat option"
  workflow_timeout_hours :: "nat option"
  rate_limit_per_min :: "nat option"
  concurrency_limit :: "nat option"
  feature_flags :: "feature list"

definition all_features :: "feature list" where
  "all_features = [CredentialVault, AuditLog, ManualApproval, WebhookTriggers, ScheduleTriggers, ApiTokens]"

definition community :: plan where
  "community = \<lparr>plan_id = ''community'', price_cents = 0, run_limit = None, seat_limit = Some 1,
     overage_rate_cents = None, run_history_days = None, audit_retention_days = None,
     workflow_timeout_hours = None, rate_limit_per_min = None, concurrency_limit = None,
     feature_flags = [CredentialVault, ManualApproval, WebhookTriggers, ScheduleTriggers, ApiTokens]\<rparr>"

definition free :: plan where
  "free = \<lparr>plan_id = ''free'', price_cents = 0, run_limit = Some 500, seat_limit = Some 1,
     overage_rate_cents = None, run_history_days = Some 7, audit_retention_days = None,
     workflow_timeout_hours = Some 1, rate_limit_per_min = Some 120, concurrency_limit = Some 1,
     feature_flags = [WebhookTriggers, ScheduleTriggers, ApiTokens]\<rparr>"

definition pro :: plan where
  "pro = \<lparr>plan_id = ''pro'', price_cents = 2900, run_limit = Some 10000, seat_limit = Some 5,
     overage_rate_cents = Some 3, run_history_days = Some 90, audit_retention_days = Some 90,
     workflow_timeout_hours = Some 6, rate_limit_per_min = Some 600, concurrency_limit = Some 5,
     feature_flags = all_features\<rparr>"

definition studio :: plan where
  "studio = \<lparr>plan_id = ''studio'', price_cents = 9900, run_limit = Some 50000, seat_limit = None,
     overage_rate_cents = Some 15, run_history_days = Some 396, audit_retention_days = Some 365,
     workflow_timeout_hours = Some 24, rate_limit_per_min = Some 2000, concurrency_limit = Some 20,
     feature_flags = all_features\<rparr>"

definition demo :: plan where
  "demo = \<lparr>plan_id = ''demo'', price_cents = 0, run_limit = None, seat_limit = Some 1,
     overage_rate_cents = None, run_history_days = None, audit_retention_days = None,
     workflow_timeout_hours = Some 24, rate_limit_per_min = Some 2000, concurrency_limit = Some 5,
     feature_flags = all_features\<rparr>"

definition PLAN_DEFINITIONS :: "plan list" where
  "PLAN_DEFINITIONS = [community, free, pro, studio, demo]"

definition get_plan_definition :: "string \<Rightarrow> plan option" where
  "get_plan_definition i = List.find (\<lambda>p. plan_id p = i) PLAN_DEFINITIONS"

lemmas plan_defs = PLAN_DEFINITIONS_def community_def free_def pro_def studio_def demo_def

lemma get_plan_in: "get_plan_definition i = Some p \<Longrightarrow> p \<in> set PLAN_DEFINITIONS \<and> plan_id p = i"
  by (auto simp: get_plan_definition_def find_Some_iff in_set_conv_nth)

section \<open>Entitlements\<close>

definition rate_of :: "plan \<Rightarrow> nat" where
  "rate_of p = (case overage_rate_cents p of Some r \<Rightarrow> r | None \<Rightarrow> 0)"

definition has_hard_run_cap :: "plan \<Rightarrow> bool" where
  "has_hard_run_cap p \<longleftrightarrow> run_limit p \<noteq> None \<and> rate_of p \<le> 0"

record entitlement =
  ent_plan :: plan
  runs_consumed :: nat
  active_run_count :: nat

definition check_run_limit :: "entitlement \<Rightarrow> bool \<times> int option" where
  "check_run_limit c =
     (if \<not> has_hard_run_cap (ent_plan c) \<or> run_limit (ent_plan c) = None then (True, None)
      else let remaining = int (the (run_limit (ent_plan c))) - int (runs_consumed c + active_run_count c)
           in (remaining > 0, Some remaining))"

definition check_concurrency_limit :: "entitlement \<Rightarrow> bool" where
  "check_concurrency_limit c =
     (case concurrency_limit (ent_plan c) of None \<Rightarrow> True | Some n \<Rightarrow> active_run_count c < n)"

definition check_feature :: "entitlement \<Rightarrow> feature \<Rightarrow> bool" where
  "check_feature c f \<longleftrightarrow> f \<in> set (feature_flags (ent_plan c))"

text \<open>
  \<open>featureEnabled\<close>.  The cache is \<open>None\<close> while Redis is unreachable, otherwise the flags it holds
  by plan; \<open>ws_plan\<close> is the plan id of the workspace's row, if there is one.
\<close>

type_synonym flag_cache = "(string \<times> feature list) list option"

definition feature_enabled :: "string option \<Rightarrow> feature \<Rightarrow> flag_cache \<Rightarrow> bool \<times> flag_cache" where
  "feature_enabled ws_plan f cache =
     (case ws_plan of
        None \<Rightarrow> (False, cache)
      | Some pid \<Rightarrow>
        (case cache of
           None \<Rightarrow> (False, None)
         | Some entries \<Rightarrow>
           (case map_of entries pid of
              Some flags \<Rightarrow> (f \<in> set flags, cache)
            | None \<Rightarrow>
              (case get_plan_definition pid of
                 None \<Rightarrow> (False, cache)
               | Some p \<Rightarrow> (f \<in> set (feature_flags p), Some (AList.update pid (feature_flags p) entries))))))"

definition invalidate_plan_feature_cache :: "string \<Rightarrow> flag_cache \<Rightarrow> flag_cache" where
  "invalidate_plan_feature_cache pid cache = map_option (AList.delete pid) cache"

section \<open>Usage and invoices\<close>

text \<open>The overage shown by the usage route for the current period.\<close>

definition usage_overage :: "plan \<Rightarrow> nat \<Rightarrow> nat" where
  "usage_overage p used =
     (case run_limit p of
        Some l \<Rightarrow> if rate_of p > 0 then nat (max 0 (int used - int l)) else 0
      | None \<Rightarrow> 0)"

record invoice =
  plan_base_cents :: nat
  overage_runs :: nat
  overage_cents :: nat
  total_cents :: nat

definition compute_invoice_close :: "plan \<Rightarrow> nat \<Rightarrow> invoice" where
  "compute_invoice_close p consumed =
     (let soft = (run_limit p \<noteq> None \<and> rate_of p > 0);
          limit = (case run_limit p of Some l \<Rightarrow> l | None \<Rightarrow> 0);
          over = (if soft then nat (max 0 (int consumed - int limit)) else 0);
          cents = over * rate_of p
      in \<lparr>plan_base_cents = price_cents p, overage_runs = over, overage_cents = cents,
          total_cents = price_cents p + cents\<rparr>)"

text \<open>
  \<open>runBillingPeriodClose\<close>: the subscriptions whose period has ended get an invoice, unless one for
  that workspace and period exists, and roll to the next 30 days.  Times are milliseconds; an
  invoice names its period by dates.
\<close>

record subscription =
  sub_id :: nat
  sub_ws :: nat
  sub_plan :: string
  sub_active :: bool
  period_start :: int
  period_end :: int
  sub_consumed :: nat

definition DAY_MS :: int where "DAY_MS = 24 * 60 * 60 * 1000"

type_synonym invoice_table = "((nat \<times> int \<times> int) \<times> invoice) list"

definition roll_subscription :: "int \<Rightarrow> nat \<Rightarrow> subscription list \<Rightarrow> subscription list" where
  "roll_subscription now i subs =
     map (\<lambda>s. if sub_id s = i \<and> period_end s \<le> now
              then s\<lparr>period_start := period_end s, period_end := period_end s + 30 * DAY_MS, sub_consumed := 0\<rparr>
              else s) subs"

definition close_one ::
  "int \<Rightarrow> subscription \<Rightarrow> subscription list \<times> invoice_table \<Rightarrow> subscription list \<times> invoice_table" where
  "close_one now sub st =
     (case get_plan_definition (sub_plan sub) of
        None \<Rightarrow> st
      | Some p \<Rightarrow>
          let key = (sub_ws sub, period_start sub div DAY_MS, period_end sub div DAY_MS);
              invs = (if map_of (snd st) key = None
                      then snd st @ [(key, compute_invoice_close p (sub_consumed sub))] else snd st)
          in (roll_subscription now (sub_id sub) (fst st), invs))"

definition run_billing_period_close ::
  "int \<Rightarrow> subscription list \<times> invoice_table \<Rightarrow> subscription list \<times> invoice_table" where
  "run_billing_period_close now st =
     fold (close_one now) (filter (\<lambda>s. sub_active s \<and> period_end s \<le> now) (fst st)) st"

section \<open>Lemmas\<close>

lemma distinct_keys_snoc:
  "distinct (map fst t) \<Longrightarrow> map_of t k = None \<Longrightarrow> distinct (map fst (t @ [(k, v)]))"
  by (auto simp: map_of_eq_None_iff)

lemma close_one_keys: "distinct (map fst (snd st)) \<Longrightarrow> distinct (map fst (snd (close_one now s st)))"
  using distinct_keys_snoc by (auto simp: close_one_def Let_def split: option.split)

lemma close_one_keeps: "map_of (snd st) k = Some v \<Longrightarrow> map_of (snd (close_one now s st)) k = Some v"
  by (auto simp: close_one_def Let_def map_add_Some_iff split: option.split)

lemma period_close_keys:
  "distinct (map fst (snd st)) \<Longrightarrow> distinct (map fst (snd (run_billing_period_close now st)))"
  unfolding run_billing_period_close_def by (rule fold_keeps) (simp_all add: close_one_keys)

lemma period_close_keeps:
  "map_of (snd st) k = Some v \<Longrightarrow> map_of (snd (run_billing_period_close now st)) k = Some v"
  unfolding run_billing_period_close_def by (rule fold_keeps) (simp_all add: close_one_keeps)

section \<open>Properties\<close>

text \<open>
  The Free plan is the only one with a hard run cap, and only there can the run limit refuse a
  run; it admits exactly while consumed and active runs together are below 500.
\<close>

theorem run_limit_is_free_only:
  assumes "get_plan_definition pid = Some p"
  shows "fst (check_run_limit \<lparr>ent_plan = p, runs_consumed = c, active_run_count = a\<rparr>) \<longleftrightarrow>
    (if pid = ''free'' then c + a < 500 else True)"
  using get_plan_in[OF assms]
  by (auto simp: plan_defs check_run_limit_def has_hard_run_cap_def rate_of_def)

theorem run_limit_is_free_only_witness:
  "fst (check_run_limit \<lparr>ent_plan = free, runs_consumed = 499, active_run_count = 1\<rparr>) \<longleftrightarrow>
    (if ''free'' = ''free'' then 499 + 1 < (500::nat) else True)"
  by (rule run_limit_is_free_only) (simp add: get_plan_definition_def plan_defs)

text \<open>
  An invoice is the plan's price plus the overage rate for every run beyond the included ones,
  the same overage that the usage route shows; without a rate or a limit there is none.
\<close>

theorem invoice_total:
  "total_cents (compute_invoice_close p n) =
     price_cents p + (case (run_limit p, overage_rate_cents p) of (Some l, Some r) \<Rightarrow> (n - l) * r | _ \<Rightarrow> 0) \<and>
   overage_runs (compute_invoice_close p n) = usage_overage p n"
  by (auto simp: compute_invoice_close_def usage_overage_def rate_of_def Let_def nat_diff_distrib max_def
      split: option.split)

text \<open>
  However often the period close runs, at whatever times, a workspace gets at most one invoice
  for a period, and an invoice that has been issued is never changed.
\<close>

theorem one_invoice_per_period:
  assumes "distinct (map fst (snd st))"
  shows "distinct (map fst (snd (fold run_billing_period_close ts st))) \<and>
    map_of (snd st) \<subseteq>\<^sub>m map_of (snd (fold run_billing_period_close ts st))"
proof
  show "distinct (map fst (snd (fold run_billing_period_close ts st)))"
    using assms by (rule fold_keeps) (rule period_close_keys)
  have "map_of (snd (fold run_billing_period_close ts st)) k = Some v" if "map_of (snd st) k = Some v" for k v
    using that by (rule fold_keeps) (rule period_close_keeps)
  then show "map_of (snd st) \<subseteq>\<^sub>m map_of (snd (fold run_billing_period_close ts st))"
    by (auto simp: map_le_def dom_def)
qed

theorem one_invoice_per_period_witness:
  "distinct (map fst (snd (fold run_billing_period_close [40, 40, 80]
      ([\<lparr>sub_id = 1, sub_ws = 2, sub_plan = ''pro'', sub_active = True, period_start = 0, period_end = 30,
         sub_consumed = 10001\<rparr>], [])))) \<and>
    map_of [] \<subseteq>\<^sub>m map_of (snd (fold run_billing_period_close [40, 40, 80]
      ([\<lparr>sub_id = 1, sub_ws = 2, sub_plan = ''pro'', sub_active = True, period_start = 0, period_end = 30,
         sub_consumed = 10001\<rparr>], [])))"
  using one_invoice_per_period[of "([\<lparr>sub_id = 1, sub_ws = 2, sub_plan = ''pro'', sub_active = True,
      period_start = 0, period_end = 30, sub_consumed = 10001\<rparr>], [])" "[40, 40, 80]"] by simp

end
