(* ===== verification/NetAcl.thy ===== *)
theory NetAcl
  imports JsNumber "HOL-Library.Word"
begin

text \<open>
  Ingress address checks, \<open>ipInCidr\<close> and \<open>getClientIp\<close> of
  \<open>apps/server/src/middleware/auth.ts\<close>.  The language's bitwise operators work on 32 bits, so
  the numbers are words here.
\<close>

unbundle bit_operations_syntax

text \<open>\<open>ToInt32\<close>.\<close>

definition to_int32 :: "jsnum \<Rightarrow> 32 word" where
  "to_int32 n = (case n of Num r \<Rightarrow> word_of_int (trunc_rat r) | _ \<Rightarrow> 0)"

text \<open>The left shift by a number: the count is taken modulo 32.\<close>

definition shift_left :: "32 word \<Rightarrow> jsnum \<Rightarrow> 32 word" where
  "shift_left w n = push_bit (unat (to_int32 n AND 31)) w"

definition quad_word :: "jsnum list \<Rightarrow> 32 word" where
  "quad_word p = push_bit 24 (to_int32 (p ! 0)) OR push_bit 16 (to_int32 (p ! 1)) OR
     push_bit 8 (to_int32 (p ! 2)) OR to_int32 (p ! 3)"

definition ip_in_cidr :: "jstr \<Rightarrow> jstr \<Rightarrow> bool" where
  "ip_in_cidr ip cidr =
     (let parts = str_split cidr (js ''/'');
          base = parts ! 0;
          prefix = parse_int10 (if length parts > 1 then parts ! 1 else js ''32'');
          ip_parts = map string_to_number (str_split ip (js ''.''));
          base_parts = map string_to_number (str_split base (js ''.''))
      in if length ip_parts \<noteq> 4 \<or> length base_parts \<noteq> 4 then ip = base
         else let mask = (if prefix = Num 0 \<or> prefix = NegZero then 0
                          else shift_left (- 1) (js_sub (Num 32) prefix))
              in quad_word ip_parts AND mask = quad_word base_parts AND mask)"

text \<open>
  \<open>getClientIp\<close>: \<open>trust\<close> is \<open>FF_TRUST_PROXY\<close>, \<open>peer\<close> the socket's address, \<open>request_ip\<close> the
  framework's \<open>request.ip\<close>.
\<close>

definition get_client_ip :: "jstr option \<Rightarrow> jstr \<Rightarrow> jstr option \<Rightarrow> jstr \<Rightarrow> jstr" where
  "get_client_ip trust_env peer forwarded request_ip =
     (let trust = trim (case trust_env of Some t \<Rightarrow> t | None \<Rightarrow> []) in
      if trust \<noteq> [] \<and> trust \<noteq> js ''0'' \<and> trust \<noteq> js ''false'' then
        let unconditional = (trust = js ''1'' \<or> trust = js ''true'');
            listed = (\<not> unconditional \<and>
              list_ex (\<lambda>e. trim e \<noteq> [] \<and> ip_in_cidr peer (trim e)) (str_split trust (js '','')))
        in if unconditional \<or> listed then
             (case forwarded of
                Some f \<Rightarrow> if f \<noteq> [] then trim (hd (str_split f (js '',''))) else request_ip
              | None \<Rightarrow> request_ip)
           else request_ip
      else request_ip)"

section \<open>Dotted quads\<close>

definition dotted :: "nat list \<Rightarrow> jstr" where
  "dotted bs = join (map nat_str bs) (js ''.'')"

text \<open>The address as a number.\<close>

definition address :: "nat list \<Rightarrow> 32 word" where
  "address bs = word_of_nat (bs ! 0 * 2 ^ 24 + bs ! 1 * 2 ^ 16 + bs ! 2 * 2 ^ 8 + bs ! 3)"

lemma digits_no: "\<not> is_digit c \<Longrightarrow> c \<notin> set (nat_str n)"
  using digits_nat_str[of n] by (auto simp: list_all_iff)

lemma split_dotted: "bs \<noteq> [] \<Longrightarrow> str_split (dotted bs) (js ''.'') = map nat_str bs"
  unfolding dotted_def js.simps
  by (rule str_split_join) (auto simp: digits_no is_digit_def)

lemma slash_not_dotted: "47 \<notin> set (dotted bs)"
proof -
  have "47 \<notin> set (join xs [46])" if "\<forall>x \<in> set xs. 47 \<notin> set x" for xs :: "jstr list"
    using that by (induction xs rule: induct_list012) auto
  then show ?thesis by (auto simp: dotted_def digits_no is_digit_def)
qed

lemma split_cidr: "str_split (dotted bs @ 47 # nat_str p) (js ''/'') = [dotted bs, nat_str p]"
  using str_split_join[of "[dotted bs, nat_str p]" 47] slash_not_dotted
  by (simp add: digits_no is_digit_def)

lemma byte_number: "b < 256 \<Longrightarrow> to_int32 (string_to_number (nat_str b)) = word_of_nat b"
  by (simp add: string_to_number_nat_str to_int32_def trunc_rat_def word_of_nat_eq_iff)

lemma or_is_add: "y < 2 ^ n \<Longrightarrow> word_of_nat (x * 2 ^ n) OR word_of_nat y = (word_of_nat (x * 2 ^ n + y) :: 32 word)"
proof -
  assume y: "y < 2 ^ n"
  have "x * 2 ^ n AND y = 0"
  proof (rule bit_eqI)
    fix i
    have "\<not> bit y i" if "n \<le> i"
      using y that by (metis bit_take_bit_iff leD take_bit_nat_eq_self)
    then show "bit (x * 2 ^ n AND y) i \<longleftrightarrow> bit 0 i"
      by (auto simp: bit_and_iff bit_push_bit_iff simp flip: push_bit_eq_mult)
  qed
  then have "x * 2 ^ n OR y = x * 2 ^ n + y" by (simp add: disjunctive_add_eq_or)
  then show ?thesis by (metis of_nat_or_eq)
qed

lemma push_word: "push_bit n (word_of_nat b) = (word_of_nat (b * 2 ^ n) :: 32 word)"
  by (simp add: push_bit_eq_mult)

lemma shift_count: "n < 32 \<Longrightarrow> unat (to_int32 (Num (of_nat n)) AND 31) = n"
proof -
  assume n: "n < 32"
  have "to_int32 (Num (of_nat n)) = word_of_nat n" by (simp add: to_int32_def trunc_rat_def)
  moreover have "(31 :: 32 word) = mask 5" by (simp add: mask_eq_exp_minus_1)
  ultimately have "to_int32 (Num (of_nat n)) AND 31 = take_bit 5 (word_of_nat n)"
    by (simp only: take_bit_eq_mask)
  then have "to_int32 (Num (of_nat n)) AND 31 = word_of_nat (take_bit 5 n)"
    by (simp only: take_bit_of_nat)
  moreover have "take_bit 5 n = n" using n by (intro take_bit_nat_eq_self) simp
  ultimately show ?thesis using n by (simp add: unat_of_nat)
qed

lemma quad_word_address:
  assumes "list_all (\<lambda>b. b < 256) bs" and "length bs = 4"
  shows "quad_word (map string_to_number (map nat_str bs)) = address bs"
proof -
  obtain b0 b1 b2 b3 where bs: "bs = [b0, b1, b2, b3]"
    using assms(2) by (auto simp: numeral_eq_Suc length_Suc_conv)
  have b: "b0 < 256" "b1 < 256" "b2 < 256" "b3 < 256" using assms(1) by (simp_all add: bs)
  have "quad_word (map string_to_number (map nat_str bs)) =
    word_of_nat (b0 * 2 ^ 24) OR (word_of_nat (b1 * 2 ^ 16) OR (word_of_nat (b2 * 2 ^ 8) OR word_of_nat b3))"
    unfolding quad_word_def bs using b by (simp only: byte_number push_word list.map nth_Cons_0 nth_Cons_Suc
      numeral_2_eq_2 numeral_3_eq_3 One_nat_def or.assoc)
  also have "\<dots> = word_of_nat (b0 * 2 ^ 24 + (b1 * 2 ^ 16 + (b2 * 2 ^ 8 + b3)))"
    using b by (subst or_is_add, simp)+ (rule refl)
  also have "\<dots> = address bs" by (simp add: address_def bs add.assoc)
  finally show ?thesis .
qed

lemma masked_eq: "w AND push_bit k (- 1) = v AND push_bit k (- 1) \<longleftrightarrow> drop_bit k w = drop_bit k (v :: 32 word)"
proof
  assume *: "w AND push_bit k (- 1) = v AND push_bit k (- 1)"
  have "drop_bit k (u AND push_bit k (- 1)) = drop_bit k u" for u :: "32 word"
    by (rule bit_eqI) (auto simp: bit_simps dest: bit_imp_le_length)
  with * show "drop_bit k w = drop_bit k v" by metis
next
  assume *: "drop_bit k w = drop_bit k v"
  have "u AND push_bit k (- 1) = push_bit k (drop_bit k u)" for u :: "32 word"
    by (rule bit_eqI) (auto simp: bit_simps)
  with * show "w AND push_bit k (- 1) = v AND push_bit k (- 1)" by metis
qed

text \<open>
  For dotted IPv4 addresses and a prefix length from 1 to 32, \<open>ipInCidr\<close> is the textbook test:
  the address is in the block exactly when the two agree on their leading \<open>p\<close> bits.
\<close>

theorem ip_in_cidr_leading_bits:
  assumes "list_all (\<lambda>b. b < 256) a" and "length a = 4"
    and "list_all (\<lambda>b. b < 256) b" and "length b = 4" and "1 \<le> p" and "p \<le> 32"
  shows "ip_in_cidr (dotted a) (dotted b @ 47 # nat_str p) \<longleftrightarrow>
    drop_bit (32 - p) (address a) = drop_bit (32 - p) (address b)"
proof -
  have parts: "str_split (dotted c) (js ''.'') = map nat_str c" if "length c = 4" for c
    using that by (intro split_dotted) auto
  have prefix: "parse_int10 (nat_str p) = Num (of_nat p)" using assms(6) by (simp add: parse_int10_nat_str)
  have "js_sub (Num 32) (Num (of_nat p)) = js_add (Num (of_int 32)) (Num (of_int (- int p)))"
    using assms(5) by (simp add: js_sub_def)
  also have "\<dots> = Num (of_int (int (32 - p)))" using assms(6) by (subst js_add_int) auto
  finally have sub: "js_sub (Num 32) (Num (of_nat p)) = Num (of_nat (32 - p))" by simp
  have "unat (to_int32 (Num (of_nat (32 - p))) AND 31) = 32 - p"
    using assms(5) by (intro shift_count) simp
  then have "shift_left (- 1) (js_sub (Num 32) (Num (of_nat p))) = push_bit (32 - p) (- 1)"
    by (simp add: shift_left_def sub)
  then show ?thesis
    using assms(5) quad_word_address[OF assms(1,2)] quad_word_address[OF assms(3,4)]
    by (simp add: ip_in_cidr_def Let_def split_cidr parts prefix masked_eq[simplified] assms del: js.simps)
qed

theorem ip_in_cidr_leading_bits_witness:
  "ip_in_cidr (dotted [10, 1, 2, 3]) (dotted [10, 9, 8, 7] @ 47 # nat_str 8)"
proof -
  have "ip_in_cidr (dotted [10, 1, 2, 3]) (dotted [10, 9, 8, 7] @ 47 # nat_str 8) \<longleftrightarrow>
    drop_bit (32 - 8) (address [10, 1, 2, 3]) = drop_bit (32 - 8) (address [10, 9, 8, 7])"
    by (rule ip_in_cidr_leading_bits) simp_all
  then show ?thesis by (simp add: address_def drop_bit_eq_div)
qed

lemma forwarded_ignored_untrusted:
  "trim t \<in> {[], js ''0'', js ''false''} \<Longrightarrow> get_client_ip (Some t) peer fwd ip = ip"
  by (auto simp: get_client_ip_def)

end
