(* ===== verification/Validator.thy ===== *)
theory Validator
  imports JsValue ExprParser Cron
begin

text \<open>
  The manifest validator, \<open>packages/engine/src/manifest-validator.ts\<close>.

  The schema types a step, but the steps inside a condition's \<open>then\<close> and \<open>else\<close> are \<open>z.any()\<close>, so
  the checks walk arbitrary values: here a step is a \<open>jsval\<close>, every property read is one of the
  language, and reading a property of null or undefined throws the \<open>TypeError\<close> that
  \<open>validateManifest\<close> does not catch.  The YAML parser, the schema library, the time zone table and
  the Unicode case table are the record \<open>outside\<close>; messages are dropped, codes and paths kept.
\<close>

section \<open>Values as the language reads them\<close>

datatype thrown = TypeError

definition js_truthy :: "jsval \<Rightarrow> bool" where
  "js_truthy v =
     (case v of Undefined \<Rightarrow> False | Null \<Rightarrow> False | JBool b \<Rightarrow> b
      | JNum n \<Rightarrow> n \<notin> {NaN, NegZero, Num 0} | JStr s \<Rightarrow> s \<noteq> [] | _ \<Rightarrow> True)"

text \<open>\<open>v.k\<close> for a name \<open>k\<close> that only an object's own properties, and arrays for \<open>with\<close>, have.\<close>

fun prop_of :: "jsval \<Rightarrow> string \<Rightarrow> thrown + jsval" where
  "prop_of Undefined k = Inl TypeError"
| "prop_of Null k = Inl TypeError"
| "prop_of (JObj kvs) k = Inr (get_member kvs (js k))"
| "prop_of (JArr vs) k = Inr (if k = ''with'' then Builtin (js k) else Undefined)"
| "prop_of v k = Inr Undefined"

text \<open>\<open>v?.k\<close>.\<close>

definition opt_prop :: "jsval \<Rightarrow> string \<Rightarrow> jsval" where
  "opt_prop v k = (case prop_of v k of Inl _ \<Rightarrow> Undefined | Inr w \<Rightarrow> w)"

text \<open>The code points of a string, which is what iterating over it gives.\<close>

fun code_points :: "jstr \<Rightarrow> jstr list" where
  "code_points [] = []"
| "code_points [c] = [[c]]"
| "code_points (c # d # cs) =
     (if 55296 \<le> c \<and> c < 56320 \<and> 56320 \<le> d \<and> d < 57344 then [c, d] # code_points cs
      else [c] # code_points (d # cs))"

definition iterate :: "jsval \<Rightarrow> thrown + jsval list" where
  "iterate v = (case v of JArr vs \<Rightarrow> Inr vs | JStr s \<Rightarrow> Inr (map JStr (code_points s)) | _ \<Rightarrow> Inl TypeError)"

text \<open>\<open>Object.keys\<close> of a value that is not null.\<close>

definition object_keys :: "jsval \<Rightarrow> jstr list" where
  "object_keys v =
     (case v of JObj kvs \<Rightarrow> own_keys kvs | JArr vs \<Rightarrow> map nat_str [0..<length vs]
      | JStr s \<Rightarrow> map nat_str [0..<length s] | _ \<Rightarrow> [])"

text \<open>The equality of a \<open>Set\<close>'s members; two objects read from one document are not the same object.\<close>

definition same_value :: "jsval \<Rightarrow> jsval \<Rightarrow> bool" where
  "same_value v w =
     (case v of JArr _ \<Rightarrow> False | JObj _ \<Rightarrow> False
      | JNum n \<Rightarrow> (case w of JNum m \<Rightarrow> n = m \<or> {n, m} \<subseteq> {NegZero, Num 0} | _ \<Rightarrow> False)
      | _ \<Rightarrow> v = w)"

text \<open>A value inside a template literal.\<close>

definition template :: "jsval \<Rightarrow> thrown + jstr" where
  "template v = (case to_jstr v of None \<Rightarrow> Inl TypeError | Some s \<Rightarrow> Inr s)"

section \<open>Manifests\<close>

datatype trigger_type = Schedule | Webhook | Event
datatype auth_mode = Hmac | Header | NoAuth
datatype input_type = StringInput | IntegerInput | BooleanInput

record trigger_def =
  tr_type :: trigger_type
  tr_cron :: "jstr option"
  tr_timezone :: "jstr option"
  tr_require_signature :: bool
  tr_auth_mode :: auth_mode
  tr_secret :: "jstr option"
  tr_auth_header :: "jstr option"
  tr_auth_secret :: "jstr option"
  tr_sync :: bool
  tr_mapping :: "entries option"

record input_def =
  in_name :: jstr
  in_type :: input_type
  in_required :: bool
  in_default :: jsval

record manifest =
  mf_name :: jstr
  mf_inputs :: "input_def list"
  mf_triggers :: "trigger_def list"
  mf_steps :: "jsval list"

record outside =
  yaml_load :: "jstr \<Rightarrow> jsval option"
  schema_parse :: "jsval \<Rightarrow> jstr list + manifest"
  config_issues :: "jstr \<Rightarrow> jsval \<Rightarrow> jstr list"
  valid_zone :: "jstr \<Rightarrow> bool"
  lower_case :: "jstr \<Rightarrow> jstr"

type_synonym issue = "string \<times> jstr"

record validation_result =
  valid_flag :: bool
  errors :: "issue list"
  warnings :: "issue list"

section \<open>Cron\<close>

definition CRON_FIELD_LIMITS :: "(nat \<times> nat) list" where
  "CRON_FIELD_LIMITS = [(0, 59), (0, 23), (1, 31), (1, 12), (0, 7)]"

definition valid_piece :: "nat \<Rightarrow> nat \<Rightarrow> jstr \<Rightarrow> bool" where
  "valid_piece lo hi piece =
     (if piece = js ''*'' then True
      else case (if starts_with piece (js ''*/'') then number_text (drop 2 piece) else None) of
        Some n \<Rightarrow> \<not> (n < 1 \<or> hi < n)
      | None \<Rightarrow> (case range_text piece of
          Some (a, b) \<Rightarrow> \<not> (a < lo \<or> hi < b \<or> b < a)
        | None \<Rightarrow> (case number_text piece of
            Some n \<Rightarrow> \<not> (n < lo \<or> hi < n)
          | None \<Rightarrow> False)))"

definition is_valid_cron_field :: "jstr \<Rightarrow> nat \<Rightarrow> nat \<Rightarrow> bool" where
  "is_valid_cron_field field lo hi =
     (if field = [] then False else list_all (valid_piece lo hi) (str_split field (js '','')))"

definition is_valid_cron_expression :: "jstr \<Rightarrow> bool" where
  "is_valid_cron_expression expr =
     (let parts = split_ws (trim expr) in
      if length parts \<noteq> 5 then False
      else list_all (\<lambda>(f, lo, hi). is_valid_cron_field f lo hi) (zip parts CRON_FIELD_LIMITS))"

section \<open>Walking the steps\<close>

definition MAX_NESTING_DEPTH :: nat where "MAX_NESTING_DEPTH = 4"
definition FORBIDDEN_HTTP_HEADERS :: "jstr list" where
  "FORBIDDEN_HTTP_HEADERS = map js [''host'', ''cookie'', ''x-forwarded-for'']"
definition ALLOWED_REPLY_HEADERS :: "jstr list" where
  "ALLOWED_REPLY_HEADERS = map js [''content-type'', ''location'', ''retry-after'']"

text \<open>
  The three places where every walk looks for further steps, \<open>step.steps\<close>, \<open>step.with.then\<close> and
  \<open>step.with.else\<close>, with the sfx each adds to the path.
\<close>

definition branch :: "jsval \<Rightarrow> string \<Rightarrow> (jstr \<times> jsval list) list" where
  "branch wth k = (case opt_prop wth k of JArr vs \<Rightarrow> [(js (''.'' @ k), vs)] | _ \<Rightarrow> [])"

definition sub_lists :: "jsval \<Rightarrow> thrown + (jstr \<times> jsval list) list" where
  "sub_lists s =
     bindR (prop_of s ''steps'') (\<lambda>st.
     bindR (if js_truthy st then bindR (iterate st) (\<lambda>vs. Inr [([], vs)]) else Inr []) (\<lambda>own.
     bindR (prop_of s ''with'') (\<lambda>wth. Inr (own @ branch wth ''then'' @ branch wth ''else''))))"

text \<open>A measure that falls from a step to the lists inside it.\<close>

fun weight :: "jsval \<Rightarrow> nat" where
  "weight (JArr vs) = Suc (sum_list (map (\<lambda>v. Suc (weight v)) vs))"
| "weight (JObj kvs) = Suc (sum_list (map (\<lambda>e. weight (snd e)) kvs))"
| "weight (JStr s) = Suc (length s)"
| "weight v = 1"

definition step_weight :: "jsval \<Rightarrow> nat" where
  "step_weight s = (case s of JObj _ \<Rightarrow> weight s | _ \<Rightarrow> 0)"

definition steps_weight :: "jsval list \<Rightarrow> nat" where
  "steps_weight ss = sum_list (map (\<lambda>s. Suc (step_weight s)) ss)"

lemma step_weight_le: "step_weight s \<le> weight s"
  by (cases s) (simp_all add: step_weight_def)

lemma steps_weight_arr: "steps_weight vs < weight (JArr vs)"
proof -
  have "steps_weight vs \<le> sum_list (map (\<lambda>v. Suc (weight v)) vs)"
    unfolding steps_weight_def by (rule sum_list_mono) (simp add: step_weight_le)
  then show ?thesis by simp
qed

lemma length_code_points: "length (code_points s) \<le> length s"
  by (induction s rule: code_points.induct) auto

lemma steps_weight_str: "steps_weight (map JStr (code_points s)) < weight (JStr s)"
proof -
  have "steps_weight (map JStr cs) = length cs" for cs
    by (induction cs) (simp_all add: steps_weight_def step_weight_def)
  then show ?thesis using length_code_points[of s] by (simp add: le_imp_less_Suc)
qed

lemma weight_member: "map_of kvs k = Some v \<Longrightarrow> weight v < weight (JObj kvs)"
  using member_le_sum_list[of "weight v" "map (\<lambda>e. weight (snd e)) kvs"]
  by (force dest: map_of_SomeD)

lemma weight_get_member: "get_member kvs k = v \<Longrightarrow> v = JArr vs \<or> v = JStr s \<or> v = JObj m \<Longrightarrow> weight v < weight (JObj kvs)"
  using weight_member by (auto simp: get_member_def inherited_def split: option.splits if_splits)

lemma iterate_weight: "iterate v = Inr vs \<Longrightarrow> steps_weight vs < weight v"
  using steps_weight_arr steps_weight_str by (auto simp: iterate_def split: jsval.splits)

lemma opt_prop_weight: "opt_prop v k = JArr vs \<Longrightarrow> weight (JArr vs) < weight v"
  using weight_get_member[of _ "js k" "JArr vs" vs]
  by (cases v) (auto simp: opt_prop_def split: if_splits)

lemma branch_weight: "(sfx, vs) \<in> set (branch wth k) \<Longrightarrow> steps_weight vs < weight wth"
  using opt_prop_weight[of wth k vs] steps_weight_arr[of vs] by (auto simp: branch_def split: jsval.splits)

lemma with_weight: "branch (get_member kvs k) b \<noteq> [] \<Longrightarrow> weight (get_member kvs k) < weight (JObj kvs)"
proof -
  assume "branch (get_member kvs k) b \<noteq> []"
  then obtain m where "get_member kvs k = JObj m"
    by (cases "get_member kvs k") (auto simp: branch_def opt_prop_def split: if_splits)
  then show ?thesis using weight_get_member by metis
qed

lemma sub_lists_weight:
  assumes "sub_lists s = Inr subs" and "(sfx, vs) \<in> set subs"
  shows "steps_weight vs < Suc (step_weight s)"
proof (cases s)
  case (JObj kvs)
  let ?st = "get_member kvs (js ''steps'')" and ?w = "get_member kvs (js ''with'')"
  have own: "steps_weight vs < weight s" if "iterate ?st = Inr vs"
    using that iterate_weight[OF that] weight_get_member[of kvs "js ''steps''" ?st] JObj
    by (auto simp: iterate_def split: jsval.splits)
  have br: "steps_weight vs < weight s" if "(sfx, vs) \<in> set (branch ?w b)" for b
    using branch_weight[OF that] with_weight[of kvs "js ''with''" b] that JObj by force
  from assms JObj own br show ?thesis
    by (auto simp: sub_lists_def step_weight_def simp del: js.simps split: if_splits)
       (fastforce simp del: js.simps)+
qed (use assms in \<open>auto simp: sub_lists_def branch_def opt_prop_def js_truthy_def\<close>)

text \<open>\<open>flattenSteps\<close>: every step with its path and depth, parents before children.\<close>

record step_node =
  nd_step :: jsval
  nd_path :: jstr
  nd_depth :: nat

definition path_of :: "jstr \<Rightarrow> jsval \<Rightarrow> thrown + jstr" where
  "path_of pre s =
     bindR (prop_of s ''id'') (\<lambda>i. bindR (template i) (\<lambda>t.
       Inr (if pre = [] then t else pre @ js ''.'' @ t)))"

function flatten_steps :: "jsval list \<Rightarrow> jstr \<Rightarrow> nat \<Rightarrow> thrown + step_node list" where
  "flatten_steps [] pre d = Inr []"
| "flatten_steps (s # ss) pre d =
     bindR (path_of pre s) (\<lambda>p.
     bindR (sub_lists s) (\<lambda>subs.
     bindR (mapR (\<lambda>(sfx, vs). flatten_steps vs (p @ sfx) (d + 1)) subs) (\<lambda>below.
     bindR (flatten_steps ss pre d) (\<lambda>rest.
       Inr (\<lparr>nd_step = s, nd_path = p, nd_depth = d\<rparr> # concat below @ rest)))))"
  by pat_completeness auto
termination
  by (relation "measure (\<lambda>(ss, _, _). steps_weight ss)")
     (auto dest: sub_lists_weight simp: steps_weight_def)

function count_reply_steps :: "jsval list \<Rightarrow> thrown + nat" where
  "count_reply_steps [] = Inr 0"
| "count_reply_steps (s # ss) =
     bindR (prop_of s ''type'') (\<lambda>ty.
     bindR (sub_lists s) (\<lambda>subs.
     bindR (mapR (\<lambda>(sfx, vs). count_reply_steps vs) subs) (\<lambda>below.
     bindR (count_reply_steps ss) (\<lambda>rest.
       Inr ((if ty = JStr (js ''reply'') then 1 else 0) + sum_list below + rest)))))"
  by pat_completeness auto
termination
  by (relation "measure steps_weight") (auto dest: sub_lists_weight simp: steps_weight_def)

function max_nesting_depth :: "jsval list \<Rightarrow> nat \<Rightarrow> thrown + nat" where
  "max_nesting_depth [] d = Inr d"
| "max_nesting_depth (s # ss) d =
     bindR (sub_lists s) (\<lambda>subs.
     bindR (mapR (\<lambda>(sfx, vs). max_nesting_depth vs (d + 1)) subs) (\<lambda>below.
     bindR (max_nesting_depth ss d) (\<lambda>rest. Inr (foldr max below rest))))"
  by pat_completeness auto
termination
  by (relation "measure (\<lambda>(ss, _). steps_weight ss)") (auto dest: sub_lists_weight simp: steps_weight_def)

text \<open>
  \<open>checkDuplicateIds\<close>: the ids seen so far run through the whole walk; an id met again is an error.
\<close>

function check_duplicate_ids :: "jsval list \<Rightarrow> jsval list \<Rightarrow> thrown + issue list \<times> jsval list" where
  "check_duplicate_ids [] seen = Inr ([], seen)"
| "check_duplicate_ids (s # ss) seen =
     bindR (prop_of s ''id'') (\<lambda>i.
     bindR (if list_ex (same_value i) seen
            then bindR (template i) (\<lambda>t. Inr [(''validation_error'', js ''steps.'' @ t)]) else Inr []) (\<lambda>own.
     bindR (sub_lists s) (\<lambda>subs.
     bindR (mapS (\<lambda>(sfx, vs) seen. check_duplicate_ids vs seen) subs (i # seen)) (\<lambda>(below, seen1).
     bindR (check_duplicate_ids ss seen1) (\<lambda>(rest, seen2).
       Inr (own @ concat below @ rest, seen2))))))"
  by pat_completeness auto
termination
  by (relation "measure (\<lambda>(ss, _). steps_weight ss)") (auto dest: sub_lists_weight simp: steps_weight_def)

section \<open>Checks of one step\<close>

definition or_empty :: "jsval \<Rightarrow> jsval" where
  "or_empty v = (if v = Undefined \<or> v = Null then JObj [] else v)"

definition issue_at :: "string \<Rightarrow> jsval \<Rightarrow> jstr \<Rightarrow> thrown + issue list" where
  "issue_at code s sfx =
     bindR (prop_of s ''id'') (\<lambda>i. bindR (template i) (\<lambda>t. Inr [(code, js ''steps.'' @ t @ sfx)]))"

definition header_names :: "jsval \<Rightarrow> jstr list" where
  "header_names h = (if js_truthy h then object_keys h else [])"

definition validate_http_step :: "outside \<Rightarrow> jsval \<Rightarrow> thrown + issue list" where
  "validate_http_step W s =
     bindR (prop_of s ''with'') (\<lambda>wth.
     let config = or_empty wth in
     bindR (prop_of config ''method'') (\<lambda>meth.
     bindR (prop_of config ''body'') (\<lambda>body.
     bindR (if meth \<in> {JStr (js ''GET''), JStr (js ''HEAD'')} \<and> body \<notin> {Undefined, Null, JStr []}
            then issue_at ''body_on_get_head'' s (js ''.with.body'') else Inr []) (\<lambda>e1.
     bindR (prop_of config ''headers'') (\<lambda>hs.
     bindR (mapR (\<lambda>n. if lower_case W n \<in> set FORBIDDEN_HTTP_HEADERS
                       then issue_at ''forbidden_header'' s (js ''.with.headers.'' @ n) else Inr [])
             (header_names hs)) (\<lambda>e2. Inr (e1 @ concat e2)))))))"

definition reply_header_allowed :: "outside \<Rightarrow> jstr \<Rightarrow> bool" where
  "reply_header_allowed W n \<longleftrightarrow>
     lower_case W n \<in> set ALLOWED_REPLY_HEADERS \<or> starts_with (lower_case W n) (js ''x-flowforge-'')"

definition validate_reply_step :: "outside \<Rightarrow> jsval \<Rightarrow> bool \<Rightarrow> thrown + issue list" where
  "validate_reply_step W s has_webhook =
     bindR (if \<not> has_webhook then issue_at ''reply_in_non_webhook'' s [] else Inr []) (\<lambda>e1.
     bindR (prop_of s ''with'') (\<lambda>wth.
     bindR (mapR (\<lambda>n. if reply_header_allowed W n then Inr []
                       else issue_at ''forbidden_reply_header'' s (js ''.with.headers.'' @ n))
             (header_names (opt_prop wth ''headers''))) (\<lambda>e2. Inr (e1 @ concat e2))))"

text \<open>
  The per-type contract of a step inside a condition's branch, found by its path.  The table of
  schemas is a plain object, so an inherited name as type finds a function without \<open>safeParse\<close>.
\<close>

definition validate_branch_step :: "outside \<Rightarrow> step_node \<Rightarrow> thrown + issue list" where
  "validate_branch_step W nd =
     (if str_includes (nd_path nd) (js ''.then'') \<or> str_includes (nd_path nd) (js ''.else'') then
        bindR (prop_of (nd_step nd) ''type'') (\<lambda>ty.
        bindR (template ty) (\<lambda>key.
        if key \<in> set inherited_names \<or> key = proto_name then Inl TypeError else
        bindR (prop_of (nd_step nd) ''with'') (\<lambda>wth.
          Inr (map (\<lambda>p. (''validation_error'', js ''steps.'' @ nd_path nd @ js ''.with'' @
                          (if p = [] then [] else js ''.'' @ p)))
                 (config_issues W key (or_empty wth))))))
      else Inr [])"

definition validate_node :: "outside \<Rightarrow> bool \<Rightarrow> step_node \<Rightarrow> thrown + issue list" where
  "validate_node W has_webhook nd =
     bindR (prop_of (nd_step nd) ''type'') (\<lambda>ty.
     bindR (if ty = JStr (js ''http'') then validate_http_step W (nd_step nd) else Inr []) (\<lambda>e1.
     bindR (if ty = JStr (js ''reply'') then validate_reply_step W (nd_step nd) has_webhook else Inr []) (\<lambda>e2.
     bindR (validate_branch_step W nd) (\<lambda>e3. Inr (e1 @ e2 @ e3)))))"

section \<open>Triggers and inputs\<close>

definition has_webhook_trigger :: "trigger_def list \<Rightarrow> bool" where
  "has_webhook_trigger ts = list_ex (\<lambda>t. tr_type t = Webhook) ts"

text \<open>\<open>!s || s.trim() === ''\<close>.\<close>

definition blank :: "jstr option \<Rightarrow> bool" where
  "blank s = (case s of None \<Rightarrow> True | Some t \<Rightarrow> trim t = [])"

definition validate_trigger :: "outside \<Rightarrow> jstr \<Rightarrow> trigger_def \<Rightarrow> issue list" where
  "validate_trigger W path t =
     (if tr_type t = Event then [(''event_trigger_not_supported_in_v1'', path @ js ''.type'')] else []) @
     (if tr_type t = Schedule then
        (case tr_cron t of
           None \<Rightarrow> [(''validation_error'', path @ js ''.cron'')]
         | Some c \<Rightarrow> if c = [] \<or> \<not> is_valid_cron_expression c
                    then [(''validation_error'', path @ js ''.cron'')] else []) @
        (case tr_timezone t of
           None \<Rightarrow> [(''validation_error'', path @ js ''.timezone'')]
         | Some z \<Rightarrow> if z = [] then [(''validation_error'', path @ js ''.timezone'')]
                    else if \<not> valid_zone W z then [(''invalid_timezone'', path @ js ''.timezone'')] else [])
      else []) @
     (if tr_type t = Webhook then
        (if tr_auth_mode t = Hmac then
           (if \<not> tr_require_signature t then [(''validation_error'', path @ js ''.require_signature'')] else []) @
           (if blank (tr_secret t) then [(''validation_error'', path @ js ''.secret'')] else [])
         else []) @
        (if tr_auth_mode t = Header then
           (if blank (tr_auth_header t) then [(''validation_error'', path @ js ''.auth_header'')] else []) @
           (if blank (tr_auth_secret t) then [(''validation_error'', path @ js ''.auth_secret'')] else [])
         else [])
      else [])"

definition validate_triggers :: "outside \<Rightarrow> trigger_def list \<Rightarrow> issue list" where
  "validate_triggers W ts =
     concat (map (\<lambda>(i, t). validate_trigger W (js ''triggers['' @ nat_str i @ js '']'') t) (enumerate 0 ts))"

text \<open>\<open>input.name in t.input_mapping\<close> also finds inherited names.\<close>

definition webhook_maps :: "trigger_def list \<Rightarrow> jstr \<Rightarrow> bool" where
  "webhook_maps ts n =
     list_ex (\<lambda>t. tr_type t = Webhook \<and>
       (case tr_mapping t of None \<Rightarrow> False | Some m \<Rightarrow> has_member m n)) ts"

definition validate_required_inputs :: "manifest \<Rightarrow> issue list" where
  "validate_required_inputs m =
     (if \<not> list_ex (\<lambda>t. tr_type t = Schedule) (mf_triggers m) then []
      else concat (map (\<lambda>i. if in_required i \<and> in_default i = Undefined \<and> \<not> webhook_maps (mf_triggers m) (in_name i)
                             then [(''validation_error'', js ''inputs.'' @ in_name i)] else [])
                     (mf_inputs m)))"

section \<open>Inner expressions of filter and map\<close>

text \<open>
  The regular expression finds a call of \<open>filter\<close> or \<open>map\<close>, everything up to its first comma, and a
  string literal after it, in which a backslash escapes any character but a line end.
\<close>

definition line_end :: "code_unit \<Rightarrow> bool" where
  "line_end c \<longleftrightarrow> c \<in> {10, 13, 8232, 8233}"

fun literal_body :: "jstr \<Rightarrow> (jstr \<times> jstr) option" where
  "literal_body [] = None"
| "literal_body (c # cs) =
     (if c = 34 then Some ([], cs)
      else if c = 92 then
        (case cs of
           [] \<Rightarrow> None
         | d # ds \<Rightarrow> if line_end d then None
                   else map_option (\<lambda>(b, r). (c # d # b, r)) (literal_body ds))
      else map_option (\<lambda>(b, r). (c # b, r)) (literal_body cs))"

definition match_call :: "jstr \<Rightarrow> (jstr \<times> jstr) option" where
  "match_call s =
     (let after = (if starts_with s (js ''filter'') then Some (drop 6 s)
                   else if starts_with s (js ''map'') then Some (drop 3 s) else None)
      in case after of
        None \<Rightarrow> None
      | Some s1 \<Rightarrow>
         (case dropWhile is_space s1 of
            [] \<Rightarrow> None
          | c # s2 \<Rightarrow>
             if c \<noteq> 40 \<or> takeWhile (\<lambda>d. d \<noteq> 44) s2 = [] then None
             else (case dropWhile (\<lambda>d. d \<noteq> 44) s2 of
                     [] \<Rightarrow> None
                   | _ # s3 \<Rightarrow> (case dropWhile is_space s3 of
                        [] \<Rightarrow> None
                      | q # s4 \<Rightarrow> if q = 34 then literal_body s4 else None))))"

lemma literal_body_shorter: "literal_body s = Some (b, r) \<Longrightarrow> length r < length s"
  by (induction s arbitrary: b r rule: literal_body.induct)
     (force split: if_splits list.splits option.splits)+

lemma dropWhile_Cons_length: "dropWhile p xs = y # ys \<Longrightarrow> length ys < length xs"
  using length_dropWhile_le[of p xs] by simp

lemma match_call_shorter: "match_call s = Some (b, r) \<Longrightarrow> length r < length s"
  by (auto simp: match_call_def Let_def dest!: literal_body_shorter dropWhile_Cons_length
      split: if_splits list.splits option.splits)

function inner_matches :: "jstr \<Rightarrow> jstr list" where
  "inner_matches s =
     (case match_call s of
        Some (b, r) \<Rightarrow> b # inner_matches r
      | None \<Rightarrow> (case s of [] \<Rightarrow> [] | _ # cs \<Rightarrow> inner_matches cs))"
  by pat_completeness auto
termination
  by (relation "measure length") (auto dest: match_call_shorter)

declare inner_matches.simps [simp del]

fun unescape :: "jstr \<Rightarrow> jstr" where
  "unescape (c # d # cs) =
     (if c = 92 \<and> \<not> line_end d then d # unescape cs else c # unescape (d # cs))"
| "unescape s = s"

definition check_expr :: "jsval \<Rightarrow> jstr \<Rightarrow> thrown + issue list" where
  "check_expr expr path =
     (if \<not> js_truthy expr then Inr []
      else bindR (template expr) (\<lambda>t.
        Inr (concat (map (\<lambda>m. case parse_expression (unescape m) of
                               Inl _ \<Rightarrow> [(''unparseable_expression'', path)] | Inr _ \<Rightarrow> [])
                       (inner_matches t)))))"

definition check_step_exprs :: "jsval \<Rightarrow> thrown + issue list" where
  "check_step_exprs s =
     bindR (prop_of s ''if'') (\<lambda>cond.
     bindR (prop_of s ''id'') (\<lambda>i. bindR (template i) (\<lambda>t.
     let path = (\<lambda>sfx. js ''steps.'' @ t @ js sfx) in
     bindR (check_expr cond (path ''.if'')) (\<lambda>e1.
     bindR (prop_of s ''with'') (\<lambda>wth.
     bindR (check_expr (opt_prop wth ''when'') (path ''.with.when'')) (\<lambda>e2.
     bindR (check_expr (opt_prop wth ''over'') (path ''.with.over'')) (\<lambda>e3.
       Inr (e1 @ e2 @ e3))))))))"

function validate_filter_map :: "jsval list \<Rightarrow> thrown + issue list" where
  "validate_filter_map [] = Inr []"
| "validate_filter_map (s # ss) =
     bindR (check_step_exprs s) (\<lambda>own.
     bindR (sub_lists s) (\<lambda>subs.
     bindR (mapR (\<lambda>(sfx, vs). validate_filter_map vs) subs) (\<lambda>below.
     bindR (validate_filter_map ss) (\<lambda>rest. Inr (own @ concat below @ rest)))))"
  by pat_completeness auto
termination
  by (relation "measure steps_weight") (auto dest: sub_lists_weight simp: steps_weight_def)

section \<open>The validator\<close>

definition failed_with :: "issue list \<Rightarrow> validation_result" where
  "failed_with es = \<lparr>valid_flag = False, errors = es, warnings = []\<rparr>"

text \<open>The rules on the parsed manifest, in the order of the source.\<close>

definition check_manifest :: "outside \<Rightarrow> manifest \<Rightarrow> thrown + validation_result" where
  "check_manifest W m =
     (let e1 = validate_triggers W (mf_triggers m) in
      bindR (flatten_steps (mf_steps m) [] 1) (\<lambda>nodes.
      bindR (mapR (\<lambda>nd. bindR (prop_of (nd_step nd) ''type'') (\<lambda>ty.
               Inr (if ty = JStr (js ''parallel'')
                    then [(''parallel_not_supported_in_v1'', js ''steps.'' @ nd_path nd)] else []))) nodes) (\<lambda>e2.
      bindR (count_reply_steps (mf_steps m)) (\<lambda>replies.
      let e3 = (if replies > 1 then [(''multiple_reply_steps'', js ''steps'')] else []) in
      bindR (max_nesting_depth (mf_steps m) 1) (\<lambda>deep.
      let e4 = (if deep > MAX_NESTING_DEPTH then [(''nesting_too_deep'', js ''steps'')] else []) in
      bindR (check_duplicate_ids (mf_steps m) []) (\<lambda>(e5, seen).
      bindR (mapR (validate_node W (has_webhook_trigger (mf_triggers m))) nodes) (\<lambda>e6.
      let e7 = validate_required_inputs m;
          es = e1 @ concat e2 @ e3 @ e4 @ e5 @ concat e6 @ e7 in
      bindR (validate_filter_map (mf_steps m)) (\<lambda>ws.
        Inr \<lparr>valid_flag = (es = []), errors = es, warnings = ws\<rparr>))))))))"

definition validate_manifest :: "outside \<Rightarrow> jstr \<Rightarrow> thrown + validation_result" where
  "validate_manifest W text =
     (if utf8_length text > 256 * 1024 then Inr (failed_with [(''manifest_too_large'', [])])
      else case yaml_load W text of
        None \<Rightarrow> Inr (failed_with [(''validation_error'', [])])
      | Some doc \<Rightarrow>
         (case doc of
            JArr _ \<Rightarrow> (case schema_parse W doc of
                Inl ps \<Rightarrow> Inr (failed_with (map (\<lambda>p. (''validation_error'', p)) ps))
              | Inr m \<Rightarrow> check_manifest W m)
          | JObj _ \<Rightarrow> (case schema_parse W doc of
                Inl ps \<Rightarrow> Inr (failed_with (map (\<lambda>p. (''validation_error'', p)) ps))
              | Inr m \<Rightarrow> check_manifest W m)
          | _ \<Rightarrow> Inr (failed_with [(''validation_error'', [])])))"

text \<open>\<open>parseManifest\<close>: \<open>None\<close> is a thrown error.\<close>

definition parse_manifest :: "outside \<Rightarrow> jstr \<Rightarrow> manifest option" where
  "parse_manifest W text =
     (case validate_manifest W text of
        Inl _ \<Rightarrow> None
      | Inr r \<Rightarrow> if \<not> valid_flag r then None
                else (case yaml_load W text of
                        None \<Rightarrow> None
                      | Some doc \<Rightarrow> (case schema_parse W doc of Inl _ \<Rightarrow> None | Inr m \<Rightarrow> Some m)))"

end
