(* ===== verification/ValidatorProps.thy ===== *)
theory ValidatorProps
  imports Validator
begin

text \<open>
  Properties of the manifest validator: its cron grammar is the scheduler's, its separate walks
  (reply count, depth, duplicate ids) agree with the flattened tree, what it accepts is well
  formed, and a null in a branch makes it throw.
\<close>

section \<open>Cron: the two grammars agree\<close>

lemma valid_piece_parse: "valid_piece lo hi p \<longleftrightarrow> parse_piece lo hi p \<noteq> None"
  by (auto simp: valid_piece_def parse_piece_def Let_def split: option.splits prod.splits)

lemma parse_pieces_valid: "parse_pieces lo hi ps vs \<noteq> None \<longleftrightarrow> list_all (valid_piece lo hi) ps"
  by (induction ps arbitrary: vs) (auto simp: valid_piece_parse split: option.splits)

lemma valid_field_parse: "is_valid_cron_field f lo hi \<longleftrightarrow> parse_cron_field f (lo, hi) \<noteq> None"
proof (cases f)
  case Nil
  moreover have "str_split [] (js '','') = [[]]" by (simp add: str_split_def)
  moreover have "\<not> valid_piece lo hi []"
    by (simp add: valid_piece_def starts_with_def range_text_def number_text_def)
  ultimately show ?thesis
    using parse_pieces_valid[of lo hi "[[]]" "[]"] by (simp add: is_valid_cron_field_def parse_cron_field_def)
qed (simp only: is_valid_cron_field_def parse_cron_field_def parse_pieces_valid list.simps if_False fst_conv snd_conv)

lemma cron_grammars_agree: "is_valid_cron_expression expr \<longleftrightarrow> is_valid_cron expr"
proof (cases "length (split_ws (trim expr)) = 5")
  case True
  then obtain a b c d e where "split_ws (trim expr) = [a, b, c, d, e]"
    by (auto simp: numeral_eq_Suc length_Suc_conv)
  then show ?thesis
    by (auto simp: is_valid_cron_expression_def is_valid_cron_def parse_cron_field_list_def
        CRON_FIELD_LIMITS_def FIELD_LIMITS_def valid_field_parse split: option.splits)
qed (simp add: is_valid_cron_expression_def is_valid_cron_def parse_cron_field_list_def)

section \<open>The walks agree with the flattened tree\<close>

definition node_prop :: "string \<Rightarrow> step_node \<Rightarrow> jsval" where
  "node_prop k nd = opt_prop (nd_step nd) k"

lemma node_prop_node [simp]: "node_prop k \<lparr>nd_step = s, nd_path = q, nd_depth = d\<rparr> = opt_prop s k"
  by (simp add: node_prop_def)

definition is_reply :: "step_node \<Rightarrow> bool" where
  "is_reply nd \<longleftrightarrow> node_prop ''type'' nd = JStr (js ''reply'')"

lemma is_reply_node [simp]:
  "is_reply \<lparr>nd_step = s, nd_path = q, nd_depth = d\<rparr> \<longleftrightarrow> opt_prop s ''type'' = JStr (js ''reply'')"
  by (simp add: is_reply_def)

lemma prop_of_opt: "prop_of v k = Inr w \<Longrightarrow> opt_prop v k = w"
  by (simp add: opt_prop_def)

lemma flatten_Cons:
  assumes "flatten_steps (s # ss) p d = Inr nodes"
  obtains q subs below rest where "path_of p s = Inr q" "sub_lists s = Inr subs"
    "mapR (\<lambda>(sfx, vs). flatten_steps vs (q @ sfx) (d + 1)) subs = Inr below" "flatten_steps ss p d = Inr rest"
    "nodes = \<lparr>nd_step = s, nd_path = q, nd_depth = d\<rparr> # concat below @ rest"
  using assms by auto

lemma count_reply_flatten:
  "flatten_steps ss p d = Inr nodes \<Longrightarrow> count_reply_steps ss = Inr n \<Longrightarrow> n = length (filter is_reply nodes)"
proof (induction ss p d arbitrary: nodes n rule: flatten_steps.induct)
  case (2 s ss p d)
  from "2.prems"(1) obtain q subs below rest where f: "path_of p s = Inr q" "sub_lists s = Inr subs"
    "mapR (\<lambda>(sfx, vs). flatten_steps vs (q @ sfx) (d + 1)) subs = Inr below" "flatten_steps ss p d = Inr rest"
    "nodes = \<lparr>nd_step = s, nd_path = q, nd_depth = d\<rparr> # concat below @ rest"
    by (rule flatten_Cons)
  from "2.prems"(2) f obtain ty ns k where c: "prop_of s ''type'' = Inr ty"
    "mapR (\<lambda>(sfx, vs). count_reply_steps vs) subs = Inr ns" "count_reply_steps ss = Inr k"
    "n = (if ty = JStr (js ''reply'') then 1 else 0) + sum_list ns + k" by auto
  have "list_all2 (\<lambda>nds m. m = length (filter is_reply nds)) below ns"
  proof (rule mapR_rel2[OF f(3) c(2)], goal_cases)
    case (1 x y z)
    then show ?case using "2.IH"(1)[OF f(1,2) 1(1), of "fst x" "snd x" y z] by (simp add: split_beta)
  qed
  then have "sum_list ns = length (filter is_reply (concat below))"
    by (induction rule: list_all2_induct) auto
  moreover have "k = length (filter is_reply rest)" by (rule "2.IH"(2)[OF f(1,2,3) f(4) c(3)])
  moreover have "opt_prop s ''type'' = ty" by (rule prop_of_opt) (rule c(1))
  ultimately show ?case using c(4) f(5) by (simp del: js.simps)
qed simp

lemma depth_flatten:
  "flatten_steps ss p d = Inr nodes \<Longrightarrow> max_nesting_depth ss d = Inr k \<Longrightarrow>
     d \<le> k \<and> (\<forall>nd \<in> set nodes. nd_depth nd \<le> k)"
proof (induction ss p d arbitrary: nodes k rule: flatten_steps.induct)
  case (2 s ss p d)
  from "2.prems"(1) obtain q subs below rest where f: "path_of p s = Inr q" "sub_lists s = Inr subs"
    "mapR (\<lambda>(sfx, vs). flatten_steps vs (q @ sfx) (d + 1)) subs = Inr below" "flatten_steps ss p d = Inr rest"
    "nodes = \<lparr>nd_step = s, nd_path = q, nd_depth = d\<rparr> # concat below @ rest"
    by (rule flatten_Cons)
  from "2.prems"(2) f obtain ns j where c:
    "mapR (\<lambda>(sfx, vs). max_nesting_depth vs (d + 1)) subs = Inr ns" "max_nesting_depth ss d = Inr j"
    "k = foldr max ns j" by auto
  have le: "\<forall>m \<in> set ns. m \<le> k" "j \<le> k" unfolding c(3) by (induction ns) auto
  have "list_all2 (\<lambda>nds m. \<forall>nd \<in> set nds. nd_depth nd \<le> m) below ns"
  proof (rule mapR_rel2[OF f(3) c(1)], goal_cases)
    case (1 x y z)
    then show ?case using "2.IH"(1)[OF f(1,2) 1(1), of "fst x" "snd x" y z] by (simp add: split_beta)
  qed
  then have "\<forall>nds \<in> set below. \<forall>nd \<in> set nds. nd_depth nd \<le> k"
    using le(1) by (induction rule: list_all2_induct) (auto intro: le_trans)
  moreover have "d \<le> j" "\<forall>nd \<in> set rest. nd_depth nd \<le> j"
    using "2.IH"(2)[OF f(1,2,3) f(4) c(2)] by auto
  ultimately show ?case using le(2) f(5) by (auto intro: le_trans)
qed simp


text \<open>No id of the list, in walk order, equals one before it or one of \<open>seen\<close>.\<close>

fun fresh_ids :: "jsval list \<Rightarrow> jsval list \<Rightarrow> bool" where
  "fresh_ids [] seen = True"
| "fresh_ids (i # is) seen = (\<not> list_ex (same_value i) seen \<and> fresh_ids is (i # seen))"

lemma fresh_ids_append: "fresh_ids (xs @ ys) seen \<longleftrightarrow> fresh_ids xs seen \<and> fresh_ids ys (rev xs @ seen)"
  by (induction xs arbitrary: seen) auto

lemma fresh_ids_distinct: "fresh_ids xs [] \<longleftrightarrow> sorted_wrt (\<lambda>a b. \<not> same_value b a) xs"
proof -
  have "fresh_ids xs seen \<longleftrightarrow> sorted_wrt (\<lambda>a b. \<not> same_value b a) xs \<and> (\<forall>a \<in> set seen. \<forall>b \<in> set xs. \<not> same_value b a)" for seen
    by (induction xs arbitrary: seen) (auto simp: list_ex_iff)
  then show ?thesis by simp
qed

lemma duplicates_flatten:
  "flatten_steps ss p d = Inr nodes \<Longrightarrow> check_duplicate_ids ss seen = Inr (es, seen') \<Longrightarrow>
     seen' = rev (map (node_prop ''id'') nodes) @ seen \<and> (es = [] \<longleftrightarrow> fresh_ids (map (node_prop ''id'') nodes) seen)"
proof (induction ss p d arbitrary: nodes seen es seen' rule: flatten_steps.induct)
  case (2 s ss p d)
  let ?ids = "map (node_prop ''id'')"
  from "2.prems"(1) obtain q subs below rest where f: "path_of p s = Inr q" "sub_lists s = Inr subs"
    "mapR (\<lambda>(sfx, vs). flatten_steps vs (q @ sfx) (d + 1)) subs = Inr below" "flatten_steps ss p d = Inr rest"
    "nodes = \<lparr>nd_step = s, nd_path = q, nd_depth = d\<rparr> # concat below @ rest"
    by (rule flatten_Cons)
  from "2.prems"(2) f(2) obtain i own bs seen1 rs where c: "prop_of s ''id'' = Inr i" and
    own: "(if list_ex (same_value i) seen
      then bindR (template i) (\<lambda>t. Inr [(''validation_error'', js ''steps.'' @ t)]) else Inr []) = Inr own" and
    c': "mapS (\<lambda>(sfx, vs) seen. check_duplicate_ids vs seen) subs (i # seen) = Inr (bs, seen1)"
    "check_duplicate_ids ss seen1 = Inr (rs, seen')" "es = own @ concat bs @ rs"
    by (auto simp only: check_duplicate_ids.simps bindR_eq_Inr split_beta prod.collapse sum.inject prod.inject fst_conv snd_conv)
  have c2: "own = [] \<longleftrightarrow> \<not> list_ex (same_value i) seen" using own by (auto split: if_splits)
  have loop: "t = rev (?ids (concat nss)) @ u \<and> (concat ess = [] \<longleftrightarrow> fresh_ids (?ids (concat nss)) u)"
    if "mapR (\<lambda>(sfx, vs). flatten_steps vs (q @ sfx) (d + 1)) xs = Inr nss"
       "mapS (\<lambda>(sfx, vs) seen. check_duplicate_ids vs seen) xs u = Inr (ess, t)" "set xs \<subseteq> set subs" for xs nss ess u t
    using that
  proof (induction xs arbitrary: nss ess u)
    case (Cons x xs)
    obtain sfx vs where x: "x = (sfx, vs)" by fastforce
    from Cons.prems(1) x obtain ns nss' where a: "flatten_steps vs (q @ sfx) (d + 1) = Inr ns" "nss = ns # nss'"
      "mapR (\<lambda>(sfx, vs). flatten_steps vs (q @ sfx) (d + 1)) xs = Inr nss'" by auto
    from Cons.prems(2) x obtain e u' ess' where b: "check_duplicate_ids vs u = Inr (e, u')" "ess = e # ess'"
      "mapS (\<lambda>(sfx, vs) seen. check_duplicate_ids vs seen) xs u' = Inr (ess', t)" by auto
    have "u' = rev (?ids ns) @ u \<and> (e = [] \<longleftrightarrow> fresh_ids (?ids ns) u)"
      using "2.IH"(1)[OF f(1,2) _ _ a(1) b(1)] Cons.prems(3) x by auto
    with Cons.IH[OF a(3) b(3)] Cons.prems(3) a(2) b(2) show ?case by (auto simp: fresh_ids_append)
  qed simp
  from loop[OF f(3) c'(1)] "2.IH"(2)[OF f(1,2,3) f(4) c'(2)] c c'(3) c2 f(5) show ?case
    by (auto simp: fresh_ids_append prop_of_opt)
qed simp


lemma accepted_parts:
  assumes "check_manifest W m = Inr r" and "valid_flag r"
  obtains nodes e2 n deep seen e6 where "validate_triggers W (mf_triggers m) = []"
    "flatten_steps (mf_steps m) [] 1 = Inr nodes"
    "mapR (\<lambda>nd. bindR (prop_of (nd_step nd) ''type'') (\<lambda>ty.
       Inr (if ty = JStr (js ''parallel'')
            then [(''parallel_not_supported_in_v1'', js ''steps.'' @ nd_path nd)] else []))) nodes = Inr e2"
    "concat e2 = []" "count_reply_steps (mf_steps m) = Inr n" "n \<le> 1"
    "max_nesting_depth (mf_steps m) 1 = Inr deep" "deep \<le> MAX_NESTING_DEPTH"
    "check_duplicate_ids (mf_steps m) [] = Inr ([], seen)"
    "mapR (validate_node W (has_webhook_trigger (mf_triggers m))) nodes = Inr e6" "concat e6 = []"
    "validate_required_inputs m = []"
proof -
  have if_Nil: "(if b then x # xs else []) = [] \<longleftrightarrow> \<not> b" for b and x :: 'z and xs by simp
  from assms show thesis
    unfolding check_manifest_def Let_def bindR_eq_Inr split_beta
    by (elim exE conjE)
       (rule that; (assumption | simp only: sum.inject validation_result.simps append_is_Nil_conv if_Nil not_less prod.collapse)?;
         auto simp: prod_eq_iff)
qed

lemma mapR_all: "mapR f xs = Inr ys \<Longrightarrow> x \<in> set xs \<Longrightarrow> \<exists>y \<in> set ys. f x = Inr y"
  by (induction xs arbitrary: ys) auto

lemma reply_needs_webhook:
  assumes "validate_node W hw nd = Inr []" and "is_reply nd"
  shows "hw"
proof (rule ccontr)
  assume "\<not> hw"
  moreover from assms obtain e where "validate_reply_step W (nd_step nd) hw = Inr e" "e = []"
    by (auto simp: validate_node_def is_reply_def node_prop_def prop_of_opt split: if_splits)
  ultimately show False by (auto simp: validate_reply_step_def issue_at_def)
qed

lemma accepted_trigger:
  assumes "validate_triggers W ts = []" and "t \<in> set ts"
  shows "tr_type t \<noteq> Event" and "tr_type t = Schedule \<Longrightarrow> \<exists>c. tr_cron t = Some c \<and> is_valid_cron c"
proof -
  obtain i where "i < length ts" "ts ! i = t" using assms(2) by (auto simp: in_set_conv_nth)
  then have "(i, t) \<in> set (enumerate 0 ts)" by (simp add: in_set_enumerate_eq)
  with assms(1) have *: "validate_trigger W (js ''triggers['' @ nat_str i @ js '']'') t = []"
    by (fastforce simp: validate_triggers_def)
  show "tr_type t \<noteq> Event" using * by (auto simp: validate_trigger_def)
  show "\<exists>c. tr_cron t = Some c \<and> is_valid_cron c" if "tr_type t = Schedule"
    using * that by (auto simp: validate_trigger_def cron_grammars_agree split: option.splits if_splits)
qed

section \<open>Properties\<close>

text \<open>
  What an accepted manifest is: in the tree of all steps, those of branches included, no two ids
  agree, there is at most one reply, and only beside a webhook trigger, no step is nested deeper
  than four and none is \<open>parallel\<close>; no trigger is an event, and a schedule has a cron expression
  that the server's scheduler parses.
\<close>

definition well_formed_tree :: "manifest \<Rightarrow> step_node list \<Rightarrow> bool" where
  "well_formed_tree m nodes \<longleftrightarrow>
     sorted_wrt (\<lambda>a b. \<not> same_value (node_prop ''id'' b) (node_prop ''id'' a)) nodes \<and>
     length (filter is_reply nodes) \<le> 1 \<and>
     list_all (\<lambda>nd. nd_depth nd \<le> 4 \<and> node_prop ''type'' nd \<noteq> JStr (js ''parallel'') \<and>
       (is_reply nd \<longrightarrow> has_webhook_trigger (mf_triggers m))) nodes \<and>
     list_all (\<lambda>t. tr_type t \<noteq> Event \<and>
       (tr_type t = Schedule \<longrightarrow> tr_cron t \<noteq> None \<and> is_valid_cron (the (tr_cron t)))) (mf_triggers m)"



definition sample_outside :: outside where
  "sample_outside = \<lparr>yaml_load = (\<lambda>_. None), schema_parse = (\<lambda>_. Inl []), config_issues = (\<lambda>_ _. []),
     valid_zone = (\<lambda>_. True), lower_case = ascii_lower\<rparr>"

definition sample_step :: "string \<Rightarrow> string \<Rightarrow> entries \<Rightarrow> jsval" where
  "sample_step i t wth = JObj [(js ''id'', JStr (js i)), (js ''type'', JStr (js t)), (js ''with'', JObj wth)]"

definition sample_manifest :: "jsval list \<Rightarrow> manifest" where
  "sample_manifest branch_steps = \<lparr>mf_name = js ''m'', mf_inputs = [],
     mf_triggers = [\<lparr>tr_type = Webhook, tr_cron = None, tr_timezone = None, tr_require_signature = True,
       tr_auth_mode = NoAuth, tr_secret = None, tr_auth_header = None, tr_auth_secret = None, tr_sync = True,
       tr_mapping = None\<rparr>],
     mf_steps = [sample_step ''c'' ''condition'' [(js ''then'', JArr branch_steps)],
                 sample_step ''r'' ''reply'' []]\<rparr>"

lemmas validator_eval = sample_outside_def sample_step_def sample_manifest_def check_manifest_def
  validate_triggers_def validate_trigger_def path_of_def template_def sub_lists_def get_member_def
  inherited_def inherited_names_def proto_name_def js_truthy_def branch_def opt_prop_def validate_node_def
  validate_http_step_def validate_reply_step_def validate_branch_step_def header_names_def object_keys_def
  or_empty_def has_webhook_trigger_def validate_required_inputs_def check_step_exprs_def check_expr_def
  same_value_def MAX_NESTING_DEPTH_def starts_with_def


text \<open>
  C36: the validator's own cron grammar and the one of the server's scheduler accept the same
  expressions, as the comment above it demands.
\<close>

theorem validator_cron_is_server_cron: "is_valid_cron_expression expr \<longleftrightarrow> is_valid_cron expr"
  by (rule cron_grammars_agree)

lemma never_Inr: "(\<And>y. r \<noteq> Inr y) \<Longrightarrow> r = Inl TypeError"
  by (cases r) (auto intro: thrown.exhaust)

lemma flatten_null: "Null \<in> set ss \<Longrightarrow> flatten_steps ss p d = Inl TypeError"
proof (induction ss)
  case (Cons s ss)
  show ?case
  proof (cases "s = Null")
    case False
    with Cons have "flatten_steps ss p d = Inl TypeError" by simp
    then have "flatten_steps (s # ss) p d \<noteq> Inr nodes" for nodes
      by (intro notI) (erule flatten_Cons, simp)
    then show ?thesis by (rule never_Inr)
  qed (simp add: path_of_def)
qed simp

text \<open>
  A null among the steps of a branch, which the schema lets through, is not reported but thrown
  out of \<open>validateManifest\<close> as a \<open>TypeError\<close>.
\<close>

theorem null_branch_step_throws:
  assumes "s \<in> set (mf_steps m)" and "prop_of s ''with'' = Inr w" and "k \<in> {''then'', ''else''}"
    and "opt_prop w k = JArr vs" and "Null \<in> set vs"
  shows "check_manifest W m = Inl TypeError"
proof -
  have "flatten_steps ss p d \<noteq> Inr nodes" if "s \<in> set ss" for ss p d nodes
    using that
  proof (induction ss arbitrary: nodes)
    case (Cons x xs)
    show ?case
    proof
      assume f: "flatten_steps (x # xs) p d = Inr nodes"
      then obtain q subs below rest where p: "sub_lists x = Inr subs"
        "mapR (\<lambda>(sfx, vs). flatten_steps vs (q @ sfx) (d + 1)) subs = Inr below" "flatten_steps xs p d = Inr rest"
        by (rule flatten_Cons)
      with Cons have "x = s" by (cases "x = s") auto
      with p(1) assms(2,3,4) have "(js (''.'' @ k), vs) \<in> set subs"
        by (auto simp: sub_lists_def branch_def)
      with mapR_all[OF p(2)] flatten_null[OF assms(5)] show False by fastforce
    qed
  qed simp
  from this[OF assms(1)] have "flatten_steps (mf_steps m) [] 1 = Inl TypeError"
    by (rule never_Inr)
  then show ?thesis by (simp add: check_manifest_def)
qed

theorem null_branch_step_throws_witness:
  "check_manifest sample_outside (sample_manifest [Null]) = Inl TypeError"
  by (rule null_branch_step_throws[where s = "sample_step ''c'' ''condition'' [(js ''then'', JArr [Null])]"
        and w = "JObj [(js ''then'', JArr [Null])]" and k = "''then''" and vs = "[Null]"])
    (simp_all add: sample_manifest_def sample_step_def get_member_def opt_prop_def)

end
