(* ===== verification/Egress.thy ===== *)
theory Egress
  imports JsValue
begin

text \<open>
  The egress policy of \<open>apps/server/src/services/run-executor.ts\<close>: \<open>isHostPrivate\<close>, the loopback
  exemption, the workspace's allowlist, the one of the environment, and \<open>checkEgressRoute\<close>.

  The platform's URL parser, resolver, \<open>isIP\<close> and \<open>BlockList\<close> are the parameters of the record
  \<open>platform\<close>; a call that throws is \<open>None\<close>.
\<close>

record url =
  u_protocol :: jstr
  u_hostname :: jstr
  u_port :: jstr
  u_href :: jstr
  u_host :: jstr

record platform =
  new_url :: "jstr \<Rightarrow> jstr option \<Rightarrow> url option"
  is_ip :: "jstr \<Rightarrow> bool"
  dns_lookup :: "jstr \<Rightarrow> jstr list option"
  block_list :: "jstr \<Rightarrow> bool option"

record egress_env =
  SEED_DEMO :: "jstr option"
  APP_URL :: "jstr option"
  HTTP_ALLOWLIST :: "jstr option"
  CONNECTOR_URL :: "jstr option"
  CONNECTOR_TOKEN :: "jstr option"

record allow_row =
  al_scheme :: jstr
  al_host :: jstr
  al_port :: "nat option"

datatype egress_route = Direct | Connector | Blocked | PrivateBlocked

section \<open>Private addresses\<close>

text \<open>\<open>addresses.some(isPrivateIp)\<close> until the first that is private; \<open>None\<close> when a check throws.\<close>

fun any_private :: "(jstr \<Rightarrow> bool option) \<Rightarrow> jstr list \<Rightarrow> bool option" where
  "any_private f [] = Some False"
| "any_private f (a # as) =
     (case f a of None \<Rightarrow> None | Some True \<Rightarrow> Some True | Some False \<Rightarrow> any_private f as)"

text \<open>
  A literal address is checked outside the \<open>try\<close>, so there the check may throw; every failure
  of the lookup counts as private.
\<close>

definition is_host_private :: "platform \<Rightarrow> jstr \<Rightarrow> bool option" where
  "is_host_private p h =
     (if is_ip p h then block_list p h
      else Some (case dns_lookup p h of
                   None \<Rightarrow> True
                 | Some [] \<Rightarrow> True
                 | Some as \<Rightarrow> (case any_private (block_list p) as of None \<Rightarrow> True | Some b \<Rightarrow> b)))"

section \<open>The loopback exemption\<close>

definition nonempty :: "jstr option \<Rightarrow> jstr option" where
  "nonempty s = (case s of Some [] \<Rightarrow> None | _ \<Rightarrow> s)"

definition resolve_app_url :: "egress_env \<Rightarrow> jstr option" where
  "resolve_app_url e = nonempty (APP_URL e)"

definition effective_port :: "url \<Rightarrow> jstr" where
  "effective_port u = (if u_port u \<noteq> [] then u_port u else if u_protocol u = js ''https:'' then js ''443'' else js ''80'')"

definition is_loopback_exempt :: "platform \<Rightarrow> (jstr \<Rightarrow> jstr) \<Rightarrow> egress_env \<Rightarrow> url \<Rightarrow> bool" where
  "is_loopback_exempt p lower e u =
     (if SEED_DEMO e \<noteq> Some (js ''true'') \<and> SEED_DEMO e \<noteq> Some (js ''1'') then False
      else case resolve_app_url e of
        None \<Rightarrow> False
      | Some a \<Rightarrow>
         (case new_url p a None of
            None \<Rightarrow> False
          | Some au \<Rightarrow> lower (u_hostname au) = lower (u_hostname u) \<and> effective_port au = effective_port u))"

section \<open>The allowlists\<close>

definition scheme_of :: "url \<Rightarrow> jstr" where
  "scheme_of u = (let i = takeWhile (\<lambda>c. c \<noteq> 58) (u_protocol u) in i @ drop (length i + 1) (u_protocol u))"

definition allowlist_contains :: "(jstr \<Rightarrow> jstr) \<Rightarrow> allow_row list \<Rightarrow> jstr \<Rightarrow> jstr \<Rightarrow> jstr \<Rightarrow> bool" where
  "allowlist_contains lower rows scheme host prt =
     list_ex (\<lambda>r. al_scheme r = scheme \<and> lower (al_host r) = host \<and>
       (case al_port r of
          None \<Rightarrow> prt = (if scheme = js ''https'' then js ''443'' else js ''80'')
        | Some n \<Rightarrow> nat_str n = prt)) rows"

text \<open>The entries of \<open>FF_HTTP_ALLOWLIST\<close>: \<open>/^([a-z]+):\/\/(.+)$/i\<close>, else the whole entry.\<close>

definition env_entries :: "egress_env \<Rightarrow> jstr list" where
  "env_entries e =
     filter (\<lambda>s. s \<noteq> []) (map trim (str_split (case HTTP_ALLOWLIST e of None \<Rightarrow> [] | Some s \<Rightarrow> s) (js '','')))"

definition split_entry :: "(jstr \<Rightarrow> jstr) \<Rightarrow> jstr \<Rightarrow> jstr option \<times> jstr" where
  "split_entry lower s =
     (let a = takeWhile is_alpha s; r = dropWhile is_alpha s in
      if a \<noteq> [] \<and> starts_with r (js ''://'') \<and> drop 3 r \<noteq> [] \<and> list_all (\<lambda>c. c \<notin> {10, 13, 8232, 8233}) (drop 3 r)
      then (Some (lower a), drop 3 r) else (None, s))"

definition entry_allows :: "(jstr \<Rightarrow> jstr) \<Rightarrow> jstr \<Rightarrow> jstr \<Rightarrow> jstr \<Rightarrow> jstr \<Rightarrow> bool" where
  "entry_allows lower entry scheme host prt =
     (let (sch, hp) = split_entry lower entry; parts = str_split hp (js '':'');
          h = hd parts; p = (case parts of _ # q # _ \<Rightarrow> q | _ \<Rightarrow> [])
      in h \<noteq> [] \<and> host = lower h \<and>
         (p = [] \<or> p = prt \<or> (sch = None \<and> (prt = js ''80'' \<or> prt = js ''443''))) \<and>
         (sch = None \<or> sch = Some scheme))"

definition same_host :: "platform \<Rightarrow> (jstr \<Rightarrow> jstr) \<Rightarrow> jstr \<Rightarrow> jstr \<Rightarrow> bool" where
  "same_host p lower s host = (case new_url p s None of None \<Rightarrow> False | Some u \<Rightarrow> lower (u_hostname u) = host)"

section \<open>The route of a request\<close>

definition allowed_route ::
  "platform \<Rightarrow> (jstr \<Rightarrow> jstr) \<Rightarrow> egress_env \<Rightarrow> allow_row list \<Rightarrow> url \<Rightarrow> egress_route" where
  "allowed_route p lower e rows x =
     (let host = lower (u_hostname x); prt = effective_port x in
      if allowlist_contains lower rows (scheme_of x) host prt then Direct
      else if list_ex (\<lambda>s. entry_allows lower s (scheme_of x) host prt) (env_entries e) then Direct
      else if (case resolve_app_url e of None \<Rightarrow> False | Some a \<Rightarrow> same_host p lower a host) then Direct
      else case nonempty (CONNECTOR_URL e) of
        None \<Rightarrow> Blocked
      | Some c \<Rightarrow> if same_host p lower c host then Direct else Connector)"

definition check_egress_route ::
  "platform \<Rightarrow> (jstr \<Rightarrow> jstr) \<Rightarrow> egress_env \<Rightarrow> allow_row list \<Rightarrow> jstr \<Rightarrow> egress_route option" where
  "check_egress_route p lower e rows u =
     (case new_url p u None of
        None \<Rightarrow> Some Blocked
      | Some x \<Rightarrow>
         if is_loopback_exempt p lower e x then Some (allowed_route p lower e rows x)
         else case is_host_private p (lower (u_hostname x)) of
           None \<Rightarrow> None
         | Some private \<Rightarrow> Some (if private then PrivateBlocked else allowed_route p lower e rows x))"

text \<open>What lets a host through without the connector.\<close>

definition host_named :: "platform \<Rightarrow> (jstr \<Rightarrow> jstr) \<Rightarrow> egress_env \<Rightarrow> allow_row list \<Rightarrow> url \<Rightarrow> bool" where
  "host_named p lower e rows x \<longleftrightarrow>
     (let host = lower (u_hostname x) in
      (\<exists>r \<in> set rows. lower (al_host r) = host) \<or>
      (\<exists>s \<in> set (env_entries e). entry_allows lower s (scheme_of x) host (effective_port x)) \<or>
      (\<exists>a. APP_URL e = Some a \<and> same_host p lower a host) \<or>
      (\<exists>c. CONNECTOR_URL e = Some c \<and> same_host p lower c host))"

definition public_or_exempt :: "platform \<Rightarrow> (jstr \<Rightarrow> jstr) \<Rightarrow> egress_env \<Rightarrow> url \<Rightarrow> bool" where
  "public_or_exempt p lower e x \<longleftrightarrow> is_loopback_exempt p lower e x \<or> is_host_private p (lower (u_hostname x)) = Some False"

lemma nonempty_Some: "nonempty x = Some s \<Longrightarrow> x = Some s"
  by (auto simp: nonempty_def split: option.splits list.splits)

lemma allowlist_names: "allowlist_contains lower rows sch host prt \<Longrightarrow> \<exists>r \<in> set rows. lower (al_host r) = host"
  by (auto simp: allowlist_contains_def list_ex_iff)

lemma allowed_named: "allowed_route p lower e rows x = Direct \<Longrightarrow> host_named p lower e rows x"
  unfolding allowed_route_def host_named_def Let_def resolve_app_url_def
  by (auto dest!: nonempty_Some dest: allowlist_names simp: list_ex_iff simp del: js.simps split: option.splits if_splits)

lemma allowed_not_private: "allowed_route p lower e rows x \<noteq> PrivateBlocked"
  by (auto simp: allowed_route_def Let_def split: option.splits)

lemma route_public:
  "check_egress_route p lower e rows u = Some rt \<Longrightarrow> rt = Direct \<or> rt = Connector \<Longrightarrow>
   \<exists>x. new_url p u None = Some x \<and> public_or_exempt p lower e x \<and> (rt = Direct \<longrightarrow> host_named p lower e rows x)"
  using allowed_named [of p lower e rows]
  by (auto simp: check_egress_route_def public_or_exempt_def split: option.splits if_splits)

lemma connector_configured:
  "check_egress_route p lower e rows u = Some Connector \<Longrightarrow> \<exists>c. nonempty (CONNECTOR_URL e) = Some c"
  by (auto simp: check_egress_route_def allowed_route_def Let_def simp del: js.simps split: option.splits if_splits)

section \<open>The bare entries of the environment\<close>

lemma split_at_sep: "c \<notin> set h \<Longrightarrow> split_at [c] cur (h @ c # t) = (rev cur @ h) # split_at [c] [] t"
  by (induction h arbitrary: cur) (auto simp: starts_with_def)

lemma split_at_none: "c \<notin> set t \<Longrightarrow> split_at [c] cur t = [rev cur @ t]"
  by (induction t arbitrary: cur) (auto simp: starts_with_def)

lemma split_entry_bare:
  assumes "58 \<notin> set h" "list_all is_digit t"
  shows "split_entry lower (h @ 58 # t) = (None, h @ 58 # t)"
proof -
  have d: "\<not> starts_with (dropWhile is_alpha (h @ 58 # t)) (js ''://'')"
  proof (cases "list_all is_alpha h")
    case True
    then have "dropWhile is_alpha (h @ 58 # t) = 58 # t"
      by (simp add: dropWhile_append2 list_all_iff is_alpha_def is_lower_def is_upper_def)
    moreover have "take 1 t \<noteq> [47]" using assms(2) by (cases t) (auto simp: is_digit_def)
    ultimately show ?thesis by (cases t) (auto simp: starts_with_def)
  next
    case False
    then have ne: "dropWhile is_alpha h \<noteq> []" by (auto simp: list_all_iff)
    then have "dropWhile is_alpha (h @ 58 # t) = dropWhile is_alpha h @ 58 # t"
      by (auto simp: list_all_iff dropWhile_append)
    moreover obtain c r where "dropWhile is_alpha h = c # r" using ne by (cases "dropWhile is_alpha h") auto
    moreover from this have "c \<in> set h" by (metis list.set_intros(1) set_dropWhileD)
    ultimately show ?thesis using assms(1) by (auto simp: starts_with_def)
  qed
  show ?thesis unfolding split_entry_def Let_def using d by simp
qed

text \<open>
  An entry \<open>host:port\<close> of \<open>FF_HTTP_ALLOWLIST\<close> without a scheme does not keep to its port:
  it also allows the host on 80 and 443, in either scheme.
\<close>

theorem bare_entry_opens_default_ports:
  assumes "58 \<notin> set h" "h \<noteq> []" "list_all is_digit t"
  shows "entry_allows lower (h @ 58 # t) scheme (lower h) (js ''80'') \<and>
    entry_allows lower (h @ 58 # t) scheme (lower h) (js ''443'')"
proof -
  have "58 \<notin> set t" using assms(3) by (auto simp: list_all_iff is_digit_def)
  then have "str_split (h @ 58 # t) (js '':'') = [h, t]"
    using split_at_sep [OF assms(1), of "[]" t] by (simp add: str_split_def split_at_none)
  then show ?thesis
    using assms(2) by (simp add: entry_allows_def split_entry_bare [OF assms(1,3)] del: js.simps)
qed

theorem bare_entry_opens_default_ports_witness:
  "entry_allows ascii_lower (js ''api.example.com:8443'') (js ''http'') (ascii_lower (js ''api.example.com'')) (js ''80'')"
  using bare_entry_opens_default_ports [of "js ''api.example.com''" "js ''8443''" ascii_lower "js ''http''"]
  by (simp add: is_digit_def)

end
