(* ===== verification/HttpStep.thy ===== *)
theory HttpStep
  imports Egress
begin

text \<open>
  The sending half of \<open>executeHttpStep\<close> in \<open>apps/server/src/services/run-executor.ts\<close>: the first
  hop, the redirects, the attempts and the pauses between them.

  The network is the parameter \<open>fetch_\<close>, which gives the answer to the n-th request of the run, or
  the message of the error it throws; \<open>random\<close> gives the draws of \<open>Math.random\<close> and \<open>json_parse\<close>
  is \<open>JSON.parse\<close>.  A header object is an association list without duplicates.
\<close>

type_synonym headers = "(jstr \<times> jstr) list"

record request =
  rq_url :: jstr
  rq_method :: jstr
  rq_headers :: headers
  rq_body :: "jstr option"

record response =
  rs_status :: nat
  rs_headers :: headers
  rs_text :: "jstr + jstr"

record net_env =
  ne_platform :: platform
  ne_lower :: "jstr \<Rightarrow> jstr"
  ne_egress :: egress_env
  ne_rows :: "allow_row list"
  ne_fetch :: "nat \<Rightarrow> request \<Rightarrow> jstr + response"
  ne_random :: "nat \<Rightarrow> rat"
  ne_json_parse :: "jstr \<Rightarrow> jsval option"

record net_state =
  sent :: "request list"
  slept :: "int list"

text \<open>What every hop of a step is built from.\<close>

record hop_base =
  hb_headers :: headers
  hb_idem :: jstr
  hb_auth :: "jstr option"
  hb_target_auth :: "jstr option"
  hb_token :: jstr

record retry =
  rt_attempts :: int
  rt_fixed :: bool
  rt_base_ms :: int
  rt_max_ms :: int
  rt_jitter :: bool

section \<open>Hops\<close>

definition MAX_REDIRECTS :: nat where "MAX_REDIRECTS = 3"

definition RETRYABLE_STATUS :: "nat list" where "RETRYABLE_STATUS = [408, 429, 500, 502, 503, 504]"

definition route_of :: "net_env \<Rightarrow> jstr \<Rightarrow> egress_route option" where
  "route_of e u = check_egress_route (ne_platform e) (ne_lower e) (ne_egress e) (ne_rows e) u"

definition connector_url :: "net_env \<Rightarrow> jstr" where
  "connector_url e = (case CONNECTOR_URL (ne_egress e) of Some c \<Rightarrow> c | None \<Rightarrow> [])"

definition bearer :: "jstr \<Rightarrow> jstr" where
  "bearer t = js ''Bearer '' @ t"

definition with_target_auth :: "hop_base \<Rightarrow> headers \<Rightarrow> headers" where
  "with_target_auth hb hs =
     (case hb_auth hb of
        None \<Rightarrow> hs
      | Some a \<Rightarrow> AList.update (js ''X-Target-Authorization'') (case hb_target_auth hb of Some t \<Rightarrow> t | None \<Rightarrow> a) hs)"

definition direct_headers :: "hop_base \<Rightarrow> headers" where
  "direct_headers hb = AList.update (js ''X-Idempotency-Key'') (hb_idem hb) (hb_headers hb)"

definition first_connector_headers :: "hop_base \<Rightarrow> jstr \<Rightarrow> headers" where
  "first_connector_headers hb u =
     AList.update (js ''X-Idempotency-Key'') (hb_idem hb)
       (with_target_auth hb
         (AList.update (js ''Authorization'') (bearer (hb_token hb))
           (AList.update (js ''X-Target-URL'') u (hb_headers hb))))"

definition connector_headers :: "hop_base \<Rightarrow> jstr \<Rightarrow> headers" where
  "connector_headers hb u =
     with_target_auth hb
       (AList.update (js ''Authorization'') (bearer (hb_token hb))
         (AList.update (js ''X-Target-URL'') u
           (AList.update (js ''X-Idempotency-Key'') (hb_idem hb) (hb_headers hb))))"

definition safe_host :: "net_env \<Rightarrow> jstr \<Rightarrow> jstr" where
  "safe_host e u = (case new_url (ne_platform e) u None of Some x \<Rightarrow> u_host x | None \<Rightarrow> take 60 u)"

datatype hop_end = HopThrew jstr | HopRefused jstr jstr | HopTooMany | HopDone response

definition send :: "net_env \<Rightarrow> request \<Rightarrow> net_state \<Rightarrow> (jstr + response) \<times> net_state" where
  "send e rq s = (ne_fetch e (length (sent s)) rq, s\<lparr>sent := sent s @ [rq]\<rparr>)"

definition redirect_location :: "response \<Rightarrow> jstr option" where
  "redirect_location rs =
     (if rs_status rs \<in> {301, 302, 303, 307, 308} then
        (case map_of (rs_headers rs) (js ''location'') of Some (c # l) \<Rightarrow> Some (c # l) | _ \<Rightarrow> None)
      else None)"

text \<open>The request that follows a redirect to \<open>u\<close> with route \<open>rt\<close>.\<close>

definition next_request :: "net_env \<Rightarrow> hop_base \<Rightarrow> nat \<Rightarrow> jstr \<Rightarrow> egress_route \<Rightarrow> request \<Rightarrow> request" where
  "next_request e hb st u rt rq =
     (let rq1 = (if rt = Connector
                 then rq\<lparr>rq_url := connector_url e, rq_headers := connector_headers hb u\<rparr>
                 else rq\<lparr>rq_url := u, rq_headers := direct_headers hb\<rparr>)
      in if st = 303 then rq1\<lparr>rq_method := js ''GET'', rq_body := None\<rparr> else rq1)"

fun follow :: "net_env \<Rightarrow> hop_base \<Rightarrow> nat \<Rightarrow> request \<Rightarrow> net_state \<Rightarrow> hop_end \<times> net_state" where
  "follow e hb left rq s =
     (case send e rq s of
        (Inl msg, s1) \<Rightarrow> (HopThrew msg, s1)
      | (Inr rs, s1) \<Rightarrow>
         (case redirect_location rs of
            None \<Rightarrow> (case rs_text rs of Inl msg \<Rightarrow> (HopThrew msg, s1) | Inr _ \<Rightarrow> (HopDone rs, s1))
          | Some loc \<Rightarrow>
             if left = 0 then (HopTooMany, s1)
             else case new_url (ne_platform e) loc (Some (rq_url rq)) of
               None \<Rightarrow> (HopThrew (js ''Invalid URL''), s1)
             | Some x \<Rightarrow>
                (case route_of e (u_href x) of
                   None \<Rightarrow> (HopThrew (js ''Invalid address''), s1)
                 | Some PrivateBlocked \<Rightarrow>
                     (HopRefused (js ''private_ip_blocked'') (js ''Redirect to private IP blocked: '' @ safe_host e (u_href x)), s1)
                 | Some Blocked \<Rightarrow>
                     (HopRefused (js ''host_not_allowed'') (js ''Redirect host not on the egress allowlist: '' @ safe_host e (u_href x)), s1)
                 | Some rt \<Rightarrow> follow e hb (left - 1) (next_request e hb (rs_status rs) (u_href x) rt rq) s1)))"

declare follow.simps [simp del]

section \<open>Attempts\<close>

text \<open>The pause before the next attempt, in milliseconds.\<close>

definition backoff_ms :: "retry \<Rightarrow> nat \<Rightarrow> rat \<Rightarrow> int" where
  "backoff_ms rt attempt r =
     (let ms = (if rt_fixed rt then of_int (rt_base_ms rt) else of_int (rt_base_ms rt) * 2 ^ (attempt - 1));
          ms' = (if rt_jitter rt then ms * (3 / 4 + r / 2) else ms)
      in floor (min ms' (of_int (rt_max_ms rt))))"

definition backoff_sleep :: "net_env \<Rightarrow> retry \<Rightarrow> nat \<Rightarrow> net_state \<Rightarrow> net_state" where
  "backoff_sleep e rt attempt s = s\<lparr>slept := slept s @ [backoff_ms rt attempt (ne_random e (length (slept s)))]\<rparr>"

definition max_attempts :: "retry \<Rightarrow> nat" where
  "max_attempts rt = nat (min (max 1 (rt_attempts rt)) 10)"

datatype http_end = HttpError jstr jstr | HttpRefused jstr jstr | HttpAnswer response

definition response_ok :: "response \<Rightarrow> bool" where
  "response_ok rs \<longleftrightarrow> 200 \<le> rs_status rs \<and> rs_status rs \<le> 299"

text \<open>\<open>attempt_loop n k\<close> makes attempt \<open>k\<close> and at most \<open>n - 1\<close> more.\<close>

primrec attempt_loop ::
  "net_env \<Rightarrow> hop_base \<Rightarrow> retry \<Rightarrow> request \<Rightarrow> nat \<Rightarrow> nat \<Rightarrow> net_state \<Rightarrow> http_end \<times> net_state" where
  "attempt_loop e hb rt rq 0 k s = (HttpError (js ''timeout_exceeded'') (js ''request failed''), s)"
| "attempt_loop e hb rt rq (Suc n) k s =
     (let again = (\<lambda>err s1. if n = 0 then (err, s1) else attempt_loop e hb rt rq n (Suc k) (backoff_sleep e rt k s1))
      in case follow e hb MAX_REDIRECTS rq s of
           (HopRefused c m, s1) \<Rightarrow> (HttpRefused c m, s1)
         | (HopTooMany, s1) \<Rightarrow> again (HttpError (js ''too_many_redirects'') (js ''Exceeded max redirects (3)'')) s1
         | (HopThrew m, s1) \<Rightarrow> again (HttpError (js ''step_error'') (take 500 m)) s1
         | (HopDone rs, s1) \<Rightarrow>
             if \<not> response_ok rs \<and> rs_status rs \<in> set RETRYABLE_STATUS then again (HttpAnswer rs) s1
             else (HttpAnswer rs, s1))"

text \<open>The output of a step from the answer it got.\<close>

definition HTTP_BODY_LIMIT :: nat where "HTTP_BODY_LIMIT = 1048576"

definition content_type :: "net_env \<Rightarrow> headers \<Rightarrow> jstr" where
  "content_type e hs = ne_lower e (case map_of hs (js ''content-type'') of Some c \<Rightarrow> c | None \<Rightarrow> [])"

definition http_output :: "net_env \<Rightarrow> response \<Rightarrow> jsval" where
  "http_output e rs =
     (let text = (case rs_text rs of Inr t \<Rightarrow> t | Inl _ \<Rightarrow> []);
          truncated = HTTP_BODY_LIMIT < utf8_length text;
          body = (if truncated then take HTTP_BODY_LIMIT text else text);
          parsed = (if str_includes (content_type e (rs_headers rs)) (js ''application/json'')
                    then (case ne_json_parse e body of Some v \<Rightarrow> v | None \<Rightarrow> JStr body) else JStr body)
      in JObj ([(js ''status'', JNum (Num (of_nat (rs_status rs)))),
               (js ''headers'', JObj (map (\<lambda>h. (fst h, JStr (snd h))) (rs_headers rs))), (js ''body'', parsed)] @
              (if truncated then [(js ''truncated'', JBool True)] else [])))"

section \<open>Every request is authorised\<close>

text \<open>
  A request goes straight to a URL whose route is direct, without the connector's token, or to the
  connector, with the token and the target, for a URL whose route is the connector.
\<close>

definition authorised :: "net_env \<Rightarrow> hop_base \<Rightarrow> request \<Rightarrow> bool" where
  "authorised e hb rq \<longleftrightarrow>
     (route_of e (rq_url rq) = Some Direct \<and> rq_headers rq = direct_headers hb) \<or>
     (\<exists>u. route_of e u = Some Connector \<and> rq_url rq = connector_url e \<and>
        (rq_headers rq = connector_headers hb u \<or> rq_headers rq = first_connector_headers hb u))"

lemma next_authorised:
  "route_of e u = Some rt \<Longrightarrow> rt = Direct \<or> rt = Connector \<Longrightarrow> authorised e hb (next_request e hb st u rt rq)"
  by (auto simp: authorised_def next_request_def Let_def)

text \<open>What a run of requests adds: at most \<open>n\<close>, all authorised.\<close>

definition adds :: "net_env \<Rightarrow> hop_base \<Rightarrow> nat \<Rightarrow> net_state \<Rightarrow> net_state \<Rightarrow> bool" where
  "adds e hb n s s' \<longleftrightarrow> (\<exists>new. sent s' = sent s @ new \<and> length new \<le> n \<and> list_all (authorised e hb) new)"

lemma adds_trans: "adds e hb m s t \<Longrightarrow> adds e hb n t u \<Longrightarrow> adds e hb (m + n) s u"
  by (auto simp: adds_def)

lemma adds_mono: "adds e hb m s t \<Longrightarrow> m \<le> n \<Longrightarrow> adds e hb n s t"
  by (auto simp: adds_def)

lemma adds_sleep: "adds e hb n s t \<Longrightarrow> adds e hb n s (backoff_sleep e rt k t)"
  by (simp add: adds_def backoff_sleep_def)

lemma follow_adds:
  "authorised e hb rq \<Longrightarrow> adds e hb (Suc left) s (snd (follow e hb left rq s))"
proof (induction left arbitrary: rq s)
  case 0
  then show ?case
    by (subst follow.simps) (auto simp: adds_def send_def split: sum.splits option.splits)
next
  case (Suc left)
  let ?s = "s\<lparr>sent := sent s @ [rq]\<rparr>"
  have one: "adds e hb (Suc 0) s ?s" using Suc.prems by (simp add: adds_def)
  have one': "adds e hb (Suc (Suc left)) s ?s" by (rule adds_mono [OF one]) simp
  have rest: "adds e hb (Suc (Suc left)) s (snd (follow e hb left (next_request e hb st u rt rq) ?s))"
    if "route_of e u = Some rt" "rt = Direct \<or> rt = Connector" for st u rt
    using adds_trans [OF one Suc.IH [OF next_authorised [OF that]]] by simp
  show ?case
    by (subst follow.simps)
       (auto simp: send_def one' intro!: rest split: sum.splits option.splits egress_route.splits)
qed

lemma attempts_add:
  "authorised e hb rq \<Longrightarrow> adds e hb (n * 4) s (snd (attempt_loop e hb rt rq n k s))"
proof (induction n arbitrary: k s)
  case 0
  then show ?case by (simp add: adds_def)
next
  case (Suc n)
  obtain h s1 where f: "follow e hb MAX_REDIRECTS rq s = (h, s1)" by fastforce
  have a: "adds e hb 4 s s1"
    using follow_adds [OF Suc.prems, of MAX_REDIRECTS s] unfolding f by (simp add: MAX_REDIRECTS_def)
  have "adds e hb (4 + n * 4) s (snd (attempt_loop e hb rt rq n (Suc k) (backoff_sleep e rt k s1)))"
    by (rule adds_trans [OF adds_sleep [OF a] Suc.IH [OF Suc.prems]])
  moreover have "adds e hb (4 + n * 4) s s1" by (rule adds_mono [OF a]) simp
  ultimately show ?case by (auto simp: f Let_def split: hop_end.splits)
qed

end
