(* ===== verification/Durations.thy ===== *)
theory Durations
  imports JsNumber
begin

text \<open>
  \<open>apps/server/src/lib/durations.ts\<close>: the duration of a delay step, in milliseconds as a number of
  the language, and the cap of the local runner; and the instants of \<open>Date\<close>.
\<close>

definition unit_factors :: "code_unit \<Rightarrow> rat list option" where
  "unit_factors c =
     (if c = 115 then Some [1000] else if c = 109 then Some [60, 1000]
      else if c = 104 then Some [60, 60, 1000] else if c = 100 then Some [24, 60, 60, 1000] else None)"

definition parse_duration_ms :: "jstr \<Rightarrow> jsnum option" where
  "parse_duration_ms input =
     (let s = trim input; ds = takeWhile is_digit s in
      case dropWhile is_space (dropWhile is_digit s) of
        [u] \<Rightarrow>
          (case unit_factors u of
             None \<Rightarrow> None
           | Some fs \<Rightarrow>
              if ds = [] then None
              else (case parse_int10 ds of
                      Num v \<Rightarrow> if v \<le> 0 then None else Some (fold (\<lambda>f m. js_mul m (Num f)) fs (Num v))
                    | _ \<Rightarrow> None))
      | _ \<Rightarrow> None)"

definition is_within_local_delay_cap :: "jstr \<Rightarrow> bool" where
  "is_within_local_delay_cap input =
     (case parse_duration_ms input of None \<Rightarrow> False | Some ms \<Rightarrow> js_le ms (Num (5 * 60 * 1000)))"

text \<open>The instant a number of milliseconds stands for; \<open>None\<close> is an invalid date.\<close>

definition to_instant :: "jsnum \<Rightarrow> int option" where
  "to_instant n =
     (case n of
        Num q \<Rightarrow> if \<bar>q\<bar> \<le> 8640000000000000 then Some (trunc_rat q) else None
      | NegZero \<Rightarrow> Some 0
      | _ \<Rightarrow> None)"

section \<open>Durations as written\<close>

lemma js_mul_nat:
  assumes "0 < a" "0 < b" "a * b < 2 ^ 53"
  shows "js_mul (Num (of_nat a)) (Num (of_nat b)) = Num (of_nat (a * b))"
  using round_double_int [of "int (a * b)"] assms by (simp add: js_mul_def flip: of_nat_mult)

definition unit_ms :: "code_unit \<Rightarrow> nat" where
  "unit_ms u = (if u = 115 then 1000 else if u = 109 then 60000 else if u = 104 then 3600000 else 86400000)"

lemma nat_str_unit:
  assumes "u \<in> {115, 109, 104, 100}"
  shows "trim (nat_str n @ [u]) = nat_str n @ [u]" "takeWhile is_digit (nat_str n @ [u]) = nat_str n"
    "dropWhile is_digit (nat_str n @ [u]) = [u]" "\<not> is_space u"
proof -
  have u: "\<not> is_digit u" "\<not> is_space u" using assms by (auto simp: is_digit_def is_space_def)
  have d: "\<forall>c \<in> set (nat_str n). is_digit c" using digits_nat_str [of n] by (simp add: list_all_iff)
  show "takeWhile is_digit (nat_str n @ [u]) = nat_str n" "dropWhile is_digit (nat_str n @ [u]) = [u]" "\<not> is_space u"
    using u d by (simp_all add: takeWhile_append2 dropWhile_append2)
  show "trim (nat_str n @ [u]) = nat_str n @ [u]"
    using u nat_str_head [of n] by (auto simp: trim_def trim_start_def not_space_digit)
qed

lemma parse_duration_nat:
  assumes "u \<in> {115, 109, 104, 100}" "0 < n" "n * unit_ms u < 2 ^ 53"
  shows "parse_duration_ms (nat_str n @ [u]) = Some (Num (of_nat (n * unit_ms u)))"
proof -
  have fs: "\<exists>fs. unit_factors u = Some (map of_nat fs) \<and> list_all (\<lambda>f. 0 < f) fs \<and> prod_list fs = unit_ms u"
    using assms(1)
    by (auto simp: unit_factors_def unit_ms_def intro: exI [of _ "[1000]"] exI [of _ "[60, 1000]"]
        exI [of _ "[60, 60, 1000]"] exI [of _ "[24, 60, 60, 1000]"])
  then obtain fs where fs: "unit_factors u = Some (map of_nat fs)" "list_all (\<lambda>f. 0 < f) fs" "prod_list fs = unit_ms u"
    by blast
  have step: "fold (\<lambda>f m. js_mul m (Num f)) (map of_nat fs) (Num (of_nat k)) = Num (of_nat (k * prod_list fs))"
    if "0 < k" "list_all (\<lambda>f. 0 < f) fs" "k * prod_list fs < 2 ^ 53" for k :: nat and fs
    using that
  proof (induction fs arbitrary: k)
    case (Cons f fs)
    have "0 < prod_list fs" using Cons.prems(2) by (induction fs) auto
    then have "k * f \<le> k * (f * prod_list fs)" by simp
    also have "\<dots> < 2 ^ 53" using Cons.prems(3) by simp
    finally have "k * f < 2 ^ 53" .
    then show ?case using Cons.IH [of "k * f"] Cons.prems by (simp add: js_mul_nat mult.assoc)
  qed simp
  have "n \<le> n * unit_ms u" by (simp add: unit_ms_def)
  also have "\<dots> < 2 ^ 53" by (rule assms(3))
  finally have "parse_int10 (nat_str n) = Num (of_nat n)" by (rule parse_int10_nat_str)
  then show ?thesis
    using assms step [OF assms(2) fs(2)] fs(1,3)
    by (simp add: parse_duration_ms_def nat_str_unit [OF assms(1)])
qed

end
