(* ===== verification/RunStore.thy ===== *)
theory RunStore
  imports Plans JsNumber
begin

text \<open>
  The tables behind a run's life, and the writes that every part of the server shares: the metering
  of a terminal run (\<open>apps/server/src/services/billing.ts\<close>), the enqueueing of a run's job
  (\<open>services/queue.ts\<close>) and the counters of admission (\<open>auth/entitlements.ts\<close>).

  A table is a list of rows in the order of their creation; ids are natural numbers, times are
  milliseconds, \<open>started_at\<close> and \<open>job_id\<close> are kept as whether they are set.  A transaction and a
  handler run without interleaving; the executor, which does interleave, is split into its first
  and last writes (theory \<open>Scheduler\<close>).
\<close>

datatype run_status = Queued | Running | WaitingRun | PausedRun | Succeeded | FailedRun | Canceled

record run =
  run_id :: nat
  run_ws :: nat
  run_wf :: nat
  run_version :: nat
  run_trigger :: "nat option"
  run_key :: jstr
  run_status :: run_status
  run_inputs :: jstr
  run_started :: bool
  run_created :: int
  run_timeout :: int
  run_resume :: "int option"
  run_job :: bool
  run_heartbeat :: int
  run_recovery :: nat
  run_blocked :: bool
  run_error :: "string option"

datatype task_status = Pending | Approved | Rejected | TimedOut | TaskCanceled

record task =
  tk_id :: nat
  tk_run :: nat
  tk_path :: jstr
  tk_status :: task_status
  tk_abort :: bool
  tk_timeout :: "int option"

record step_entry =
  se_id :: nat
  se_attempt :: nat
  se_run :: nat
  se_path :: jstr
  se_status :: string
  se_continue :: bool

record workflow =
  wf_id :: nat
  wf_ws :: nat
  wf_enabled :: bool
  wf_version :: "nat option"
  wf_concurrent :: bool

record trigger_row =
  tg_id :: nat
  tg_wf :: nat
  tg_cron :: "jstr option"
  tg_enabled :: bool
  tg_next :: int

record store =
  db_runs :: "run list"
  db_events :: "(nat \<times> string) list"
  db_steps :: "step_entry list"
  db_tasks :: "task list"
  db_usage :: "(nat \<times> nat \<times> string) list"
  db_daily :: "((nat \<times> int) \<times> nat \<times> nat) list"
  db_subs :: "subscription list"
  db_locks :: "nat list"
  db_wflocks :: "(nat \<times> int) list"
  db_leases :: "((nat \<times> int) \<times> int) list"
  db_queue :: "nat list"
  db_plans :: "(nat \<times> string) list"
  db_wfs :: "workflow list"
  db_trigs :: "trigger_row list"
  db_replay :: "((nat \<times> nat \<times> jstr) \<times> int) list"
  db_next :: nat

section \<open>Reading and writing rows\<close>

definition find_run :: "nat \<Rightarrow> store \<Rightarrow> run option" where
  "find_run i db = List.find (\<lambda>r. run_id r = i) (db_runs db)"

text \<open>\<open>UPDATE runs SET f WHERE p\<close>.\<close>

definition update_runs :: "(run \<Rightarrow> bool) \<Rightarrow> (run \<Rightarrow> run) \<Rightarrow> store \<Rightarrow> store" where
  "update_runs p f db = db\<lparr>db_runs := map (\<lambda>r. if p r then f r else r) (db_runs db)\<rparr>"

definition update_run :: "nat \<Rightarrow> (run \<Rightarrow> run) \<Rightarrow> store \<Rightarrow> store" where
  "update_run i f = update_runs (\<lambda>r. run_id r = i) f"

definition add_event :: "nat \<Rightarrow> string \<Rightarrow> store \<Rightarrow> store" where
  "add_event i ev db = db\<lparr>db_events := db_events db @ [(i, ev)]\<rparr>"

definition is_terminal_status :: "run_status \<Rightarrow> bool" where
  "is_terminal_status s \<longleftrightarrow> s \<in> {Succeeded, FailedRun, Canceled}"

section \<open>Metering\<close>

definition billed_steps :: "nat \<Rightarrow> store \<Rightarrow> nat" where
  "billed_steps i db =
     length (filter (\<lambda>s. se_run s = i \<and> se_status s \<in> {''succeeded'', ''failed''}) (db_steps db))"

definition add_daily :: "nat \<Rightarrow> int \<Rightarrow> nat \<Rightarrow> store \<Rightarrow> store" where
  "add_daily ws now n db =
     (let k = (ws, now div DAY_MS) in
      db\<lparr>db_daily := AList.update k
          (case map_of (db_daily db) k of None \<Rightarrow> (1, n) | Some (c, t) \<Rightarrow> (c + 1, t + n)) (db_daily db)\<rparr>)"

definition in_period :: "int \<Rightarrow> subscription \<Rightarrow> bool" where
  "in_period now s \<longleftrightarrow> sub_active s \<and> period_start s \<le> now \<and> now < period_end s"

definition record_billing :: "nat \<Rightarrow> nat \<Rightarrow> string \<Rightarrow> int \<Rightarrow> store \<Rightarrow> store" where
  "record_billing ws i ev now db =
     (case find_run i db of
        None \<Rightarrow> db
      | Some r \<Rightarrow>
         if \<not> run_started r then db
         else if list_ex (\<lambda>(_, j, e). j = i \<and> e = ev) (db_usage db) then db
         else let db1 = add_daily ws now (billed_steps i db) (db\<lparr>db_usage := db_usage db @ [(ws, i, ev)]\<rparr>)
              in db1\<lparr>db_subs := map (\<lambda>s. if sub_ws s = ws \<and> in_period now s
                                         then s\<lparr>sub_consumed := sub_consumed s + 1\<rparr> else s) (db_subs db1)\<rparr>)"

section \<open>The queue\<close>

definition enqueue_run_job :: "nat \<Rightarrow> store \<Rightarrow> store" where
  "enqueue_run_job i db =
     add_event i ''run.queued''
       (update_run i (\<lambda>r. r\<lparr>run_job := True\<rparr>) (db\<lparr>db_queue := db_queue db @ [i]\<rparr>))"

text \<open>
  The lock of a workflow in Redis, with the instant at which it expires.  It carries no owner:
  the release deletes whatever lock is there.
\<close>

definition WORKFLOW_LOCK_TTL :: int where "WORKFLOW_LOCK_TTL = 300000"

definition acquire_workflow_lock :: "nat \<Rightarrow> int \<Rightarrow> store \<Rightarrow> store option" where
  "acquire_workflow_lock w now db =
     (case map_of (db_wflocks db) w of
        Some e \<Rightarrow> if now < e then None else Some (db\<lparr>db_wflocks := AList.update w (now + WORKFLOW_LOCK_TTL) (db_wflocks db)\<rparr>)
      | None \<Rightarrow> Some (db\<lparr>db_wflocks := AList.update w (now + WORKFLOW_LOCK_TTL) (db_wflocks db)\<rparr>))"

definition release_workflow_lock :: "nat \<Rightarrow> store \<Rightarrow> store" where
  "release_workflow_lock w db = db\<lparr>db_wflocks := filter (\<lambda>l. fst l \<noteq> w) (db_wflocks db)\<rparr>"

definition workflow_allows_concurrent :: "nat \<Rightarrow> store \<Rightarrow> bool" where
  "workflow_allows_concurrent w db =
     (case List.find (\<lambda>x. wf_id x = w) (db_wfs db) of
        None \<Rightarrow> True
      | Some x \<Rightarrow> (case wf_version x of None \<Rightarrow> False | Some _ \<Rightarrow> wf_concurrent x))"

section \<open>Admission\<close>

definition is_active :: "run \<Rightarrow> bool" where
  "is_active r \<longleftrightarrow> run_status r \<in> {Queued, Running, WaitingRun, PausedRun} \<and> \<not> run_blocked r"

definition active_count :: "nat \<Rightarrow> store \<Rightarrow> nat" where
  "active_count ws db = length (filter (\<lambda>r. run_ws r = ws \<and> is_active r) (db_runs db))"

text \<open>\<open>runs_consumed\<close> of the newest active subscription in its period, else 0.\<close>

definition runs_consumed_of :: "nat \<Rightarrow> int \<Rightarrow> store \<Rightarrow> nat" where
  "runs_consumed_of ws now db =
     (case List.find (\<lambda>s. sub_ws s = ws \<and> in_period now s) (rev (db_subs db)) of
        None \<Rightarrow> 0 | Some s \<Rightarrow> sub_consumed s)"

definition plan_of_ws :: "nat \<Rightarrow> store \<Rightarrow> plan option" where
  "plan_of_ws ws db =
     get_plan_definition (case map_of (db_plans db) ws of Some p \<Rightarrow> p | None \<Rightarrow> ''free'')"

definition over_concurrency :: "plan option \<Rightarrow> nat \<Rightarrow> bool" where
  "over_concurrency p n =
     (case p of None \<Rightarrow> False
      | Some q \<Rightarrow> (case concurrency_limit q of None \<Rightarrow> False | Some l \<Rightarrow> l \<le> n))"

definition over_run_cap :: "plan option \<Rightarrow> nat \<Rightarrow> bool" where
  "over_run_cap p used =
     (case p of None \<Rightarrow> False
      | Some q \<Rightarrow> has_hard_run_cap q \<and> (case run_limit q of Some l \<Rightarrow> l | None \<Rightarrow> 0) \<le> used)"

definition timeout_of :: "plan option \<Rightarrow> int \<Rightarrow> int" where
  "timeout_of p now =
     now + 60 * 60 * 1000 *
       (case p of None \<Rightarrow> 1 | Some q \<Rightarrow> (case workflow_timeout_hours q of None \<Rightarrow> 1 | Some h \<Rightarrow> int h))"

text \<open>The insert of a run; \<open>(idempotency_key, workspace_id)\<close> is unique, so it may conflict.\<close>

definition key_taken :: "nat \<Rightarrow> jstr \<Rightarrow> store \<Rightarrow> bool" where
  "key_taken ws key db \<longleftrightarrow> list_ex (\<lambda>r. run_ws r = ws \<and> run_key r = key) (db_runs db)"

definition new_run :: "nat \<Rightarrow> nat \<Rightarrow> nat \<Rightarrow> nat option \<Rightarrow> jstr \<Rightarrow> jstr \<Rightarrow> int \<Rightarrow> int \<Rightarrow> bool \<Rightarrow> store \<Rightarrow> run" where
  "new_run ws wfl ver trig key inp now tmo blk db =
     \<lparr>run_id = db_next db, run_ws = ws, run_wf = wfl, run_version = ver, run_trigger = trig, run_key = key,
      run_status = Queued, run_inputs = inp, run_started = False, run_created = now, run_timeout = tmo,
      run_resume = None, run_job = False, run_heartbeat = 0, run_recovery = 0, run_blocked = blk, run_error = None\<rparr>"

definition insert_run :: "run \<Rightarrow> store \<Rightarrow> store" where
  "insert_run r db =
     add_event (run_id r) ''run.created'' (db\<lparr>db_runs := db_runs db @ [r], db_next := db_next db + 1\<rparr>)"

end
