(* ===== verification/RunRoutes.thy ===== *)
theory RunRoutes
  imports RunStore
begin

text \<open>
  The handlers that start, cancel and decide runs: \<open>POST /workflows/:id/run\<close>, \<open>/runs/:id/cancel\<close>,
  \<open>/approvals/:id/*\<close> and \<open>/runs/:id/approve-all\<close> of \<open>apps/server/src/routes/runs.ts\<close>, and the
  admission half of the webhook ingress, \<open>routes/webhooks.ts\<close>.

  A refusal is \<open>Inl\<close> of the reply's status and code.  SHA-256 is the parameter \<open>sha\<close>; audit
  events and the removal of the queued job, which the job processor repeats, are left out.
\<close>

type_synonym refused = "nat \<times> string"

section \<open>Cancel\<close>

definition cancel_tasks :: "nat \<Rightarrow> task list \<Rightarrow> task list" where
  "cancel_tasks i = map (\<lambda>t. if tk_run t = i \<and> tk_status t = Pending then t\<lparr>tk_status := TaskCanceled\<rparr> else t)"

definition cancel_run :: "nat \<Rightarrow> nat \<Rightarrow> int \<Rightarrow> store \<Rightarrow> (refused + unit) \<times> store" where
  "cancel_run ws i now db =
     (case find_run i db of
        None \<Rightarrow> (Inl (404, ''run_not_found''), db)
      | Some r \<Rightarrow>
         if run_ws r \<noteq> ws \<or> run_status r \<notin> {Queued, Running, WaitingRun, PausedRun}
         then (Inl (404, ''run_not_found''), db)
         else let db1 = update_run i (\<lambda>r. r\<lparr>run_status := Canceled, run_resume := None, run_job := False\<rparr>) db;
                  db2 = add_event i ''run.canceled'' db1;
                  db3 = db2\<lparr>db_tasks := cancel_tasks i (db_tasks db2),
                            db_locks := filter (\<lambda>j. j \<noteq> i) (db_locks db2)\<rparr>
              in (Inr (), release_workflow_lock (run_wf r) (record_billing ws i ''run.canceled'' now db3)))"

section \<open>Approvals\<close>

definition find_task :: "nat \<Rightarrow> store \<Rightarrow> task option" where
  "find_task k db = List.find (\<lambda>t. tk_id t = k) (db_tasks db)"

definition set_task :: "nat \<Rightarrow> task_status \<Rightarrow> bool \<Rightarrow> store \<Rightarrow> store" where
  "set_task k st only_pending db =
     db\<lparr>db_tasks := map (\<lambda>t. if tk_id t = k \<and> (only_pending \<longrightarrow> tk_status t = Pending)
                              then t\<lparr>tk_status := st\<rparr> else t) (db_tasks db)\<rparr>"

text \<open>\<open>UPDATE run_steps ... WHERE run_id AND step_path AND status = 'paused'\<close>.\<close>

definition close_paused_step :: "nat \<Rightarrow> jstr \<Rightarrow> string \<Rightarrow> store \<Rightarrow> store" where
  "close_paused_step i path st db =
     db\<lparr>db_steps := map (\<lambda>s. if se_run s = i \<and> se_path s = path \<and> se_status s = ''paused''
                              then s\<lparr>se_status := st\<rparr> else s) (db_steps db)\<rparr>"

text \<open>The paused row's \<open>on_error\<close>; without a row it is \<open>abort\<close>.\<close>

definition paused_step_continues :: "nat \<Rightarrow> jstr \<Rightarrow> store \<Rightarrow> bool" where
  "paused_step_continues i path db =
     (case List.find (\<lambda>s. se_run s = i \<and> se_path s = path \<and> se_status s = ''paused'') (rev (db_steps db)) of
        None \<Rightarrow> False | Some s \<Rightarrow> se_continue s)"

definition requeue :: "nat \<Rightarrow> store \<Rightarrow> store" where
  "requeue i db = enqueue_run_job i (update_run i (\<lambda>r. r\<lparr>run_status := Queued, run_resume := None\<rparr>) db)"

definition decide_approval :: "nat \<Rightarrow> nat \<Rightarrow> bool \<Rightarrow> int \<Rightarrow> store \<Rightarrow> (refused + run_status) \<times> store" where
  "decide_approval ws k approve now db =
     (case find_task k db of
        None \<Rightarrow> (Inl (404, ''not_found''), db)
      | Some t \<Rightarrow>
       (case find_run (tk_run t) db of
          None \<Rightarrow> (Inl (404, ''not_found''), db)
        | Some r \<Rightarrow>
           if run_ws r \<noteq> ws then (Inl (404, ''not_found''), db)
           else if tk_status t \<noteq> Pending then (Inl (409, ''approval_already_decided''), db)
           else if (case tk_timeout t of None \<Rightarrow> False | Some e \<Rightarrow> e < now) then
             (Inl (409, ''approval_already_decided''), db)
           else if run_status r \<noteq> PausedRun then (Inl (409, ''approval_already_decided''), db)
           else let i = run_id r; path = tk_path t;
                    db1 = set_task k (if approve then Approved else Rejected) True db
                in if approve then (Inr Queued, requeue i (close_paused_step i path ''succeeded'' db1))
                   else if paused_step_continues i path db1 then
                     (Inr Queued, requeue i (close_paused_step i path ''failed'' db1))
                   else let db2 = update_run i (\<lambda>r. r\<lparr>run_status := Canceled, run_resume := None, run_job := False\<rparr>) db1;
                            db3 = close_paused_step i path ''failed'' (add_event i ''run.canceled'' db2);
                            db4 = db3\<lparr>db_locks := filter (\<lambda>j. j \<noteq> i) (db_locks db3)\<rparr>
                        in (Inr Canceled, record_billing ws i ''run.canceled'' now db4)))"

definition approve_all :: "nat \<Rightarrow> nat \<Rightarrow> store \<Rightarrow> (refused + nat) \<times> store" where
  "approve_all ws i db =
     (case find_run i db of
        None \<Rightarrow> (Inl (404, ''run_not_found''), db)
      | Some r \<Rightarrow>
         if run_ws r \<noteq> ws then (Inl (404, ''run_not_found''), db)
         else let ks = map tk_id (filter (\<lambda>t. tk_run t = i \<and> tk_status t = Pending) (db_tasks db));
                  db1 = fold (\<lambda>k. set_task k Approved False) ks db
              in (Inr (length ks),
                  if ks \<noteq> [] \<and> run_status r = PausedRun then requeue i db1 else db1))"

section \<open>Starting a run\<close>

definition manual_key :: "(jstr \<Rightarrow> jstr) \<Rightarrow> nat \<Rightarrow> nat \<Rightarrow> jstr \<Rightarrow> int \<Rightarrow> jstr" where
  "manual_key sha ws w inputs now =
     js ''manual:'' @ take 32 (sha (nat_str ws @ js '':'' @ nat_str w @ js '':'' @ inputs @ js '':'' @
       nat_str (nat (now div 10000))))"

text \<open>\<open>Inr (i, deduplicated)\<close> is the run that answers the request.\<close>

definition manual_trigger ::
  "(jstr \<Rightarrow> jstr) \<Rightarrow> nat \<Rightarrow> nat \<Rightarrow> jstr \<Rightarrow> int \<Rightarrow> store \<Rightarrow> (refused + nat \<times> bool) \<times> store" where
  "manual_trigger sha ws w inputs now db =
     (case List.find (\<lambda>x. wf_id x = w \<and> wf_ws x = ws) (db_wfs db) of
        None \<Rightarrow> (Inl (404, ''workflow_not_found''), db)
      | Some x \<Rightarrow>
         if \<not> wf_enabled x then (Inl (403, ''workflow_disabled''), db)
         else let key = manual_key sha ws w inputs now;
                  plan = plan_of_ws ws db;
                  n = active_count ws db
              in if over_concurrency plan n then (Inl (429, ''concurrency_limit_exceeded''), db)
                 else if over_run_cap plan (runs_consumed_of ws now db + n) then (Inl (429, ''run_limit_exceeded''), db)
                 else case List.find (\<lambda>r. run_ws r = ws \<and> run_key r = key) (db_runs db) of
                   Some r \<Rightarrow> (Inr (run_id r, True), db)
                 | None \<Rightarrow>
                  (case wf_version x of
                     None \<Rightarrow> (Inl (404, ''workflow_not_found''), db)
                   | Some v \<Rightarrow>
                      let r = new_run ws w v None key inputs now (timeout_of plan now) False db
                      in (Inr (run_id r, False), enqueue_run_job (run_id r) (insert_run r db))))"

text \<open>
  The webhook ingress after the caller is authenticated: replay log, required inputs, admission,
  insert; theory \<open>Webhook\<close> has the rest.  \<open>missing\<close> says of a version whether a required input is null,
  and a \<open>sync\<close> run is inserted without a job.  The hash of the payload is the same for the log and for
  the run's key; the insert has no conflict clause, so a taken key is a database error, which is
  answered with 500.
\<close>

definition webhook_replay_hash :: "(jstr \<Rightarrow> jstr) \<Rightarrow> jstr \<Rightarrow> jstr option \<Rightarrow> jstr" where
  "webhook_replay_hash sha body client =
     sha (case client of Some c \<Rightarrow> c @ body | None \<Rightarrow> body)"

definition get_idempotency_key :: "(jstr \<Rightarrow> jstr) \<Rightarrow> jstr \<Rightarrow> nat \<Rightarrow> jstr \<Rightarrow> jstr" where
  "get_idempotency_key sha kind ws basis =
     kind @ js '':'' @ take 40 (sha (kind @ js '':'' @ nat_str ws @ js '':'' @ basis))"

definition webhook_ingress ::
  "(jstr \<Rightarrow> jstr) \<Rightarrow> nat \<Rightarrow> trigger_row \<Rightarrow> jstr \<Rightarrow> jstr option \<Rightarrow> jstr \<Rightarrow> (nat \<Rightarrow> bool) \<Rightarrow> bool \<Rightarrow> int \<Rightarrow> store \<Rightarrow>
   (refused + nat) \<times> store" where
  "webhook_ingress sha ws tg body client inputs missing sync now db =
     (let h = webhook_replay_hash sha body client; k = (ws, tg_id tg, h) in
      if map_of (db_replay db) k \<noteq> None then (Inl (409, ''duplicate_webhook''), db)
      else let db1 = db\<lparr>db_replay := db_replay db @ [(k, now)]\<rparr> in
       case List.find (\<lambda>x. wf_id x = tg_wf tg) (db_wfs db1) of
         None \<Rightarrow> (Inl (500, ''internal_error''), db1)
       | Some x \<Rightarrow>
        (case wf_version x of
           None \<Rightarrow> (Inl (500, ''internal_error''), db1)
         | Some v \<Rightarrow>
            if missing v then (Inl (400, ''input_mapping_failed''), db1)
            else let plan = plan_of_ws ws db1; n = active_count ws db1;
                     key = get_idempotency_key sha (js ''webhook'') ws h
            in if over_concurrency plan n then (Inl (429, ''concurrency_limit_exceeded''), db1)
               else if over_run_cap plan (runs_consumed_of ws now db1 + n) then (Inl (429, ''run_limit_exceeded''), db1)
               else if key_taken ws key db1 then (Inl (500, ''internal_error''), db1)
               else let r = new_run ws (tg_wf tg) v (Some (tg_id tg)) key inputs now (timeout_of plan now) False db1
                    in (Inr (run_id r),
                        if sync then insert_run r db1 else enqueue_run_job (run_id r) (insert_run r db1))))"

end
