(* ===== verification/Scheduler.thy ===== *)
theory Scheduler
  imports RunRoutes Cron
begin

text \<open>
  The scheduler's tick, \<open>apps/server/src/services/scheduler.ts\<close>, the job processor of
  \<open>services/queue.ts\<close>, and the executor's first and last writes of \<open>doExecuteRun\<close>
  (\<open>services/run-executor.ts\<close>).

  A query's rows are read before its loop starts, as in the source.  The result of a loop is
  whether it ran to its end: an error inside it (a cron expression without a next occurrence)
  aborts the rest of the tick.  The tick's lock and the system jobs are not modelled here.
\<close>

section \<open>The executor's writes\<close>

datatype run_result = EndWaiting "int option" | EndPaused | EndSucceeded | EndFailed "string option"

text \<open>Before the steps: nothing for a terminal run, else \<open>running\<close>.\<close>

definition executor_begin :: "nat \<Rightarrow> int \<Rightarrow> store \<Rightarrow> store option" where
  "executor_begin i now db =
     (case find_run i db of
        None \<Rightarrow> None
      | Some r \<Rightarrow>
         if is_terminal_status (run_status r) then None
         else Some (add_event i ''run.started''
                (update_run i (\<lambda>r. r\<lparr>run_status := Running, run_started := True, run_heartbeat := now\<rparr>) db)))"

text \<open>After the steps.  No update looks at the status the row has by then.\<close>

definition executor_end :: "nat \<Rightarrow> run_result \<Rightarrow> int \<Rightarrow> store \<Rightarrow> store" where
  "executor_end i res now db =
     (let ws = (case find_run i db of Some r \<Rightarrow> run_ws r | None \<Rightarrow> 0) in
      case res of
        EndWaiting t \<Rightarrow> add_event i ''run.waiting''
          (update_run i (\<lambda>r. r\<lparr>run_status := WaitingRun, run_resume := t\<rparr>) db)
      | EndPaused \<Rightarrow> add_event i ''run.paused'' (update_run i (\<lambda>r. r\<lparr>run_status := PausedRun\<rparr>) db)
      | EndSucceeded \<Rightarrow> record_billing ws i ''run.succeeded'' now (add_event i ''run.succeeded''
          (update_run i (\<lambda>r. r\<lparr>run_status := Succeeded, run_heartbeat := now, run_error := None\<rparr>) db))
      | EndFailed e \<Rightarrow> record_billing ws i ''run.failed'' now (add_event i ''run.failed''
          (update_run i (\<lambda>r. r\<lparr>run_status := FailedRun, run_heartbeat := now, run_error := e\<rparr>) db)))"

text \<open>\<open>executeWorkflowRun\<close> without interleaving: the lock row, the execution, the lock's removal.\<close>

definition execute_workflow_run :: "nat \<Rightarrow> run_result \<Rightarrow> int \<Rightarrow> int \<Rightarrow> store \<Rightarrow> store" where
  "execute_workflow_run i res t0 t1 db =
     (if i \<in> set (db_locks db) then db
      else let unlock = (\<lambda>d. d\<lparr>db_locks := filter (\<lambda>j. j \<noteq> i) (db_locks d)\<rparr>)
           in case executor_begin i t0 (db\<lparr>db_locks := db_locks db @ [i]\<rparr>) of
                None \<Rightarrow> unlock db
              | Some db1 \<Rightarrow> unlock (executor_end i res t1 db1))"

text \<open>
  The processor of a job.  A workflow without \<open>allow_concurrent\<close> needs its lock; when it is taken the
  processor throws, and BullMQ retries the job.
\<close>

definition job_start :: "nat \<Rightarrow> int \<Rightarrow> store \<Rightarrow> store option" where
  "job_start i now db =
     (case find_run i db of
        None \<Rightarrow> None
      | Some r \<Rightarrow>
         if is_terminal_status (run_status r) then None
         else if workflow_allows_concurrent (run_wf r) db then Some db
         else acquire_workflow_lock (run_wf r) now db)"

text \<open>\<open>None\<close> as result is an execution that throws: the run goes back to the queue without a job.\<close>

definition job_body :: "nat \<Rightarrow> run_result option \<Rightarrow> int \<Rightarrow> int \<Rightarrow> store \<Rightarrow> store" where
  "job_body i res t0 t1 db =
     (case res of
        Some x \<Rightarrow> execute_workflow_run i x t0 t1 db
      | None \<Rightarrow> update_runs (\<lambda>r. run_id r = i \<and> run_status r \<in> {Queued, Running})
                  (\<lambda>r. r\<lparr>run_status := Queued, run_job := False\<rparr>) db)"

definition process_job :: "nat \<Rightarrow> run_result option \<Rightarrow> int \<Rightarrow> int \<Rightarrow> store \<Rightarrow> store" where
  "process_job i res t0 t1 db =
     (case (find_run i db, job_start i t0 db) of
        (Some r, Some db1) \<Rightarrow>
          if workflow_allows_concurrent (run_wf r) db then job_body i res t0 t1 db1
          else release_workflow_lock (run_wf r) (job_body i res t0 t1 db1)
      | _ \<Rightarrow> db)"

section \<open>Due triggers\<close>

text \<open>A loop whose body may throw: \<open>False\<close> when it did.\<close>

fun loop_until_error :: "('a \<Rightarrow> 's \<Rightarrow> bool \<times> 's) \<Rightarrow> 'a list \<Rightarrow> 's \<Rightarrow> bool \<times> 's" where
  "loop_until_error f [] s = (True, s)"
| "loop_until_error f (x # xs) s =
     (case f x s of (False, s') \<Rightarrow> (False, s') | (True, s') \<Rightarrow> loop_until_error f xs s')"

definition advance_trigger :: "nat \<Rightarrow> jstr option \<Rightarrow> int \<Rightarrow> store \<Rightarrow> bool \<times> store" where
  "advance_trigger t cron now db =
     (case compute_next_fire (case cron of Some c \<Rightarrow> if c = [] then js ''* * * * *'' else c | None \<Rightarrow> js ''* * * * *'') now of
        None \<Rightarrow> (False, db)
      | Some n \<Rightarrow> (True, db\<lparr>db_trigs := map (\<lambda>g. if tg_id g = t then g\<lparr>tg_next := n\<rparr> else g) (db_trigs db)\<rparr>))"

definition int_str :: "int \<Rightarrow> jstr" where
  "int_str i = (if i < 0 then 45 # nat_str (nat (- i)) else nat_str (nat i))"

definition schedule_key :: "trigger_row \<Rightarrow> jstr" where
  "schedule_key g = js ''sched:'' @ nat_str (tg_wf g) @ js '':'' @ nat_str (tg_id g) @ js '':'' @ int_str (tg_next g)"

definition fire_trigger :: "int \<Rightarrow> trigger_row \<times> workflow \<Rightarrow> store \<Rightarrow> bool \<times> store" where
  "fire_trigger now gw db =
     (let g = fst gw; w = snd gw; ws = wf_ws w in
      if \<not> wf_enabled w then (True, db)
      else case wf_version w of
        None \<Rightarrow> advance_trigger (tg_id g) (tg_cron g) now db
      | Some v \<Rightarrow>
         let plan = plan_of_ws ws db; n = active_count ws db in
         if over_run_cap plan (runs_consumed_of ws now db + n) then advance_trigger (tg_id g) (tg_cron g) now db
         else let blocked = over_concurrency plan n; key = schedule_key g;
                  db1 = (if key_taken ws key db then db
                         else let r = new_run ws (wf_id w) v (Some (tg_id g)) key (js ''{}'') now (timeout_of plan now) blocked db
                              in if blocked then insert_run r db
                                 else enqueue_run_job (run_id r) (insert_run r db))
              in advance_trigger (tg_id g) (tg_cron g) now db1)"

definition due_triggers :: "int \<Rightarrow> store \<Rightarrow> (trigger_row \<times> workflow) list" where
  "due_triggers now db =
     take 20 (concat (map (\<lambda>g. case List.find (\<lambda>w. wf_id w = tg_wf g) (db_wfs db) of
                                  None \<Rightarrow> [] | Some w \<Rightarrow> if tg_enabled g \<and> tg_next g \<le> now then [(g, w)] else [])
                        (db_trigs db)))"

definition fire_due_triggers :: "int \<Rightarrow> store \<Rightarrow> bool \<times> store" where
  "fire_due_triggers now db = loop_until_error (fire_trigger now) (due_triggers now db) db"

section \<open>Delays and approvals\<close>

definition LEASE_TTL :: int where "LEASE_TTL = 5 * 60 * 1000"

definition resume_one :: "int \<Rightarrow> run \<Rightarrow> store \<Rightarrow> store" where
  "resume_one now r db =
     (let k = (run_id r, case run_resume r of Some t \<Rightarrow> t | None \<Rightarrow> 0) in
      if map_of (db_leases db) k \<noteq> None then db
      else enqueue_run_job (run_id r)
             (update_runs (\<lambda>x. run_id x = run_id r \<and> run_status x = WaitingRun)
                (\<lambda>x. x\<lparr>run_status := Queued, run_resume := None\<rparr>)
                (db\<lparr>db_leases := db_leases db @ [(k, now + LEASE_TTL)]\<rparr>)))"

definition due_delay :: "int \<Rightarrow> run \<Rightarrow> bool" where
  "due_delay now r \<longleftrightarrow> run_status r = WaitingRun \<and> (case run_resume r of Some t \<Rightarrow> t \<le> now | None \<Rightarrow> False)"

definition resume_delays :: "int \<Rightarrow> store \<Rightarrow> store" where
  "resume_delays now db = fold (resume_one now) (take 50 (filter (due_delay now) (db_runs db))) db"

definition timeout_task :: "int \<Rightarrow> task \<Rightarrow> store \<Rightarrow> store" where
  "timeout_task now t db =
     (case find_task (tk_id t) db of
        None \<Rightarrow> db
      | Some cur \<Rightarrow>
         if tk_status cur \<noteq> Pending then db
         else let i = tk_run t;
                  db1 = close_paused_step i (tk_path t) (if tk_abort t then ''failed'' else ''skipped'')
                          (set_task (tk_id t) TimedOut True db)
              in case find_run i db1 of
                   None \<Rightarrow> db1
                 | Some r \<Rightarrow>
                    if run_status r \<noteq> PausedRun then db1
                    else if tk_abort t then
                      record_billing (run_ws r) i ''run.failed'' now (add_event i ''run.failed''
                        (update_run i (\<lambda>r. r\<lparr>run_status := FailedRun, run_error := Some ''approval_timeout''\<rparr>) db1))
                    else requeue i db1)"

definition check_approval_timeouts :: "int \<Rightarrow> store \<Rightarrow> store" where
  "check_approval_timeouts now db =
     fold (timeout_task now)
       (take 100 (filter (\<lambda>t. tk_status t = Pending \<and> (case tk_timeout t of Some e \<Rightarrow> e \<le> now | None \<Rightarrow> False)) (db_tasks db))) db"

section \<open>Reconciliation\<close>

definition STALE_MS :: int where "STALE_MS = 90 * 1000"
definition QUEUE_TIMEOUT_MS :: int where "QUEUE_TIMEOUT_MS = 24 * 60 * 60 * 1000"
definition REPLAY_TTL :: int where "REPLAY_TTL = 10 * 60 * 1000"

definition is_stale :: "int \<Rightarrow> run \<Rightarrow> bool" where
  "is_stale now r \<longleftrightarrow> run_status r = Running \<and> run_heartbeat r < now - STALE_MS"

text \<open>The row of a stale run carries the recovery count already incremented.\<close>

definition recover_one :: "int \<Rightarrow> run \<Rightarrow> store \<Rightarrow> store" where
  "recover_one now r db =
     (if run_recovery r \<ge> 3 then
        record_billing (run_ws r) (run_id r) ''run.failed'' now (add_event (run_id r) ''run.failed''
          (update_run (run_id r) (\<lambda>x. x\<lparr>run_status := FailedRun, run_error := Some ''recovery_exhausted'', run_job := False\<rparr>) db))
      else enqueue_run_job (run_id r) db)"

definition stale_sweep :: "int \<Rightarrow> store \<Rightarrow> store" where
  "stale_sweep now db =
     (let reset = (\<lambda>r. r\<lparr>run_status := Queued, run_job := False, run_recovery := run_recovery r + 1\<rparr>) in
      fold (recover_one now) (map reset (filter (is_stale now) (db_runs db)))
        (update_runs (is_stale now) reset db))"

definition requeue_stuck :: "store \<Rightarrow> store" where
  "requeue_stuck db =
     fold (\<lambda>r. enqueue_run_job (run_id r))
       (take 50 (filter (\<lambda>r. run_status r = Queued \<and> \<not> run_job r \<and> \<not> run_blocked r) (db_runs db))) db"

definition queue_expired :: "int \<Rightarrow> run \<Rightarrow> bool" where
  "queue_expired now r \<longleftrightarrow> run_status r = Queued \<and> run_created r < now - QUEUE_TIMEOUT_MS"

definition queue_timeout :: "int \<Rightarrow> store \<Rightarrow> store" where
  "queue_timeout now db =
     fold (\<lambda>r. add_event (run_id r) ''run.failed'') (filter (queue_expired now) (db_runs db))
       (update_runs (queue_expired now)
          (\<lambda>r. r\<lparr>run_status := FailedRun, run_error := Some ''queue_timeout'', run_job := False\<rparr>) db)"

definition promote_one :: "run \<Rightarrow> store \<Rightarrow> store" where
  "promote_one r db =
     (case plan_of_ws (run_ws r) db of
        None \<Rightarrow> db
      | Some p \<Rightarrow>
       (case concurrency_limit p of
          None \<Rightarrow> db
        | Some l \<Rightarrow>
           if active_count (run_ws r) db < l \<and>
              list_ex (\<lambda>x. run_id x = run_id r \<and> run_blocked x \<and> \<not> run_job x) (db_runs db)
           then enqueue_run_job (run_id r)
                  (update_runs (\<lambda>x. run_id x = run_id r \<and> run_blocked x \<and> \<not> run_job x)
                     (\<lambda>x. x\<lparr>run_blocked := False\<rparr>) db)
           else db))"

definition concurrency_retry :: "store \<Rightarrow> store" where
  "concurrency_retry db =
     fold promote_one
       (take 100 (filter (\<lambda>r. run_status r = Queued \<and> run_blocked r \<and> \<not> run_job r) (db_runs db))) db"

definition clean_logs :: "int \<Rightarrow> store \<Rightarrow> store" where
  "clean_logs now db =
     db\<lparr>db_leases := filter (\<lambda>l. now \<le> snd l) (db_leases db),
        db_replay := filter (\<lambda>l. now - REPLAY_TTL \<le> snd l) (db_replay db)\<rparr>"

definition reconcile :: "int \<Rightarrow> store \<Rightarrow> store" where
  "reconcile now db =
     concurrency_retry (queue_timeout now (requeue_stuck (stale_sweep now (clean_logs now db))))"

definition tick_once :: "int \<Rightarrow> store \<Rightarrow> store" where
  "tick_once now db =
     (case fire_due_triggers now db of
        (False, db1) \<Rightarrow> db1
      | (True, db1) \<Rightarrow> reconcile now (check_approval_timeouts now (resume_delays now db1)))"

end
