(* ===== verification/ExecState.thy ===== *)
theory ExecState
  imports Interp HttpStep Durations Scheduler
begin

text \<open>
  The state of an execution in \<open>apps/server/src/services/run-executor.ts\<close>: the steps of a manifest,
  the durable state \<open>runs.state\<close>, the machine that a step changes, the context its expressions see,
  and the rows of \<open>run_steps\<close> it writes.

  Steps are as the manifest's schema types them.  What an execution reads from outside and does not
  change is the record \<open>exec_env\<close>: the clock, the network, the plan's features, the secrets, the
  vault, the members, the author of a decision.
\<close>

section \<open>Steps\<close>

record http_config =
  hc_method :: jstr
  hc_url :: jstr
  hc_headers :: headers
  hc_body :: "jstr option"
  hc_credential :: "jstr option"
  hc_credential_header :: "jstr option"
  hc_idempotency_key :: "jstr option"

record notify_config =
  nc_inbox :: bool
  nc_to :: jstr
  nc_subject :: "jstr option"
  nc_body :: jstr

datatype step =
    Step (step_id: jstr) (step_if: "jstr option") (step_continue: bool) (step_retry: "retry option") (step_kind: step_kind)
and step_kind =
    HttpStep http_config
  | NotifyStep notify_config
  | ConditionStep jstr "step list" "step list"
  | ForEachStep jstr "int option" "step list"
  | TransformStep "(jstr \<times> jstr) list"
  | DelayStep jstr
  | ApprovalStep jstr "int option" bool
  | LogStep jstr
  | ReplyStep "nat option" headers jstr
  | UnknownStep

section \<open>The durable state\<close>

record run_state =
  st_outputs :: entries
  st_status :: entries
  st_done :: entries
  st_iter :: entries
  st_delay :: "(jstr \<times> int) option"
  st_approval :: "(jstr \<times> nat) option"
  st_reply :: "jsval option"
  st_failed :: bool
  st_elapsed :: int

record machine =
  m_db :: store
  m_st :: run_state
  m_net :: net_state
  m_log :: "(string \<times> jstr) list"
  m_outbox :: "(jstr \<times> jstr \<times> jstr \<times> jstr) list"
  m_inbox :: "(jstr \<times> jstr \<times> jstr) list"
  m_reads :: nat

record 'dt exec_env =
  x_host :: "'dt host"
  x_net :: net_env
  x_run :: nat
  x_ws :: nat
  x_inputs :: entries
  x_trigger_type :: jstr
  x_payload :: jsval
  x_scheduled_at :: "jstr option"
  x_timeout_ms :: int
  x_features :: "string \<Rightarrow> bool"
  x_secrets :: "entries option"
  x_credentials :: "jstr \<Rightarrow> jstr option"
  x_member :: "jstr \<Rightarrow> bool"
  x_owner :: "jstr option"
  x_clock :: "nat \<Rightarrow> int"
  x_iso :: "int \<Rightarrow> jstr"
  x_decided :: "nat \<Rightarrow> jsval \<times> jsval"

datatype step_exec =
    Completed (any_failure: bool) (any_success: bool) (failure_error: "jstr option") (was_skipped: bool)
  | FailedStep (error_code: jstr)
  | ParkWaiting
  | ParkPaused

definition completed :: step_exec where
  "completed = Completed False False None False"

text \<open>\<open>record[key] = value\<close> on a plain object.\<close>

definition put :: "jstr \<Rightarrow> jsval \<Rightarrow> entries \<Rightarrow> entries" where
  "put k v kvs = (if k = proto_name then kvs else AList.update k v kvs)"

definition set_step_output :: "jstr \<Rightarrow> jsval \<Rightarrow> machine \<Rightarrow> machine" where
  "set_step_output i v m = m\<lparr>m_st := (m_st m)\<lparr>st_outputs := put i v (st_outputs (m_st m))\<rparr>\<rparr>"

definition mark_step_status :: "jstr \<Rightarrow> string \<Rightarrow> machine \<Rightarrow> machine" where
  "mark_step_status i s m = m\<lparr>m_st := (m_st m)\<lparr>st_status := put i (JStr (js s)) (st_status (m_st m))\<rparr>\<rparr>"

definition mark_done :: "jstr \<Rightarrow> machine \<Rightarrow> machine" where
  "mark_done p m = m\<lparr>m_st := (m_st m)\<lparr>st_done := put p (JBool True) (st_done (m_st m))\<rparr>\<rparr>"

definition is_done :: "jstr \<Rightarrow> machine \<Rightarrow> bool" where
  "is_done p m \<longleftrightarrow> js_true (get_member (st_done (m_st m)) p)"

definition log_step :: "string \<Rightarrow> jstr \<Rightarrow> machine \<Rightarrow> machine" where
  "log_step ev p m = m\<lparr>m_log := m_log m @ [(ev, p)]\<rparr>"

definition read_clock :: "'dt exec_env \<Rightarrow> machine \<Rightarrow> int \<times> machine" where
  "read_clock e m = (x_clock e (m_reads m), m\<lparr>m_reads := m_reads m + 1\<rparr>)"

section \<open>Errors\<close>

text \<open>\<open>stepError\<close>: the code of an \<open>ExpressionError\<close>, else \<open>step_error\<close>.\<close>

definition step_error :: "expr_error \<Rightarrow> jstr" where
  "step_error err = js (case err of
     Unparseable \<Rightarrow> ''unparseable_expression'' | OperationLimit \<Rightarrow> ''operation_limit_exceeded''
   | ForbiddenProperty \<Rightarrow> ''forbidden_property_access'' | TypeMismatch \<Rightarrow> ''type_mismatch''
   | UnknownVariable \<Rightarrow> ''unknown_variable'' | UnknownEnvVariable \<Rightarrow> ''unknown_env_variable''
   | InvalidDateFormat \<Rightarrow> ''invalid_date_format'' | InvalidTimezone \<Rightarrow> ''invalid_timezone''
   | ExpressionTooLong \<Rightarrow> ''expression_too_long'' | _ \<Rightarrow> ''step_error'')"

definition coded :: "expr_error + 'a \<Rightarrow> jstr + 'a" where
  "coded r = map_sum step_error id r"

section \<open>The context of an expression\<close>

definition secret_value :: "entries option \<Rightarrow> jsval \<Rightarrow> jsval" where
  "secret_value known name =
     (case known of
        None \<Rightarrow> Null
      | Some kvs \<Rightarrow>
         (case to_jstr name of
            None \<Rightarrow> Null
          | Some k \<Rightarrow> (case get_member kvs k of Undefined \<Rightarrow> Null | v \<Rightarrow> v)))"

definition step_entries :: "run_state \<Rightarrow> entries" where
  "step_entries st =
     map (\<lambda>k. (k, JObj [(js ''output'', get_member (st_outputs st) k),
        (js ''status'', let s = get_member (st_status st) k in if js_true s then s else JStr (js ''succeeded''))]))
       (own_keys (st_outputs st))"

definition loop_ctx :: "jsval \<Rightarrow> nat \<Rightarrow> jsval \<Rightarrow> jsval" where
  "loop_ctx x i outer = JObj [(js ''item'', x), (js ''index'', JNum (Num (of_nat i))), (js ''outer'', outer)]"

definition opt_str :: "jstr option \<Rightarrow> jsval" where
  "opt_str s = (case s of None \<Rightarrow> Null | Some t \<Rightarrow> JStr t)"

definition build_eval_context :: "'dt exec_env \<Rightarrow> jsval \<Rightarrow> run_state \<Rightarrow> ctx" where
  "build_eval_context e loop st =
     \<lparr>inputs = JObj (x_inputs e), steps_out = JObj (step_entries st), loop_frame = loop,
      trigger = JObj ([(js ''type'', JStr (x_trigger_type e)), (js ''payload'', x_payload e)] @
        (case x_scheduled_at e of None \<Rightarrow> [] | Some t \<Rightarrow> [(js ''scheduled_at'', JStr t)])),
      secrets = SecretFun (secret_value (x_secrets e)),
      env = JObj [(js ''FF_APP_URL'', opt_str (resolve_app_url (ne_egress (x_net e))))],
      run_info = JObj [(js ''id'', JStr (nat_str (x_run e))),
        (js ''scheduled_at'', if x_trigger_type e = js ''manual'' then Null else opt_str (nonempty (x_scheduled_at e)))],
      item = Undefined, item_index = Undefined\<rparr>"

definition eval_in :: "'dt exec_env \<Rightarrow> jsval \<Rightarrow> machine \<Rightarrow> jstr \<Rightarrow> expr_error + jsval" where
  "eval_in e loop m s = evaluate_expression (x_host e) s (build_eval_context e loop (m_st m))"

definition interpolate :: "'dt exec_env \<Rightarrow> jsval \<Rightarrow> machine \<Rightarrow> jstr \<Rightarrow> jstr + jstr" where
  "interpolate e loop m s = coded (resolve_interpolation (eval_in e loop m) s)"

section \<open>The rows of a step\<close>

text \<open>The row with the highest attempt.\<close>

definition latest_row :: "nat \<Rightarrow> jstr \<Rightarrow> store \<Rightarrow> step_entry option" where
  "latest_row i p db =
     fold (\<lambda>r best. if se_run r = i \<and> se_path r = p \<and>
                       (case best of None \<Rightarrow> True | Some b \<Rightarrow> se_attempt b \<le> se_attempt r) then Some r else best)
       (db_steps db) None"

definition add_row :: "nat \<Rightarrow> jstr \<Rightarrow> string \<Rightarrow> bool \<Rightarrow> nat \<Rightarrow> store \<Rightarrow> store" where
  "add_row i p st cont att db =
     db\<lparr>db_steps := db_steps db @ [\<lparr>se_id = length (db_steps db), se_attempt = att, se_run = i, se_path = p,
       se_status = st, se_continue = cont\<rparr>]\<rparr>"

definition set_row :: "nat \<Rightarrow> string \<Rightarrow> machine \<Rightarrow> machine" where
  "set_row k st m = m\<lparr>m_db := (m_db m)\<lparr>db_steps :=
     map (\<lambda>r. if se_id r = k then r\<lparr>se_status := st\<rparr> else r) (db_steps (m_db m))\<rparr>\<rparr>"

text \<open>
  The row an execution of the step works on: a row that is not closed is taken up again, a closed
  one is followed by a new attempt.
\<close>

definition open_row :: "nat \<Rightarrow> jstr \<Rightarrow> bool \<Rightarrow> machine \<Rightarrow> nat \<times> machine" where
  "open_row i p cont m =
     (case latest_row i p (m_db m) of
        None \<Rightarrow> (length (db_steps (m_db m)), m\<lparr>m_db := add_row i p ''running'' cont 1 (m_db m)\<rparr>)
      | Some r \<Rightarrow>
         if se_status r \<in> {''succeeded'', ''failed'', ''skipped''}
         then (length (db_steps (m_db m)), m\<lparr>m_db := add_row i p ''running'' cont (se_attempt r + 1) (m_db m)\<rparr>)
         else (se_id r, set_row (se_id r) ''running'' m))"

text \<open>\<open>insertStepRecord\<close>.\<close>

definition insert_step_record :: "nat \<Rightarrow> jstr \<Rightarrow> string \<Rightarrow> machine \<Rightarrow> machine" where
  "insert_step_record i p st m =
     m\<lparr>m_db := add_row i p st False (fold max (map se_attempt (filter (\<lambda>r. se_run r = i \<and> se_path r = p)
       (db_steps (m_db m)))) 0 + 1) (m_db m)\<rparr>"

end
