(* ===== verification/Executor.thy ===== *)
theory Executor
  imports ExecState
begin

text \<open>
  The step executors of \<open>apps/server/src/services/run-executor.ts\<close>, \<open>executeSteps\<close>,
  \<open>executeStepRecord\<close> and \<open>doExecuteRun\<close>.

  A step's failure carries its code; the messages of expression errors are dropped.  What a step
  writes besides the state of the run and its rows, the outbox, the inbox and the requests it sends,
  are lists in the machine.  A query that fails is not modelled.
\<close>

section \<open>The http step\<close>

text \<open>The expressions of a template, in the order in which they are evaluated.\<close>

function template_blocks :: "jstr \<Rightarrow> jstr list" where
  "template_blocks [] = []"
| "template_blocks (c # cs) =
     (if c = 92 \<and> starts_with cs braces_open then template_blocks (drop 2 cs)
      else if starts_with (c # cs) braces_open then
        (case until_close (dropWhile is_space (drop 1 cs)) of
           None \<Rightarrow> []
         | Some (e, rest) \<Rightarrow> trim e # template_blocks rest)
      else template_blocks cs)"
  by pat_completeness auto
termination
proof (relation "measure length", goal_cases)
  case (3 c cs x e rest)
  then have "length rest < length (dropWhile is_space (drop 1 cs))" by (auto dest: until_close_shorter)
  also have "\<dots> \<le> length cs" using length_dropWhile_le [of is_space "drop 1 cs"] by simp
  finally show ?case by simp
qed auto

text \<open>The secrets an expression asks for, when its evaluation succeeds.\<close>

definition asked_by :: "'dt exec_env \<Rightarrow> jsval \<Rightarrow> machine \<Rightarrow> jstr \<Rightarrow> jsval list" where
  "asked_by e loop m s =
     (case parse_expression s of
        Inl _ \<Rightarrow> []
      | Inr a \<Rightarrow>
         (case evaluate (x_host e) (build_eval_context e loop (m_st m)) a \<lparr>e_ops = 0, asked = []\<rparr> of
            Inl _ \<Rightarrow> [] | Inr (_, st) \<Rightarrow> asked st))"

definition secrets_of :: "'dt exec_env \<Rightarrow> jsval \<Rightarrow> machine \<Rightarrow> jstr list \<Rightarrow> jsval list" where
  "secrets_of e loop m templates = concat (map (asked_by e loop m) (concat (map template_blocks templates)))"

definition FORBIDDEN_HEADERS :: "jstr list" where
  "FORBIDDEN_HEADERS = map js [''host'', ''cookie'', ''x-forwarded-for'']"

fun http_headers :: "(jstr \<Rightarrow> jstr) \<Rightarrow> (jstr \<Rightarrow> jstr + jstr) \<Rightarrow> headers \<Rightarrow> headers \<Rightarrow> jstr + headers" where
  "http_headers lower f [] acc = Inr acc"
| "http_headers lower f ((n, v) # hs) acc =
     (if lower n \<in> set FORBIDDEN_HEADERS then Inl (js ''forbidden_header'')
      else bindR (f v) (\<lambda>w. http_headers lower f hs (AList.update n w acc)))"

definition some_text :: "jstr option \<Rightarrow> jstr option" where
  "some_text s = nonempty s"

definition credential_headers :: "'dt exec_env \<Rightarrow> http_config \<Rightarrow> headers \<Rightarrow> jstr + headers" where
  "credential_headers e c hs =
     (case some_text (hc_credential c) of
        None \<Rightarrow> Inr hs
      | Some name \<Rightarrow>
         if some_text (map_of hs (js ''Authorization'')) \<noteq> None then Inr hs
         else if \<not> x_features e ''credential_vault'' then Inl (js ''plan_feature_required'')
         else case x_credentials e name of
           None \<Rightarrow> Inl (js ''secret_not_found'')
         | Some v \<Rightarrow>
             let h = (case some_text (hc_credential_header c) of Some h \<Rightarrow> h | None \<Rightarrow> js ''Authorization'')
             in Inr (AList.update h (if ne_lower (x_net e) h = js ''authorization'' then bearer v else v) hs))"

text \<open>Everything before the first request: the URL, the headers and the body, or a refusal.\<close>

definition http_plan :: "'dt exec_env \<Rightarrow> jsval \<Rightarrow> machine \<Rightarrow> http_config \<Rightarrow> jstr + jstr \<times> headers \<times> jstr option" where
  "http_plan e loop m c =
     bindR (interpolate e loop m (hc_url c)) (\<lambda>u.
     bindR (http_headers (ne_lower (x_net e)) (interpolate e loop m) (hc_headers c) []) (\<lambda>hs.
     bindR (case some_text (hc_body c) of None \<Rightarrow> Inr None
            | Some t \<Rightarrow> map_sum id Some (interpolate e loop m t)) (\<lambda>body.
     let asked = secrets_of e loop m (hc_url c # map snd (hc_headers c) @ (case some_text (hc_body c) of None \<Rightarrow> [] | Some t \<Rightarrow> [t]))
     in if asked \<noteq> [] \<and> \<not> x_features e ''credential_vault'' then Inl (js ''plan_feature_required'')
        else if list_ex (\<lambda>n. secret_value (x_secrets e) n = Null) asked then Inl (js ''secret_not_found'')
        else bindR (credential_headers e c hs) (\<lambda>hs'. Inr (u, hs', body)))))"

definition default_retry :: retry where
  "default_retry = \<lparr>rt_attempts = 3, rt_fixed = False, rt_base_ms = 500, rt_max_ms = 30000, rt_jitter = True\<rparr>"

definition hop_base_of :: "'dt exec_env \<Rightarrow> jstr \<Rightarrow> http_config \<Rightarrow> headers \<Rightarrow> hop_base" where
  "hop_base_of e p c hs =
     \<lparr>hb_headers = hs,
      hb_idem = (case some_text (hc_idempotency_key c) of Some k \<Rightarrow> k | None \<Rightarrow> js ''ff:'' @ nat_str (x_run e) @ js '':'' @ p),
      hb_auth = map_of hs (js ''Authorization''), hb_target_auth = map_of hs (js ''X-Target-Authorization''),
      hb_token = (case CONNECTOR_TOKEN (ne_egress (x_net e)) of Some t \<Rightarrow> t | None \<Rightarrow> [])\<rparr>"

definition first_request :: "net_env \<Rightarrow> hop_base \<Rightarrow> egress_route \<Rightarrow> jstr \<Rightarrow> jstr \<Rightarrow> jstr option \<Rightarrow> request" where
  "first_request ne hb rt u meth body =
     \<lparr>rq_url = (if rt = Connector then connector_url ne else u), rq_method = meth,
      rq_headers = (if rt = Connector then first_connector_headers hb u else direct_headers hb),
      rq_body = (if meth = js ''GET'' \<or> meth = js ''HEAD'' then None else body)\<rparr>"

definition error_output :: "jstr \<Rightarrow> jstr \<Rightarrow> jsval" where
  "error_output c msg = JObj [(js ''error'', JObj [(js ''code'', JStr c), (js ''message'', JStr msg)])]"

definition execute_http ::
  "'dt exec_env \<Rightarrow> jsval \<Rightarrow> jstr \<Rightarrow> jstr \<Rightarrow> retry option \<Rightarrow> http_config \<Rightarrow> machine \<Rightarrow> step_exec \<times> machine" where
  "execute_http e loop i p rt c m =
     (case http_plan e loop m c of
        Inl code \<Rightarrow> (FailedStep code, m)
      | Inr (u, hs, body) \<Rightarrow>
         (case route_of (x_net e) u of
            None \<Rightarrow> (FailedStep (js ''step_error''), m)
          | Some Blocked \<Rightarrow> (FailedStep (js ''host_not_allowed''), m)
          | Some PrivateBlocked \<Rightarrow> (FailedStep (js ''private_ip_blocked''), m)
          | Some route \<Rightarrow>
             let r = (case rt of Some r \<Rightarrow> r | None \<Rightarrow> default_retry);
                 meth = to_upper (x_host e) (if hc_method c = [] then js ''GET'' else hc_method c);
                 hb = hop_base_of e p c hs;
                 (outcome, net) = attempt_loop (x_net e) hb r (first_request (x_net e) hb route u meth body)
                   (max_attempts r) 1 (m_net m);
                 m1 = m\<lparr>m_net := net\<rparr>
             in case outcome of
                  HttpError code msg \<Rightarrow> (FailedStep code, set_step_output i (error_output code msg) m1)
                | HttpRefused code msg \<Rightarrow> (FailedStep code, set_step_output i (error_output code msg) m1)
                | HttpAnswer rs \<Rightarrow>
                    (if response_ok rs then completed else FailedStep (js ''http_error''),
                     set_step_output i (http_output (x_net e) rs) m1)))"

section \<open>The other steps without children\<close>

definition outbox_key :: "'dt exec_env \<Rightarrow> jstr \<Rightarrow> jstr" where
  "outbox_key e p = js ''ff:'' @ nat_str (x_run e) @ js '':'' @ p"

definition enqueue_outbox_notification ::
  "'dt exec_env \<Rightarrow> jstr \<Rightarrow> jstr \<Rightarrow> jstr \<Rightarrow> jstr \<Rightarrow> machine \<Rightarrow> machine" where
  "enqueue_outbox_notification e p recipient subject body m =
     (if list_ex (\<lambda>r. fst r = outbox_key e p) (m_outbox m) then m
      else m\<lparr>m_outbox := m_outbox m @ [(outbox_key e p, recipient, subject, body)]\<rparr>)"

definition enqueue_approval_notification :: "'dt exec_env \<Rightarrow> jstr \<Rightarrow> jstr \<Rightarrow> machine \<Rightarrow> machine" where
  "enqueue_approval_notification e p prompt m =
     (case x_owner e of
        None \<Rightarrow> m
      | Some email \<Rightarrow> enqueue_outbox_notification e p email (js ''Approval required'') prompt m)"

definition enqueued :: "jsval \<Rightarrow> jsval" where
  "enqueued i = JObj [(js ''message_id'', i), (js ''status'', JStr (js ''enqueued''))]"

definition execute_notify ::
  "'dt exec_env \<Rightarrow> jsval \<Rightarrow> jstr \<Rightarrow> jstr \<Rightarrow> notify_config \<Rightarrow> machine \<Rightarrow> step_exec \<times> machine" where
  "execute_notify e loop i p c m =
     (case bindR (interpolate e loop m (nc_to c)) (\<lambda>dest.
           bindR (case some_text (nc_subject c) of None \<Rightarrow> Inr [] | Some s \<Rightarrow> interpolate e loop m s) (\<lambda>subject.
           bindR (interpolate e loop m (nc_body c)) (\<lambda>body. Inr (dest, subject, body)))) of
        Inl code \<Rightarrow> (FailedStep code, m)
      | Inr (recipient, subject, body) \<Rightarrow>
         if nc_inbox c then
           if \<not> x_member e recipient then (FailedStep (js ''unknown_recipient''), m)
           else (completed, set_step_output i (enqueued (JStr (nat_str (length (m_inbox m)))))
                   (m\<lparr>m_inbox := m_inbox m @ [(recipient, subject, body)]\<rparr>))
         else (completed, set_step_output i (enqueued Null) (enqueue_outbox_notification e p recipient subject body m)))"

fun transform_set :: "(jstr \<Rightarrow> jstr + jsval) \<Rightarrow> (jstr \<times> jstr) list \<Rightarrow> entries \<Rightarrow> jstr + entries" where
  "transform_set f [] acc = Inr acc"
| "transform_set f ((k, x) # kvs) acc = bindR (f x) (\<lambda>v. transform_set f kvs (put k v acc))"

definition execute_transform ::
  "'dt exec_env \<Rightarrow> jsval \<Rightarrow> jstr \<Rightarrow> (jstr \<times> jstr) list \<Rightarrow> machine \<Rightarrow> step_exec \<times> machine" where
  "execute_transform e loop i kvs m =
     (case transform_set (\<lambda>x. coded (resolve_pure_interpolation (eval_in e loop m) x)) kvs [] of
        Inl code \<Rightarrow> (FailedStep code, m)
      | Inr created \<Rightarrow> (completed, set_step_output i (JObj created) m))"

definition set_delay :: "(jstr \<times> int) option \<Rightarrow> machine \<Rightarrow> machine" where
  "set_delay d m = m\<lparr>m_st := (m_st m)\<lparr>st_delay := d\<rparr>\<rparr>"

definition set_approval :: "(jstr \<times> nat) option \<Rightarrow> machine \<Rightarrow> machine" where
  "set_approval a m = m\<lparr>m_st := (m_st m)\<lparr>st_approval := a\<rparr>\<rparr>"

definition execute_delay ::
  "'dt exec_env \<Rightarrow> jstr \<Rightarrow> jstr \<Rightarrow> nat \<Rightarrow> jstr \<Rightarrow> machine \<Rightarrow> step_exec \<times> machine" where
  "execute_delay e i p row dur m =
     (case parse_duration_ms (if dur = [] then js ''30s'' else dur) of
        None \<Rightarrow> (FailedStep (js ''type_mismatch''), m)
      | Some ms \<Rightarrow>
         (case st_delay (m_st m) of
            Some (q, resume) \<Rightarrow>
              if q = p then
                let (now, m1) = read_clock e m in
                if now < resume then (ParkWaiting, m1)
                else (completed, set_step_output i (JObj [(js ''resumed_at'', JStr (x_iso e now))])
                       (set_delay None (set_row row ''succeeded'' m1)))
              else (let (now, m1) = read_clock e m in
                    case to_instant (js_add (Num (of_int now)) ms) of
                      None \<Rightarrow> (FailedStep (js ''step_error''), m1)
                    | Some t \<Rightarrow> (ParkWaiting, set_delay (Some (p, t)) m1))
          | None \<Rightarrow>
              (let (now, m1) = read_clock e m in
               case to_instant (js_add (Num (of_int now)) ms) of
                 None \<Rightarrow> (FailedStep (js ''step_error''), m1)
               | Some t \<Rightarrow> (ParkWaiting, set_delay (Some (p, t)) m1))))"

section \<open>Approvals\<close>

definition latest_task :: "nat \<Rightarrow> jstr \<Rightarrow> store \<Rightarrow> task option" where
  "latest_task i p db = List.find (\<lambda>t. tk_run t = i \<and> tk_path t = p) (rev (db_tasks db))"

definition add_task :: "nat \<Rightarrow> jstr \<Rightarrow> bool \<Rightarrow> int \<Rightarrow> store \<Rightarrow> store" where
  "add_task i p abort tmo db =
     db\<lparr>db_tasks := db_tasks db @ [\<lparr>tk_id = length (db_tasks db), tk_run = i, tk_path = p, tk_status = Pending,
       tk_abort = abort, tk_timeout = Some tmo\<rparr>]\<rparr>"

definition approval_output :: "'dt exec_env \<Rightarrow> nat \<Rightarrow> string \<Rightarrow> jsval" where
  "approval_output e k d =
     JObj [(js ''decision'', JStr (js d)), (js ''decided_by'', fst (x_decided e k)), (js ''decided_at'', snd (x_decided e k))]"

definition execute_approval ::
  "'dt exec_env \<Rightarrow> jsval \<Rightarrow> jstr \<Rightarrow> jstr \<Rightarrow> nat \<Rightarrow> jstr \<Rightarrow> int option \<Rightarrow> bool \<Rightarrow> machine \<Rightarrow> step_exec \<times> machine" where
  "execute_approval e loop i p row prompt tmo abort m =
     (if \<not> x_features e ''manual_approval'' then (FailedStep (js ''plan_feature_required''), m)
      else case interpolate e loop m prompt of
        Inl code \<Rightarrow> (FailedStep code, m)
      | Inr text \<Rightarrow>
         let secs = max 60 (min (case tmo of Some t \<Rightarrow> t | None \<Rightarrow> 86400) (30 * 24 * 3600));
             (now, m1) = read_clock e m; until = now + secs * 1000
         in case (case st_approval (m_st m1) of Some (q, k) \<Rightarrow> if q = p then Some k else None | None \<Rightarrow> None) of
              None \<Rightarrow>
                (ParkPaused,
                 case latest_task (x_run e) p (m_db m1) of
                   Some t \<Rightarrow>
                     if tk_status t \<in> {TimedOut, TaskCanceled}
                     then enqueue_approval_notification e p text (set_approval (Some (p, length (db_tasks (m_db m1))))
                            (m1\<lparr>m_db := add_task (x_run e) p abort until (m_db m1)\<rparr>))
                     else set_approval (Some (p, tk_id t)) m1
                 | None \<Rightarrow> enqueue_approval_notification e p text (set_approval (Some (p, length (db_tasks (m_db m1))))
                            (m1\<lparr>m_db := add_task (x_run e) p abort until (m_db m1)\<rparr>)))
            | Some k \<Rightarrow>
               (case find_task k (m_db m1) of
                  None \<Rightarrow> (FailedStep (js ''step_error''), m1)
                | Some t \<Rightarrow>
                   (case tk_status t of
                      Pending \<Rightarrow> (ParkPaused, m1)
                    | TimedOut \<Rightarrow>
                        if abort then (FailedStep (js ''approval_timeout''), set_step_output i (approval_output e k ''timeout'') m1)
                        else (Completed False False None True,
                              set_approval None (set_step_output i (approval_output e k ''timeout'') m1))
                    | Approved \<Rightarrow>
                        (completed, set_approval None (set_step_output i (approval_output e k ''approved'')
                           (set_row row ''succeeded'' m1)))
                    | _ \<Rightarrow>
                        (FailedStep (js ''approval_rejected''), set_row row ''failed''
                           (set_step_output i (approval_output e k ''rejected'') (set_approval None m1))))))"

section \<open>Log and reply\<close>

definition LOG_LIMIT :: nat where "LOG_LIMIT = 64 * 1024"
definition REPLY_BODY_LIMIT :: nat where "REPLY_BODY_LIMIT = 64 * 1024"

definition FORBIDDEN_REPLY_HEADERS :: "jstr list" where
  "FORBIDDEN_REPLY_HEADERS = map js [''set-cookie'', ''content-length'', ''transfer-encoding'', ''connection'']"

definition execute_log :: "'dt exec_env \<Rightarrow> jsval \<Rightarrow> jstr \<Rightarrow> jstr \<Rightarrow> machine \<Rightarrow> step_exec \<times> machine" where
  "execute_log e loop i message m =
     (case interpolate e loop m message of
        Inl code \<Rightarrow> (FailedStep code, m)
      | Inr text \<Rightarrow> (completed, set_step_output i (JObj [(js ''message'', JStr (take LOG_LIMIT text))]) m))"

definition execute_reply ::
  "'dt exec_env \<Rightarrow> jsval \<Rightarrow> jstr \<Rightarrow> nat option \<Rightarrow> headers \<Rightarrow> jstr \<Rightarrow> machine \<Rightarrow> step_exec \<times> machine" where
  "execute_reply e loop i status hs body m =
     (case interpolate e loop m body of
        Inl code \<Rightarrow> (FailedStep code, m)
      | Inr text \<Rightarrow>
         if REPLY_BODY_LIMIT < utf8_length text then (FailedStep (js ''reply_body_too_large''), m)
         else if list_ex (\<lambda>h. ne_lower (x_net e) (fst h) \<in> set FORBIDDEN_REPLY_HEADERS) hs
         then (FailedStep (js ''forbidden_reply_header''), m)
         else let reply = JObj [(js ''status'', JNum (Num (of_nat (case status of Some s \<Rightarrow> s | None \<Rightarrow> 200)))),
                    (js ''headers'', JObj (map (\<lambda>h. (fst h, JStr (snd h))) hs)), (js ''body'', JStr text)]
              in (completed, set_step_output i reply (m\<lparr>m_st := (m_st m)\<lparr>st_reply := Some reply\<rparr>\<rparr>)))"

end
