(* ===== verification/ExecWalk.thy ===== *)
theory ExecWalk
  imports Executor
begin

text \<open>
  \<open>executeSteps\<close>, \<open>executeStepRecord\<close>, the steps with children and \<open>doExecuteRun\<close> of
  \<open>apps/server/src/services/run-executor.ts\<close>.

  The three functions recurse over the manifest: \<open>exec_steps\<close> over a list of steps, \<open>exec_record\<close>
  over one step, \<open>exec_kind\<close> over its kind.  A \<open>for_each\<close> runs the same children for each item,
  through the loop \<open>foreach_loop\<close>.
\<close>

section \<open>The loop of for_each\<close>

record fe_acc =
  fe_results :: "jsval list"
  fe_succeeded :: bool
  fe_executed :: bool
  fe_failure :: bool

definition result_status :: "string \<Rightarrow> entries \<Rightarrow> jsval" where
  "result_status s rest = JObj ((js ''status'', JStr (js s)) # rest)"

text \<open>The children of one iteration: whether any was attempted or succeeded, and the last output.\<close>

definition child_verdict :: "machine \<Rightarrow> jstr \<Rightarrow> step \<Rightarrow> bool \<times> bool \<times> jsval \<Rightarrow> bool \<times> bool \<times> jsval" where
  "child_verdict m p child acc =
     (case acc of (attempted, good, out) \<Rightarrow>
        if \<not> is_done (p @ js ''.'' @ step_id child) m then (attempted, good, out)
        else let s = get_member (st_status (m_st m)) (step_id child);
                 st = (if js_true s then s else JStr (js ''skipped''))
             in if st = JStr (js ''skipped'') then (attempted, good, out)
                else if st = JStr (js ''succeeded'')
                then (True, True, case get_member (st_outputs (m_st m)) (step_id child) of Undefined \<Rightarrow> Null | v \<Rightarrow> v)
                else (True, good, out))"

definition iteration_verdict ::
  "machine \<Rightarrow> jstr \<Rightarrow> step list \<Rightarrow> bool \<Rightarrow> jstr option \<Rightarrow> fe_acc \<Rightarrow> fe_acc" where
  "iteration_verdict m p children any_fail err a =
     (case fold (child_verdict m p) children (False, False, Null) of
        (attempted, good, out) \<Rightarrow>
          let failed = any_fail \<and> \<not> good in
          a\<lparr>fe_results := fe_results a @
              [if \<not> attempted then result_status ''skipped'' []
               else if failed then result_status ''failed'' [(js ''error'', JStr (case err of Some c \<Rightarrow> c | None \<Rightarrow> js ''step_error''))]
               else result_status ''succeeded''
                 ((if children = [] then [] else [(js ''step_id'', JStr (step_id (last children)))]) @ [(js ''output'', out)])],
            fe_succeeded := fe_succeeded a \<or> good, fe_executed := fe_executed a \<or> attempted,
            fe_failure := fe_failure a \<or> any_fail\<rparr>)"

definition set_iter :: "jstr \<Rightarrow> nat \<Rightarrow> machine \<Rightarrow> machine" where
  "set_iter p i m = m\<lparr>m_st := (m_st m)\<lparr>st_iter := put p (JNum (Num (of_nat i))) (st_iter (m_st m))\<rparr>\<rparr>"

definition clear_iter :: "jstr \<Rightarrow> machine \<Rightarrow> machine" where
  "clear_iter p m = m\<lparr>m_st := (m_st m)\<lparr>st_iter := AList.delete p (st_iter (m_st m))\<rparr>\<rparr>"

definition index_path :: "jstr \<Rightarrow> nat \<Rightarrow> jstr" where
  "index_path p i = p @ js ''['' @ nat_str i @ js '']''"

text \<open>\<open>Inl\<close> is an early return; \<open>out\<close> builds the step's output from the results so far.\<close>

fun foreach_loop ::
  "(jsval \<Rightarrow> nat \<Rightarrow> machine \<Rightarrow> step_exec \<times> machine) \<Rightarrow> (jsval list \<Rightarrow> jsval) \<Rightarrow> step list \<Rightarrow> jstr \<Rightarrow> jstr \<Rightarrow>
   jsval list \<Rightarrow> nat \<Rightarrow> fe_acc \<Rightarrow> machine \<Rightarrow> (step_exec + fe_acc) \<times> machine" where
  "foreach_loop body out children sid p [] i a m = (Inr a, m)"
| "foreach_loop body out children sid p (x # xs) i a m =
     (case body x i (set_iter p i m) of
        (ParkWaiting, m1) \<Rightarrow> (Inl ParkWaiting, m1)
      | (ParkPaused, m1) \<Rightarrow> (Inl ParkPaused, m1)
      | (FailedStep c, m1) \<Rightarrow>
          (Inl (FailedStep c),
           set_step_output sid (out (fe_results a @ [result_status ''failed'' [(js ''error'', JStr c)]])) m1)
      | (Completed af ok err sk, m1) \<Rightarrow>
          foreach_loop body out children sid p xs (i + 1)
            (iteration_verdict m1 (index_path p i) children af err a) (clear_iter p m1))"

definition resume_index :: "jstr \<Rightarrow> machine \<Rightarrow> nat" where
  "resume_index p m = (case get_member (st_iter (m_st m)) p of JNum (Num q) \<Rightarrow> nat (floor q) | _ \<Rightarrow> 0)"

definition foreach_output :: "nat \<Rightarrow> jsval list \<Rightarrow> jsval" where
  "foreach_output dropped results =
     JObj [(js ''results'', JArr results), (js ''truncated'', JBool (0 < dropped)),
           (js ''dropped_count'', JNum (Num (of_nat dropped)))]"

definition foreach_limit :: "int option \<Rightarrow> nat" where
  "foreach_limit l = nat (max 1 (min (case l of Some n \<Rightarrow> n | None \<Rightarrow> 100) 1000))"

definition foreach_end :: "jstr \<Rightarrow> nat \<Rightarrow> (step_exec + fe_acc) \<times> machine \<Rightarrow> step_exec \<times> machine" where
  "foreach_end sid dropped r =
     (case r of
        (Inl x, m) \<Rightarrow> (x, m)
      | (Inr a, m) \<Rightarrow>
          (if \<not> fe_executed a then completed
           else if \<not> fe_succeeded a \<and> fe_failure a then FailedStep (js ''step_error'')
           else Completed (fe_failure a) (fe_succeeded a) None False,
           set_step_output sid (foreach_output dropped (fe_results a)) m))"

section \<open>The end of a condition\<close>

definition condition_end :: "jstr \<Rightarrow> string \<Rightarrow> step list \<Rightarrow> step_exec \<times> machine \<Rightarrow> step_exec \<times> machine" where
  "condition_end sid b ss r =
     (case r of
        (Completed af ok err sk, m) \<Rightarrow>
          let out = (if ss = [] then Null
                     else case get_member (st_outputs (m_st m)) (step_id (last ss)) of Undefined \<Rightarrow> Null | v \<Rightarrow> v)
          in (Completed af ok None False, set_step_output sid (JObj [(js ''branch'', JStr (js b)), (js ''output'', out)]) m)
      | r' \<Rightarrow> r')"

section \<open>Steps\<close>

text \<open>What \<open>executeStepRecord\<close> does around the step itself.\<close>

definition start_record :: "'dt exec_env \<Rightarrow> jstr \<Rightarrow> bool \<Rightarrow> machine \<Rightarrow> nat \<times> machine" where
  "start_record e p cont m = (let (row, m1) = open_row (x_run e) p cont m in (row, log_step ''step.started'' p m1))"

definition add_elapsed :: "int \<Rightarrow> machine \<Rightarrow> machine" where
  "add_elapsed d m = m\<lparr>m_st := (m_st m)\<lparr>st_elapsed := st_elapsed (m_st m) + d\<rparr>\<rparr>"

definition finish_record :: "jstr \<Rightarrow> jstr \<Rightarrow> nat \<Rightarrow> step_exec \<Rightarrow> machine \<Rightarrow> machine" where
  "finish_record sid p row r m =
     (case r of
        Completed af ok err sk \<Rightarrow>
          let st = (if sk then ''skipped'' else ''succeeded'')
          in log_step (if sk then ''step.skipped'' else ''step.succeeded'') p (mark_step_status sid st (set_row row st m))
      | FailedStep c \<Rightarrow> log_step ''step.failed'' p (mark_step_status sid ''failed'' (set_row row ''failed'' m))
      | ParkWaiting \<Rightarrow> log_step ''step.waiting'' p (set_row row ''waiting'' m)
      | ParkPaused \<Rightarrow> log_step ''step.paused'' p (set_row row ''paused'' m))"

definition step_path :: "jstr \<Rightarrow> jstr \<Rightarrow> jstr" where
  "step_path prfx sid = (if prfx = [] then sid else prfx @ js ''.'' @ sid)"

type_synonym walk_acc = "bool \<times> bool \<times> jstr option"

definition skip_step :: "'dt exec_env \<Rightarrow> jstr \<Rightarrow> jstr \<Rightarrow> machine \<Rightarrow> machine" where
  "skip_step e sid p m =
     (if is_done p m then m
      else log_step ''step.skipped'' p
             (mark_step_status sid ''skipped'' (mark_done p (insert_step_record (x_run e) p ''skipped'' m))))"

text \<open>The step's \<open>if\<close>: whether the step is to run, or the code of the error.\<close>

definition step_guard :: "'dt exec_env \<Rightarrow> jsval \<Rightarrow> machine \<Rightarrow> jstr option \<Rightarrow> jstr + bool" where
  "step_guard e loop m c =
     (case some_text c of None \<Rightarrow> Inr True | Some x \<Rightarrow> map_sum id is_truthy (coded (eval_in e loop m x)))"

definition set_run_failed :: "machine \<Rightarrow> machine" where
  "set_run_failed m = m\<lparr>m_st := (m_st m)\<lparr>st_failed := True\<rparr>\<rparr>"

text \<open>A round of \<open>executeSteps\<close>: return, go on with the next step, or execute this one.\<close>

datatype walk = Stop step_exec machine | Go walk_acc machine | Run

definition before_step :: "'dt exec_env \<Rightarrow> step \<Rightarrow> jsval \<Rightarrow> jstr \<Rightarrow> walk_acc \<Rightarrow> machine \<Rightarrow> walk" where
  "before_step e s loop prfx acc m =
     (let p = step_path prfx (step_id s) in
      if prfx = [] \<and> x_timeout_ms e < st_elapsed (m_st m) then Stop (FailedStep (js ''timeout_exceeded'')) m
      else case step_guard e loop m (step_if s) of
        Inl c \<Rightarrow> Stop (FailedStep c) m
      | Inr runs \<Rightarrow>
         if \<not> runs then Go acc (skip_step e (step_id s) p m)
         else if is_done p m then Go acc m
         else Run)"

definition after_step :: "step \<Rightarrow> jstr \<Rightarrow> walk_acc \<Rightarrow> step_exec \<times> machine \<Rightarrow> walk" where
  "after_step s prfx acc r =
     (case r of
        (Completed _ _ _ _, m) \<Rightarrow> Go (fst acc, True, snd (snd acc)) (mark_done (step_path prfx (step_id s)) m)
      | (FailedStep c, m) \<Rightarrow>
          if step_continue s
          then Go (True, fst (snd acc), case snd (snd acc) of Some x \<Rightarrow> Some x | None \<Rightarrow> Some c)
                  (if prfx = [] then set_run_failed m else m)
          else Stop (FailedStep c) m
      | (park, m) \<Rightarrow> Stop park m)"

definition walk_end :: "walk_acc \<Rightarrow> machine \<Rightarrow> step_exec \<times> machine" where
  "walk_end acc m = (Completed (fst acc) (fst (snd acc)) (snd (snd acc)) False, m)"

text \<open>A step without children.\<close>

definition exec_simple ::
  "'dt exec_env \<Rightarrow> step_kind \<Rightarrow> jstr \<Rightarrow> retry option \<Rightarrow> jsval \<Rightarrow> jstr \<Rightarrow> nat \<Rightarrow> machine \<Rightarrow> step_exec \<times> machine" where
  "exec_simple e k sid rt loop p row m =
     (case k of
        HttpStep c \<Rightarrow> execute_http e loop sid p rt c m
      | NotifyStep c \<Rightarrow> execute_notify e loop sid p c m
      | TransformStep kvs \<Rightarrow> execute_transform e loop sid kvs m
      | DelayStep d \<Rightarrow> execute_delay e sid p row d m
      | ApprovalStep t tmo ab \<Rightarrow> execute_approval e loop sid p row t tmo ab m
      | LogStep t \<Rightarrow> execute_log e loop sid t m
      | ReplyStep st hs b \<Rightarrow> execute_reply e loop sid st hs b m
      | _ \<Rightarrow> (FailedStep (js ''validation_error''), m))"

definition no_acc :: walk_acc where "no_acc = (False, False, None)"

definition no_results :: fe_acc where
  "no_results = \<lparr>fe_results = [], fe_succeeded = False, fe_executed = False, fe_failure = False\<rparr>"

text \<open>The list a \<open>for_each\<close> runs over; \<open>Inr None\<close> is null.\<close>

definition foreach_items :: "'dt exec_env \<Rightarrow> jsval \<Rightarrow> machine \<Rightarrow> jstr \<Rightarrow> jstr + jsval list option" where
  "foreach_items e loop m over =
     (case coded (eval_in e loop m over) of
        Inl c \<Rightarrow> Inl c
      | Inr v \<Rightarrow> (case v of Null \<Rightarrow> Inr None | Undefined \<Rightarrow> Inr None | JArr items \<Rightarrow> Inr (Some items)
                  | _ \<Rightarrow> Inl (js ''type_mismatch'')))"

function (sequential)
    exec_steps :: "'dt exec_env \<Rightarrow> step list \<Rightarrow> jsval \<Rightarrow> jstr \<Rightarrow> walk_acc \<Rightarrow> machine \<Rightarrow> step_exec \<times> machine"
and exec_record :: "'dt exec_env \<Rightarrow> step \<Rightarrow> jsval \<Rightarrow> jstr \<Rightarrow> machine \<Rightarrow> step_exec \<times> machine"
and exec_kind :: "'dt exec_env \<Rightarrow> step_kind \<Rightarrow> jstr \<Rightarrow> retry option \<Rightarrow> jsval \<Rightarrow> jstr \<Rightarrow> nat \<Rightarrow> machine \<Rightarrow> step_exec \<times> machine"
where
  "exec_steps e [] loop prfx acc m = walk_end acc m"
| "exec_steps e (s # ss) loop prfx acc m =
     (case before_step e s loop prfx acc m of
        Stop r m' \<Rightarrow> (r, m')
      | Go acc' m' \<Rightarrow> exec_steps e ss loop prfx acc' m'
      | Run \<Rightarrow>
         (case after_step s prfx acc (exec_record e s loop (step_path prfx (step_id s)) m) of
            Go acc' m' \<Rightarrow> exec_steps e ss loop prfx acc' m'
          | Stop r m' \<Rightarrow> (r, m')
          | Run \<Rightarrow> walk_end acc m))"
| "exec_record e (Step sid c cont rt k) loop p m =
     (let (row, m1) = start_record e p cont m;
          (t0, m2) = read_clock e m1;
          (r, m3) = exec_kind e k sid rt loop p row m2;
          (t1, m4) = read_clock e m3
      in (r, finish_record sid p row r (add_elapsed (t1 - t0) m4)))"
| "exec_kind e (ConditionStep w a b) sid rt loop p row m =
     (case coded (eval_in e loop m w) of
        Inl c \<Rightarrow> (FailedStep c, m)
      | Inr v \<Rightarrow>
         if is_truthy v then condition_end sid ''then'' a (exec_steps e a loop (p @ js ''.then'') no_acc m)
         else condition_end sid ''else'' b (exec_steps e b loop (p @ js ''.else'') no_acc m))"
| "exec_kind e (ForEachStep over limit children) sid rt loop p row m =
     (case foreach_items e loop m over of
        Inl c \<Rightarrow> (FailedStep c, m)
      | Inr None \<Rightarrow> (completed, set_step_output sid (foreach_output 0 []) m)
      | Inr (Some items) \<Rightarrow>
         (let n = foreach_limit limit; dropped = length items - n; i0 = resume_index p m
          in foreach_end sid dropped
               (foreach_loop (\<lambda>x i m1. exec_steps e children (loop_ctx x i loop) (index_path p i) no_acc m1)
                  (foreach_output dropped) children sid p (drop i0 (take n items)) i0 no_results m)))"
| "exec_kind e k sid rt loop p row m = exec_simple e k sid rt loop p row m"
  by pat_completeness auto
termination
  by (relation "measure (\<lambda>x. case x of Inl (e, ss, _) \<Rightarrow> size_list size ss
        | Inr (Inl (e, s, _)) \<Rightarrow> size s | Inr (Inr (e, k, _)) \<Rightarrow> size k)") auto

section \<open>The run\<close>

definition jstr_string :: "jstr \<Rightarrow> string" where
  "jstr_string s = map char_of s"

definition run_result_of :: "step_exec \<Rightarrow> run_state \<Rightarrow> run_result" where
  "run_result_of r st =
     (case r of
        ParkWaiting \<Rightarrow> EndWaiting (map_option snd (st_delay st))
      | ParkPaused \<Rightarrow> EndPaused
      | FailedStep c \<Rightarrow> EndFailed (Some (jstr_string c))
      | Completed _ _ _ _ \<Rightarrow> if st_failed st then EndFailed None else EndSucceeded)"

text \<open>\<open>None\<close>: the run is gone or has ended already.\<close>

definition do_execute_run :: "'dt exec_env \<Rightarrow> step list \<Rightarrow> int \<Rightarrow> int \<Rightarrow> machine \<Rightarrow> (run_result \<times> machine) option" where
  "do_execute_run e steps t0 t1 m =
     (case executor_begin (x_run e) t0 (m_db m) of
        None \<Rightarrow> None
      | Some db1 \<Rightarrow>
         let (r, m1) = exec_steps e steps Null [] no_acc (m\<lparr>m_db := db1\<rparr>);
             res = run_result_of r (m_st m1)
         in Some (res, m1\<lparr>m_db := executor_end (x_run e) res t1 (m_db m1)\<rparr>))"

end
