(* ===== verification/ExecProps.thy ===== *)
theory ExecProps
  imports ExecWalk
begin

text \<open>
  What an execution keeps, whatever the manifest is.  A relation between machines that is reflexive
  and transitive and holds for every single write (\<open>walk_frame\<close>) holds for whole executions; it is
  used for the checkpoints, for the requests and for the unique indexes.
\<close>

section \<open>A sample\<close>

text \<open>An environment without network, and the machine of a fresh run.\<close>

definition sample_net :: net_env where
  "sample_net = \<lparr>ne_platform = \<lparr>new_url = (\<lambda>_ _. None), is_ip = (\<lambda>_. False), dns_lookup = (\<lambda>_. None), block_list = (\<lambda>_. None)\<rparr>,
     ne_lower = ascii_lower, ne_egress = \<lparr>SEED_DEMO = None, APP_URL = None, HTTP_ALLOWLIST = None, CONNECTOR_URL = None,
     CONNECTOR_TOKEN = None\<rparr>, ne_rows = [], ne_fetch = (\<lambda>_ _. Inl []), ne_random = (\<lambda>_. 0), ne_json_parse = (\<lambda>_. None)\<rparr>"

definition sample_env :: "unit exec_env" where
  "sample_env = \<lparr>x_host = sample_host, x_net = sample_net, x_run = 7, x_ws = 1,
     x_inputs = [(js ''xs'', JArr [Null, Null])], x_trigger_type = js ''manual'', x_payload = Null, x_scheduled_at = None,
     x_timeout_ms = 3600000, x_features = (\<lambda>_. True), x_secrets = None, x_credentials = (\<lambda>_. None),
     x_member = (\<lambda>_. False), x_owner = None, x_clock = (\<lambda>n. int n * 60000), x_iso = (\<lambda>_. []), x_decided = (\<lambda>_. (Null, Null))\<rparr>"

definition sample_run :: run where
  "sample_run = \<lparr>run_id = 7, run_ws = 1, run_wf = 3, run_version = 1, run_trigger = None, run_key = [], run_status = Queued,
     run_inputs = [], run_started = False, run_created = 0, run_timeout = 3600000, run_resume = None, run_job = True,
     run_heartbeat = 0, run_recovery = 0, run_blocked = False, run_error = None\<rparr>"

definition sample_machine :: machine where
  "sample_machine = \<lparr>m_db = \<lparr>db_runs = [sample_run], db_events = [], db_steps = [], db_tasks = [], db_usage = [], db_daily = [],
       db_subs = [], db_locks = [], db_wflocks = [], db_leases = [], db_queue = [], db_plans = [], db_wfs = [], db_trigs = [],
       db_replay = [], db_next = 8\<rparr>,
     m_st = \<lparr>st_outputs = [], st_status = [], st_done = [], st_iter = [], st_delay = None, st_approval = None, st_reply = None,
       st_failed = False, st_elapsed = 0\<rparr>,
     m_net = \<lparr>sent = [], slept = []\<rparr>, m_log = [], m_outbox = [], m_inbox = [], m_reads = 0\<rparr>"

definition log_demo :: step where
  "log_demo = Step (js ''a'') None False None (LogStep (js ''x''))"

locale walk_frame =
  fixes e :: "'dt exec_env" and R :: "machine \<Rightarrow> machine \<Rightarrow> bool"
  assumes R_refl: "R m m"
    and R_trans: "R a b \<Longrightarrow> R b c \<Longrightarrow> R a c"
    and R_simple: "R m (snd (exec_simple e k sid rt loop p row m))"
    and R_output: "R m (set_step_output sid v m)"
    and R_start: "\<not> is_done p m \<Longrightarrow> R m (snd (start_record e p cont m))"
    and R_clock: "R m (snd (read_clock e m))"
    and R_finish: "R m (finish_record sid p row r m)"
    and R_elapsed: "R m (add_elapsed d m)"
    and R_done: "R m (mark_done p m)"
    and R_skip: "R m (skip_step e sid p m)"
    and R_failed: "R m (set_run_failed m)"
    and R_iter: "R m (set_iter p i m)" "R m (clear_iter p m)"
begin

lemma R_then: "R a b \<Longrightarrow> (\<And>m. R m (f m)) \<Longrightarrow> R a (f b)"
  using R_trans by blast

lemma R_foreach:
  "(\<And>x i m. R m (snd (body x i m))) \<Longrightarrow> R m (snd (foreach_loop body out children sid p xs i a m))"
proof (induction xs arbitrary: i a m)
  case (Cons x xs)
  obtain r m1 where b: "body x i (set_iter p i m) = (r, m1)" by fastforce
  have s: "R m m1" using Cons.prems [of "set_iter p i m" x i] R_trans [OF R_iter(1)] by (simp add: b)
  show ?case
  proof (cases r)
    case (Completed af ok err sk)
    then show ?thesis
      using R_trans [OF s R_trans [OF R_iter(2) Cons.IH [OF Cons.prems]]] by (simp add: b)
  qed (use s R_then [OF s R_output] in \<open>simp_all add: b\<close>)
qed (simp add: R_refl)

lemma R_foreach_end: "R m (snd r) \<Longrightarrow> R m (snd (foreach_end sid n r))"
  by (cases r) (auto simp: foreach_end_def intro: R_then R_output split: sum.split)

lemma R_condition_end: "R m (snd r) \<Longrightarrow> R m (snd (condition_end sid b ss r))"
  by (cases r) (auto simp: condition_end_def Let_def intro: R_then R_output split: step_exec.split)

lemma before_step_Go: "before_step e s loop prfx acc m = Go acc' m' \<Longrightarrow> R m m'"
  by (auto simp: before_step_def Let_def R_refl R_skip split: sum.splits if_splits)

lemma before_step_Stop: "before_step e s loop prfx acc m = Stop r m' \<Longrightarrow> R m m'"
  by (auto simp: before_step_def Let_def R_refl split: sum.splits if_splits)

lemma before_step_Run: "before_step e s loop prfx acc m = Run \<Longrightarrow> \<not> is_done (step_path prfx (step_id s)) m"
  by (auto simp: before_step_def Let_def split: sum.splits if_splits)

lemma after_step_Go: "after_step s prfx acc r = Go acc' m' \<Longrightarrow> R (snd r) m'"
  by (cases r) (auto simp: after_step_def R_refl R_done R_failed split: step_exec.splits if_splits)

lemma after_step_Stop: "after_step s prfx acc r = Stop x m' \<Longrightarrow> R (snd r) m'"
  by (cases r) (auto simp: after_step_def R_refl split: step_exec.splits if_splits)

lemma R_record:
  assumes "\<And>row m. R m (snd (exec_kind e k sid rt loop p row m))" "\<not> is_done p m"
  shows "R m (snd (exec_record e (Step sid c cont rt k) loop p m))"
proof -
  obtain row m1 where m1: "start_record e p cont m = (row, m1)" by fastforce
  obtain t0 m2 where m2: "read_clock e m1 = (t0, m2)" by fastforce
  obtain r m3 where m3: "exec_kind e k sid rt loop p row m2 = (r, m3)" by fastforce
  obtain t1 m4 where m4: "read_clock e m3 = (t1, m4)" by fastforce
  have "R m m1" using R_start [OF assms(2), of cont] by (simp add: m1)
  moreover have "R m1 m2" using R_clock [of m1] by (simp add: m2)
  moreover have "R m2 m3" using assms(1) [of m2 row] by (simp add: m3)
  moreover have "R m3 m4" using R_clock [of m3] by (simp add: m4)
  ultimately have "R m m4" by (blast intro: R_trans)
  from R_then [OF R_then [OF this R_elapsed] R_finish] show ?thesis by (simp add: m1 m2 m3 m4)
qed

lemma R_steps:
  assumes "\<And>s loop p m. s \<in> set ss \<Longrightarrow> \<not> is_done p m \<Longrightarrow> R m (snd (exec_record e s loop p m))"
  shows "R m (snd (exec_steps e ss loop prfx acc m))"
  using assms
proof (induction ss arbitrary: acc m)
  case Nil
  then show ?case by (simp add: walk_end_def R_refl)
next
  case (Cons s ss)
  have rest: "R m' (snd (exec_steps e ss loop prfx acc' m'))" for acc' m'
    by (rule Cons.IH) (use Cons.prems in simp)
  show ?case
  proof (cases "before_step e s loop prfx acc m")
    case (Stop r m')
    then show ?thesis using before_step_Stop by simp
  next
    case (Go acc' m')
    with R_trans [OF before_step_Go [OF Go] rest] show ?thesis by simp
  next
    case Run
    let ?r = "exec_record e s loop (step_path prfx (step_id s)) m"
    have r: "R m (snd ?r)" by (rule Cons.prems [OF _ before_step_Run [OF Run]]) simp
    show ?thesis
    proof (cases "after_step s prfx acc ?r")
      case (Stop x m')
      with R_trans [OF r after_step_Stop [OF Stop]] Run show ?thesis by simp
    next
      case (Go acc' m')
      with R_trans [OF R_trans [OF r after_step_Go [OF Go]] rest] Run show ?thesis by simp
    next
      case walk: Run
      with Run show ?thesis by (simp add: walk_end_def R_refl)
    qed
  qed
qed

lemma R_record_kind:
  "\<forall>loop p m. \<not> is_done p m \<longrightarrow> R m (snd (exec_record e s loop p m))"
  "\<forall>sid rt loop p row m. R m (snd (exec_kind e k sid rt loop p row m))"
proof (induction s and k)
  case (Step sid c cont rt k)
  then show ?case by (blast intro: R_record)
next
  case (ConditionStep w a b)
  have a: "R m (snd (exec_steps e a loop p acc m))" for loop p acc m
    by (rule R_steps) (use ConditionStep in blast)
  have b: "R m (snd (exec_steps e b loop p acc m))" for loop p acc m
    by (rule R_steps) (use ConditionStep in blast)
  show ?case
    using R_condition_end [OF a] R_condition_end [OF b] by (simp add: R_refl split: sum.split)
next
  case (ForEachStep over limit children)
  have c: "R m (snd (exec_steps e children loop p acc m))" for loop p acc m
    by (rule R_steps) (use ForEachStep in blast)
  show ?case
    using R_foreach_end [OF R_foreach [OF c]] by (simp add: Let_def R_refl R_output split: sum.split option.split)
qed (use R_simple in simp_all)

lemma R_exec_steps: "R m (snd (exec_steps e ss loop prfx acc m))"
  by (rule R_steps) (use R_record_kind in blast)

end

section \<open>The writes of the simple steps\<close>

text \<open>A step without children writes its outputs, its rows, tasks, messages, requests and parks.\<close>

definition simple_view :: "machine \<Rightarrow> entries \<times> (string \<times> jstr) list" where
  "simple_view m = (st_done (m_st m), m_log m)"

lemma view_writes [simp]:
  "simple_view (set_step_output i v m) = simple_view m" "simple_view (set_delay d m) = simple_view m"
  "simple_view (set_approval a m) = simple_view m" "simple_view (set_row k st m) = simple_view m"
  "simple_view (snd (read_clock e m)) = simple_view m" "simple_view (m\<lparr>m_net := n\<rparr>) = simple_view m"
  "simple_view (m\<lparr>m_db := db\<rparr>) = simple_view m" "simple_view (m\<lparr>m_inbox := b\<rparr>) = simple_view m"
  "simple_view (m\<lparr>m_st := (m_st m)\<lparr>st_reply := rp\<rparr>\<rparr>) = simple_view m"
  "simple_view (enqueue_outbox_notification e' p r s t m) = simple_view m"
  "simple_view (enqueue_approval_notification e' p t m) = simple_view m"
  by (simp_all add: simple_view_def set_step_output_def set_delay_def set_approval_def set_row_def read_clock_def
      enqueue_outbox_notification_def enqueue_approval_notification_def split: option.split)

lemma view_http: "simple_view (snd (execute_http e loop i p rt c m)) = simple_view m"
  by (simp add: execute_http_def Let_def split_beta split: sum.split option.split egress_route.split http_end.split)

lemma view_delay: "simple_view (snd (execute_delay e i p row d m)) = simple_view m"
  by (simp add: execute_delay_def Let_def split_beta split: option.split prod.split)

lemma view_approval: "simple_view (snd (execute_approval e loop i p row t tmo ab m)) = simple_view m"
  by (simp add: execute_approval_def Let_def split_beta del: js.simps split: option.split sum.split task_status.split)

lemma view_simple: "simple_view (snd (exec_simple e k sid rt loop p row m)) = simple_view m"
  by (simp add: exec_simple_def view_http view_delay view_approval execute_notify_def execute_transform_def
      execute_log_def execute_reply_def Let_def split: step_kind.split sum.split)

section \<open>Checkpoints\<close>

definition starts :: "jstr \<Rightarrow> machine \<Rightarrow> nat" where
  "starts p m = count_list (m_log m) (''step.started'', p)"

definition checkpoints_kept :: "machine \<Rightarrow> machine \<Rightarrow> bool" where
  "checkpoints_kept m m' \<longleftrightarrow> (\<forall>p. is_done p m \<longrightarrow> is_done p m' \<and> starts p m' = starts p m)"

lemma simple_kept: "simple_view m' = simple_view m \<Longrightarrow> checkpoints_kept m m'"
  by (simp add: checkpoints_kept_def simple_view_def is_done_def starts_def)

lemma kept_trans: "checkpoints_kept a b \<Longrightarrow> checkpoints_kept b c \<Longrightarrow> checkpoints_kept a c"
  by (simp add: checkpoints_kept_def)

lemma get_member_put: "get_member (put k v kvs) q = (if q = k \<and> k \<noteq> proto_name then v else get_member kvs q)"
  by (simp add: put_def get_member_def)

lemma is_done_mark: "is_done q (mark_done p m) \<longleftrightarrow> is_done q m \<or> (q = p \<and> p \<noteq> proto_name)"
proof -
  have "js_true (JBool True)" by (simp add: js_true_def)
  then show ?thesis by (auto simp: is_done_def mark_done_def get_member_put)
qed

lemma starts_writes [simp]:
  "starts q (mark_done p m) = starts q m" "starts q (mark_step_status i st m) = starts q m"
  "starts q (set_row k st m) = starts q m" "starts q (m\<lparr>m_db := db\<rparr>) = starts q m"
  "ev \<noteq> ''step.started'' \<Longrightarrow> starts q (log_step ev p m) = starts q m"
  "p \<noteq> q \<Longrightarrow> starts q (log_step ev p m) = starts q m"
  by (simp_all add: starts_def mark_done_def mark_step_status_def set_row_def log_step_def)

lemma is_done_writes [simp]:
  "is_done q (mark_step_status i st m) = is_done q m" "is_done q (set_row k st m) = is_done q m"
  "is_done q (log_step ev p m) = is_done q m" "is_done q (m\<lparr>m_db := db\<rparr>) = is_done q m"
  by (simp_all add: is_done_def mark_step_status_def set_row_def log_step_def)

interpretation done_kept: walk_frame e checkpoints_kept for e :: "'dt exec_env"
proof unfold_locales
  fix m :: machine and p cont
  assume nd: "\<not> is_done p m"
  obtain row m1 where o: "open_row (x_run e) p cont m = (row, m1)" by fastforce
  have v: "simple_view m1 = simple_view m"
    using o by (auto simp: open_row_def split: option.splits if_splits)
  then have "checkpoints_kept m m1" by (rule simple_kept)
  with nd show "checkpoints_kept m (snd (start_record e p cont m))"
    by (auto simp: start_record_def o checkpoints_kept_def) (metis starts_writes(6))
next
  show "checkpoints_kept m (skip_step e sid p m)" for sid p m
    by (auto simp: checkpoints_kept_def skip_step_def is_done_mark insert_step_record_def)
next
  show "checkpoints_kept m (finish_record sid p row r m)" for sid p row r m
    by (auto simp: checkpoints_kept_def finish_record_def Let_def split: step_exec.split)
next
  show "checkpoints_kept m (mark_done p m)" for p m
    by (auto simp: checkpoints_kept_def is_done_mark)
qed (auto intro: simple_kept kept_trans view_simple
     simp: add_elapsed_def set_run_failed_def set_iter_def clear_iter_def simple_view_def set_step_output_def read_clock_def)

text \<open>
  C1: a step that is recorded as done is never started again, in this execution or in a later
  one that resumes from its state, and stays recorded, in every manifest and on every outcome.
\<close>

theorem done_step_not_restarted:
  assumes "is_done p m" "exec_steps e steps loop prfx acc m = (r, m')"
  shows "is_done p m' \<and> starts p m' = starts p m"
  using done_kept.R_exec_steps [of m e steps loop prfx acc] assms by (simp add: checkpoints_kept_def)

theorem done_step_not_restarted_witness:
  "is_done (js ''a'') (snd (exec_steps sample_env [log_demo] Null [] no_acc (mark_done (js ''a'') sample_machine)))"
proof -
  have "is_done (js ''a'') (mark_done (js ''a'') sample_machine)"
    by (simp add: is_done_mark proto_name_def)
  from done_step_not_restarted [OF this prod.collapse [symmetric]] show ?thesis by blast
qed

section \<open>Requests\<close>

definition gate_passed :: "net_env \<Rightarrow> request \<Rightarrow> bool" where
  "gate_passed ne rq \<longleftrightarrow> route_of ne (rq_url rq) = Some Direct \<or>
     (\<exists>u. route_of ne u = Some Connector \<and> rq_url rq = connector_url ne)"

definition requests_gated :: "net_env \<Rightarrow> machine \<Rightarrow> machine \<Rightarrow> bool" where
  "requests_gated ne m m' \<longleftrightarrow> (\<exists>new. sent (m_net m') = sent (m_net m) @ new \<and> list_all (gate_passed ne) new)"

lemma first_authorised:
  "route_of ne u = Some rt \<Longrightarrow> rt = Direct \<or> rt = Connector \<Longrightarrow> authorised ne hb (first_request ne hb rt u meth body)"
  by (auto simp: authorised_def first_request_def)

lemma max_attempts_le: "max_attempts r \<le> 10"
  by (simp add: max_attempts_def)

lemma http_adds:
  assumes "http_plan e loop m c = Inr (u, hs, body)"
  shows "adds (x_net e) (hop_base_of e p c hs) 40 (m_net m) (m_net (snd (execute_http e loop i p rt c m)))"
proof -
  let ?hb = "hop_base_of e p c hs"
  have none: "adds (x_net e) ?hb 40 (m_net m) (m_net m)" by (simp add: adds_def)
  show ?thesis
  proof (cases "\<exists>route. route_of (x_net e) u = Some route \<and> (route = Direct \<or> route = Connector)")
    case True
    then obtain route where route: "route_of (x_net e) u = Some route" "route = Direct \<or> route = Connector" by blast
    let ?r = "case rt of Some r \<Rightarrow> r | None \<Rightarrow> default_retry"
    let ?meth = "to_upper (x_host e) (if hc_method c = [] then js ''GET'' else hc_method c)"
    let ?rq = "first_request (x_net e) ?hb route u ?meth body"
    obtain out net where a: "attempt_loop (x_net e) ?hb ?r ?rq (max_attempts ?r) 1 (m_net m) = (out, net)" by fastforce
    have "adds (x_net e) ?hb 40 (m_net m) (snd (attempt_loop (x_net e) ?hb ?r ?rq (max_attempts ?r) 1 (m_net m)))"
      by (rule adds_mono [OF attempts_add [OF first_authorised [OF route]]]) (use max_attempts_le [of ?r] in simp)
    from this [unfolded a] have "adds (x_net e) ?hb 40 (m_net m) net" by simp
    moreover have "m_net (snd (execute_http e loop i p rt c m)) = net"
      using route a by (auto simp: execute_http_def assms Let_def set_step_output_def simp del: js.simps split: http_end.split)
    ultimately show ?thesis by simp
  next
    case False
    then have "m_net (snd (execute_http e loop i p rt c m)) = m_net m"
      by (auto simp: execute_http_def assms split: option.split egress_route.split)
    with none show ?thesis by simp
  qed
qed

text \<open>
  C29: every request of an http step has passed the egress policy: it goes to a URL with a direct
  route, with the step's own headers and the idempotency key, or to the connector, with the token,
  for a URL routed there.  There are at most 40 of them.
\<close>

theorem http_requests_authorised:
  assumes "http_plan e loop m c = Inr (u, hs, body)"
  shows "\<exists>new. sent (m_net (snd (execute_http e loop i p rt c m))) = sent (m_net m) @ new \<and> length new \<le> 40 \<and>
    list_all (authorised (x_net e) (hop_base_of e p c hs)) new"
  using http_adds [OF assms, of p i rt] by (simp add: adds_def)

theorem http_requests_authorised_witness:
  "\<exists>new. sent (m_net (snd (execute_http sample_env Null (js ''a'') (js ''a'') None
      \<lparr>hc_method = [], hc_url = js ''u'', hc_headers = [], hc_body = None, hc_credential = None, hc_credential_header = None,
       hc_idempotency_key = None\<rparr> sample_machine))) = new \<and> length new \<le> 40"
proof -
  let ?c = "\<lparr>hc_method = [], hc_url = js ''u'', hc_headers = [], hc_body = None, hc_credential = None, hc_credential_header = None,
       hc_idempotency_key = None\<rparr>"
  have "http_plan sample_env Null sample_machine ?c = Inr (js ''u'', [], None)"
    by (simp add: http_plan_def interpolate_def coded_def resolve_interpolation.simps starts_with_def secrets_of_def template_blocks.simps
        some_text_def nonempty_def credential_headers_def braces_open_def)
  from http_requests_authorised [OF this] show ?thesis by (auto simp: sample_machine_def)
qed

end
