(* ===== verification/ExecIndexes.thy ===== *)
theory ExecIndexes
  imports ExecProps
begin

text \<open>
  Two more frames of executions: every request of a run has passed the egress policy, and no write
  violates the unique indexes of \<open>run_steps\<close> and of the outbox.
\<close>

section \<open>Requests of a run\<close>

lemma net_writes [simp]:
  "m_net (set_step_output i v m) = m_net m" "m_net (set_delay d m) = m_net m" "m_net (set_approval a m) = m_net m"
  "m_net (set_row k st m) = m_net m" "m_net (snd (read_clock e m)) = m_net m" "m_net (log_step ev p m) = m_net m"
  "m_net (mark_step_status i st m) = m_net m" "m_net (mark_done p m) = m_net m" "m_net (add_elapsed d' m) = m_net m"
  "m_net (set_run_failed m) = m_net m" "m_net (set_iter p j m) = m_net m" "m_net (clear_iter p m) = m_net m"
  "m_net (insert_step_record r p st m) = m_net m" "m_net (skip_step e sid p m) = m_net m"
  "m_net (enqueue_outbox_notification e p r' s t m) = m_net m" "m_net (enqueue_approval_notification e p t m) = m_net m"
  "m_net (finish_record sid p row x m) = m_net m" "m_net (snd (start_record e p c m)) = m_net m"
  by (simp_all add: set_step_output_def set_delay_def set_approval_def set_row_def read_clock_def log_step_def
      mark_step_status_def mark_done_def add_elapsed_def set_run_failed_def set_iter_def clear_iter_def
      insert_step_record_def skip_step_def enqueue_outbox_notification_def enqueue_approval_notification_def
      finish_record_def start_record_def open_row_def Let_def split: option.split step_exec.split)

lemma net_delay: "m_net (snd (execute_delay e i p row d m)) = m_net m"
  by (simp add: execute_delay_def Let_def split_beta split: option.split prod.split)

lemma net_approval: "m_net (snd (execute_approval e loop i p row t tmo ab m)) = m_net m"
  by (simp add: execute_approval_def Let_def split_beta del: js.simps split: option.split sum.split task_status.split)

lemma net_simple:
  "\<nexists>c. k = HttpStep c \<Longrightarrow> m_net (snd (exec_simple e k sid rt loop p row m)) = m_net m"
  by (cases k) (simp_all add: exec_simple_def net_delay net_approval execute_notify_def execute_transform_def
      execute_log_def execute_reply_def Let_def split: sum.split)

lemma gate_authorised: "authorised ne hb rq \<Longrightarrow> gate_passed ne rq"
  by (auto simp: authorised_def gate_passed_def)

lemma http_gated: "requests_gated (x_net e) m (snd (execute_http e loop i p rt c m))"
proof (cases "http_plan e loop m c")
  case (Inl code)
  then show ?thesis by (simp add: execute_http_def requests_gated_def)
next
  case (Inr x)
  obtain u hs body where "x = (u, hs, body)" by (cases x)
  then have "http_plan e loop m c = Inr (u, hs, body)" using Inr by simp
  from http_adds [OF this, of p i rt] obtain new
    where "sent (m_net (snd (execute_http e loop i p rt c m))) = sent (m_net m) @ new"
      "list_all (authorised (x_net e) (hop_base_of e p c hs)) new" by (auto simp: adds_def)
  then show ?thesis
    by (auto simp: requests_gated_def list_all_iff dest: gate_authorised intro!: exI [of _ new])
qed

lemma same_net_gated: "m_net m' = m_net m \<Longrightarrow> requests_gated ne m m'"
  by (simp add: requests_gated_def)

lemma gated_trans: "requests_gated ne a b \<Longrightarrow> requests_gated ne b c \<Longrightarrow> requests_gated ne a c"
  by (auto simp: requests_gated_def)

interpretation gated: walk_frame e "requests_gated (x_net e)" for e :: "'dt exec_env"
proof unfold_locales
  fix m :: machine and k sid rt loop p row
  show "requests_gated (x_net e) m (snd (exec_simple e k sid rt loop p row m))"
  proof (cases "\<exists>c. k = HttpStep c")
    case True
    then show ?thesis using http_gated by (auto simp: exec_simple_def)
  qed (auto intro: same_net_gated net_simple)
qed (auto intro: same_net_gated gated_trans)

text \<open>
  C3: whatever the manifest, every request an execution sends, redirects and retries included, is
  to a URL the egress policy routes directly, or to the connector.
\<close>

theorem run_requests_gated:
  "\<exists>new. sent (m_net (snd (exec_steps e steps loop prfx acc m))) = sent (m_net m) @ new \<and> list_all (gate_passed (x_net e)) new"
  using gated.R_exec_steps [of e m steps loop prfx acc] by (simp add: requests_gated_def)

section \<open>Unique indexes\<close>

definition row_key :: "step_entry \<Rightarrow> nat \<times> jstr \<times> nat" where
  "row_key r = (se_run r, se_path r, se_attempt r)"

definition indexes_ok :: "machine \<Rightarrow> bool" where
  "indexes_ok m \<longleftrightarrow> distinct (map row_key (db_steps (m_db m))) \<and> distinct (map fst (m_outbox m))"

definition indexes_kept :: "machine \<Rightarrow> machine \<Rightarrow> bool" where
  "indexes_kept m m' \<longleftrightarrow> (indexes_ok m \<longrightarrow> indexes_ok m')"

definition index_view :: "machine \<Rightarrow> (nat \<times> jstr \<times> nat) list \<times> jstr list" where
  "index_view m = (map row_key (db_steps (m_db m)), map fst (m_outbox m))"

lemma index_view_ok: "index_view m' = index_view m \<Longrightarrow> indexes_kept m m'"
  by (simp add: index_view_def indexes_kept_def indexes_ok_def)

lemma index_writes [simp]:
  "index_view (set_step_output i v m) = index_view m" "index_view (set_delay d m) = index_view m"
  "index_view (set_approval a m) = index_view m" "index_view (set_row k st m) = index_view m"
  "index_view (snd (read_clock e m)) = index_view m" "index_view (log_step ev p m) = index_view m"
  "index_view (mark_step_status i st m) = index_view m" "index_view (mark_done p m) = index_view m"
  "index_view (add_elapsed d' m) = index_view m" "index_view (set_run_failed m) = index_view m"
  "index_view (set_iter p j m) = index_view m" "index_view (clear_iter p m) = index_view m"
  "index_view (m\<lparr>m_net := n\<rparr>) = index_view m" "index_view (m\<lparr>m_inbox := b\<rparr>) = index_view m"
  "index_view (m\<lparr>m_st := s\<rparr>) = index_view m" "index_view (finish_record sid p row x m) = index_view m"
  "index_view (m\<lparr>m_db := add_task j p ab t (m_db m)\<rparr>) = index_view m"
  by (simp_all add: index_view_def set_step_output_def set_delay_def set_approval_def set_row_def read_clock_def log_step_def
      mark_step_status_def mark_done_def add_elapsed_def set_run_failed_def set_iter_def clear_iter_def finish_record_def
      add_task_def row_key_def Let_def comp_def if_distrib [of row_key] split: step_exec.split)

text \<open>The latest row has the highest attempt.\<close>

definition pick_row :: "nat \<Rightarrow> jstr \<Rightarrow> step_entry \<Rightarrow> step_entry option \<Rightarrow> step_entry option" where
  "pick_row i p r best =
     (if se_run r = i \<and> se_path r = p \<and> (case best of None \<Rightarrow> True | Some b \<Rightarrow> se_attempt b \<le> se_attempt r)
      then Some r else best)"

lemma pick_None: "pick_row i p r best = None \<longleftrightarrow> best = None \<and> \<not> (se_run r = i \<and> se_path r = p)"
  by (auto simp: pick_row_def split: option.splits)

lemma pick_Some:
  "pick_row i p r best = Some x \<Longrightarrow>
   (se_run r = i \<and> se_path r = p \<longrightarrow> se_attempt r \<le> se_attempt x) \<and> (\<forall>b. best = Some b \<longrightarrow> se_attempt b \<le> se_attempt x)"
  by (auto simp: pick_row_def split: option.splits if_splits)

lemma latest_fold_None:
  "fold (pick_row i p) rs best = None \<Longrightarrow> best = None \<and> (\<forall>r \<in> set rs. \<not> (se_run r = i \<and> se_path r = p))"
proof (induction rs arbitrary: best)
  case (Cons r rs)
  from Cons.IH [of "pick_row i p r best"] Cons.prems pick_None [of i p r best] show ?case by auto
qed simp

lemma latest_fold_Some:
  "fold (pick_row i p) rs best = Some x \<Longrightarrow>
   (\<forall>r \<in> set rs. se_run r = i \<and> se_path r = p \<longrightarrow> se_attempt r \<le> se_attempt x) \<and>
   (\<forall>b. best = Some b \<longrightarrow> se_attempt b \<le> se_attempt x)"
proof (induction rs arbitrary: best)
  case (Cons r rs)
  have f: "fold (pick_row i p) rs (pick_row i p r best) = Some x" using Cons.prems by simp
  show ?case
  proof (cases "pick_row i p r best")
    case None
    then show ?thesis using Cons.IH [OF f] by (auto simp: pick_None)
  next
    case (Some y)
    then show ?thesis using Cons.IH [OF f] pick_Some [OF Some] by (auto intro: order_trans)
  qed
qed simp

lemma latest_row_fold: "latest_row i p db = fold (pick_row i p) (db_steps db) None"
  by (simp add: latest_row_def pick_row_def [abs_def])

lemma latest_row_None: "latest_row i p db = None \<Longrightarrow> r \<in> set (db_steps db) \<Longrightarrow> \<not> (se_run r = i \<and> se_path r = p)"
  using latest_fold_None [of i p "db_steps db" None] by (simp add: latest_row_fold)

lemma latest_row_Some:
  "latest_row i p db = Some x \<Longrightarrow> r \<in> set (db_steps db) \<Longrightarrow> se_run r = i \<Longrightarrow> se_path r = p \<Longrightarrow> se_attempt r \<le> se_attempt x"
  using latest_fold_Some [of i p "db_steps db" None] by (simp add: latest_row_fold)

lemma add_row_kept:
  "(\<And>r. r \<in> set (db_steps (m_db m)) \<Longrightarrow> se_run r = i \<Longrightarrow> se_path r = p \<Longrightarrow> se_attempt r < att) \<Longrightarrow>
   indexes_kept m (m\<lparr>m_db := add_row i p st c att (m_db m)\<rparr>)"
  by (fastforce simp: indexes_kept_def indexes_ok_def add_row_def row_key_def)

lemma fold_max_ge: "n \<in> set ns \<Longrightarrow> n \<le> fold max ns (a :: nat)"
proof (induction ns arbitrary: a)
  case (Cons k ns)
  have "a \<le> fold max ns a" for a :: nat by (induction ns arbitrary: a) (auto intro: order_trans [OF max.cobounded2])
  with Cons show ?case by (auto intro: order_trans [OF max.cobounded1])
qed simp

lemma open_row_kept: "indexes_kept m (snd (open_row i p c m))"
proof (cases "latest_row i p (m_db m)")
  case None
  then have "indexes_kept m (m\<lparr>m_db := add_row i p ''running'' c 1 (m_db m)\<rparr>)"
    by (intro add_row_kept) (auto dest: latest_row_None)
  with None show ?thesis by (simp add: open_row_def)
next
  case (Some x)
  then have "indexes_kept m (m\<lparr>m_db := add_row i p ''running'' c (se_attempt x + 1) (m_db m)\<rparr>)"
    by (intro add_row_kept) (auto dest: latest_row_Some)
  with Some show ?thesis by (simp add: open_row_def index_view_ok)
qed

lemma outbox_kept: "indexes_kept m (enqueue_outbox_notification e p r s t m)"
  by (auto simp: indexes_kept_def indexes_ok_def enqueue_outbox_notification_def list_ex_iff)

lemma kept_refl: "indexes_kept m m" by (simp add: indexes_kept_def)

lemma kept_then: "indexes_kept a b \<Longrightarrow> indexes_kept b c \<Longrightarrow> indexes_kept a c"
  by (simp add: indexes_kept_def)

lemma approval_notified: "indexes_kept m (enqueue_approval_notification e p t m)"
  by (simp add: enqueue_approval_notification_def kept_refl outbox_kept split: option.split)

lemma simple_indexes: "indexes_kept m (snd (exec_simple e k sid rt loop p row m))"
proof -
  have out: "indexes_kept m (set_step_output sid v m1)" if "indexes_kept m m1" for v m1
    using that by (rule kept_then) (simp add: index_view_ok)
  have http: "indexes_kept m (snd (execute_http e loop sid p rt c m))" for c
    by (rule index_view_ok)
       (simp add: execute_http_def Let_def split_beta split: sum.split option.split egress_route.split http_end.split)
  have notify: "indexes_kept m (snd (execute_notify e loop sid p c m))" for c
    by (auto simp: execute_notify_def kept_refl outbox_kept index_view_ok intro!: out split: sum.split)
  have delay: "indexes_kept m (snd (execute_delay e sid p row d m))" for d
    by (rule index_view_ok) (simp add: execute_delay_def Let_def split_beta split: option.split prod.split)
  have ask: "indexes_kept m (enqueue_approval_notification e p t (set_approval a (m1\<lparr>m_db := add_task j p ab u (m_db m1)\<rparr>)))"
    if "index_view m1 = index_view m" for t a m1 j ab u
    by (rule kept_then [OF _ approval_notified]) (simp add: index_view_ok that)
  have approval: "indexes_kept m (snd (execute_approval e loop sid p row t tmo ab m))" for t tmo ab
    by (simp add: execute_approval_def Let_def split_beta index_view_ok ask del: js.simps
        split: option.split sum.split task_status.split)
  show ?thesis
    using http notify delay approval
    by (simp add: exec_simple_def execute_transform_def execute_log_def execute_reply_def Let_def kept_refl index_view_ok
        split: step_kind.split sum.split)
qed

interpretation indexed: walk_frame e indexes_kept for e :: "'dt exec_env"
proof unfold_locales
  show "indexes_kept m (skip_step e sid p m)" for sid p m
  proof -
    have "indexes_kept m (insert_step_record (x_run e) p ''skipped'' m)"
      unfolding insert_step_record_def
      by (rule add_row_kept) (auto simp: less_Suc_eq_le intro!: fold_max_ge)
    from kept_then [OF this index_view_ok] show ?thesis by (simp add: skip_step_def kept_refl)
  qed
next
  show "indexes_kept m (snd (start_record e p c m))" for p c m
    using kept_then [OF open_row_kept index_view_ok] by (simp add: start_record_def split_beta)
qed (auto intro: kept_refl kept_then simple_indexes index_view_ok)

text \<open>
  C21: no write of an execution violates a unique index: the attempts of a step's rows stay distinct,
  also when a run resumes or a closed step is repeated, and a notification is enqueued once per run
  and step path.
\<close>

theorem execution_keeps_indexes:
  assumes "indexes_ok m" "exec_steps e steps loop prfx acc m = (r, m')"
  shows "indexes_ok m'"
  using indexed.R_exec_steps [of m e steps loop prfx acc] assms by (simp add: indexes_kept_def)

theorem execution_keeps_indexes_witness:
  "indexes_ok (snd (exec_steps sample_env [log_demo, log_demo] Null [] no_acc sample_machine))"
proof (rule execution_keeps_indexes [OF _ prod.collapse [symmetric]])
  show "indexes_ok sample_machine" by (simp add: indexes_ok_def sample_machine_def)
qed

end
