(* ===== verification/ExecOutcomes.thy ===== *)
theory ExecOutcomes
  imports ExecProps
begin

text \<open>
  What the outcome of an execution says about its steps, and where it says too much: the step named
  \<open>constructor\<close>, the \<open>for_each\<close> whose children all fail, and the \<open>for_each\<close> that resumes.
\<close>

section \<open>Success\<close>

lemma failure_sticks:
  "fst acc \<Longrightarrow> exec_steps e ss loop prfx acc m = (Completed af ok err sk, m') \<Longrightarrow> af"
proof (induction ss arbitrary: acc m)
  case (Cons s ss)
  show ?case
  proof (cases "before_step e s loop prfx acc m")
    case (Stop r m1)
    then show ?thesis using Cons.prems by (auto simp: before_step_def Let_def split: sum.splits if_splits)
  next
    case (Go acc' m1)
    then have "acc' = acc" by (auto simp: before_step_def Let_def split: sum.splits if_splits)
    then show ?thesis using Cons Go by simp
  next
    case Run
    obtain r m1 where r: "exec_record e s loop (step_path prfx (step_id s)) m = (r, m1)" by fastforce
    show ?thesis
    proof (cases "after_step s prfx acc (r, m1)")
      case (Stop x m2)
      then show ?thesis using Cons.prems Run r by (auto simp: after_step_def split: step_exec.splits if_splits)
    next
      case (Go acc' m2)
      then have "fst acc'" using Cons.prems(1) by (auto simp: after_step_def split: step_exec.splits if_splits)
      then show ?thesis using Cons.IH Cons.prems(2) Run r Go by simp
    next
      case walk: Run
      then show ?thesis using Cons.prems Run r by (simp add: walk_end_def)
    qed
  qed
qed (simp add: walk_end_def)

lemma is_done_marked: "p \<noteq> proto_name \<Longrightarrow> is_done p (mark_done p m)"
  by (simp add: is_done_mark)

lemma done_stays:
  assumes "is_done p m" "exec_steps e ss loop prfx acc m = (r, m')" shows "is_done p m'"
  using done_kept.R_exec_steps [of m e ss loop prfx acc] assms by (simp add: checkpoints_kept_def)

lemma before_Go_done:
  assumes "before_step e s loop prfx acc m = Go acc' m1" "step_path prfx (step_id s) \<noteq> proto_name"
  shows "acc' = acc \<and> is_done (step_path prfx (step_id s)) m1"
  using assms
  by (auto simp: before_step_def Let_def skip_step_def is_done_marked split: sum.splits if_splits)

lemma after_Go_done:
  assumes "after_step s prfx acc (r, m) = Go acc' m1" "step_path prfx (step_id s) \<noteq> proto_name" "\<not> fst acc'"
  shows "is_done (step_path prfx (step_id s)) m1"
  using assms by (auto simp: after_step_def is_done_marked split: step_exec.splits if_splits)

lemma success_done:
  assumes "exec_steps e ss loop prfx acc m = (Completed False ok err sk, m')"
    and "s \<in> set ss" "step_path prfx (step_id s) \<noteq> proto_name"
  shows "is_done (step_path prfx (step_id s)) m'"
  using assms
proof (induction ss arbitrary: acc m)
  case (Cons t ss)
  let ?p = "step_path prfx (step_id t)"
  have rest: "is_done (step_path prfx (step_id s)) m'"
    if run: "exec_steps e ss loop prfx acc' m1 = (Completed False ok err sk, m')"
      and d: "t = s \<Longrightarrow> is_done ?p m1" for acc' m1
  proof (cases "s \<in> set ss")
    case True
    then show ?thesis using Cons.IH [OF run] Cons.prems(3) by simp
  next
    case False
    then have "t = s" using Cons.prems(2) by simp
    then show ?thesis using done_stays [OF d run] by simp
  qed
  show ?case
  proof (cases "before_step e t loop prfx acc m")
    case (Stop r m1)
    then show ?thesis using Cons.prems(1) by (auto simp: before_step_def Let_def split: sum.splits if_splits)
  next
    case (Go acc' m1)
    then have run: "exec_steps e ss loop prfx acc' m1 = (Completed False ok err sk, m')" using Cons.prems(1) by simp
    show ?thesis using rest [OF run] before_Go_done [OF Go] Cons.prems(3) by blast
  next
    case Run
    obtain r m1 where r: "exec_record e t loop ?p m = (r, m1)" by fastforce
    show ?thesis
    proof (cases "after_step t prfx acc (r, m1)")
      case (Stop x m2)
      then show ?thesis using Cons.prems(1) Run r by (auto simp: after_step_def split: step_exec.splits if_splits)
    next
      case (Go acc' m2)
      then have run: "exec_steps e ss loop prfx acc' m2 = (Completed False ok err sk, m')" using Cons.prems(1) Run r by simp
      then have "\<not> fst acc'" using failure_sticks [of acc'] by blast
      then show ?thesis using rest [OF run] after_Go_done [OF Go] Cons.prems(3) by blast
    next
      case walk: Run
      then show ?thesis by (auto simp: after_step_def split: step_exec.splits if_splits)
    qed
  qed
qed simp

text \<open>
  C26: when a list of steps completes without a failure, every step of it is recorded as done:
  nothing was left out, except that a failure swallowed by \<open>on_error: continue\<close> shows in the
  result.
\<close>

theorem success_means_all_done:
  assumes "exec_steps e ss loop prfx acc m = (Completed False ok err sk, m')"
    and "s \<in> set ss" "step_path prfx (step_id s) \<noteq> proto_name"
  shows "is_done (step_path prfx (step_id s)) m'"
  by (rule success_done [OF assms])

theorem success_means_all_done_witness:
  "is_done (js ''a'') (snd (exec_steps sample_env [log_demo] Null [] no_acc sample_machine))"
proof -
  have nd: "\<not> is_done (js ''a'') sample_machine"
    by (simp add: is_done_def sample_machine_def get_member_def inherited_def inherited_names_def proto_name_def js_true_def)
  have "fst (exec_steps sample_env [log_demo] Null [] no_acc sample_machine) = Completed False True None False"
    using nd by (simp add: before_step_def step_path_def step_guard_def some_text_def nonempty_def log_demo_def no_acc_def
        walk_end_def after_step_def start_record_def split_beta read_clock_def exec_simple_def execute_log_def interpolate_def
        coded_def resolve_interpolation.simps starts_with_def braces_open_def completed_def sample_env_def sample_machine_def)
  then have "exec_steps sample_env [log_demo] Null [] no_acc sample_machine
      = (Completed False True None False, snd (exec_steps sample_env [log_demo] Null [] no_acc sample_machine))"
    by (metis prod.collapse)
  from success_means_all_done [OF this, of log_demo] show ?thesis by (simp add: log_demo_def step_path_def proto_name_def)
qed

section \<open>The step named constructor\<close>

text \<open>
  A step whose id is \<open>constructor\<close>, and that has no \<open>if\<close>, is never executed at the top level:
  \<open>_done\<close> is a plain object, so the path finds the constructor of objects there, and the step counts
  as completed.
\<close>

theorem constructor_step_never_runs:
  assumes "step_id s = js ''constructor''" "step_if s = None" "map_of (st_done (m_st m)) (js ''constructor'') = None"
    and "st_elapsed (m_st m) \<le> x_timeout_ms e"
  shows "exec_steps e (s # ss) loop [] acc m = exec_steps e ss loop [] acc m"
proof -
  have "is_done (js ''constructor'') m"
    using assms(3) by (simp add: is_done_def get_member_def inherited_def js_true_def proto_name_def inherited_names_def)
  then show ?thesis
    using assms by (simp add: before_step_def step_path_def step_guard_def some_text_def nonempty_def del: js.simps)
qed

theorem constructor_step_never_runs_witness:
  "exec_steps sample_env [Step (js ''constructor'') None False None (LogStep (js ''x''))] Null [] no_acc sample_machine
    = (Completed False False None False, sample_machine)"
  using constructor_step_never_runs [of "Step (js ''constructor'') None False None (LogStep (js ''x''))" sample_machine sample_env "[]" Null no_acc]
  by (simp add: sample_machine_def sample_env_def walk_end_def no_acc_def)

section \<open>A for_each whose children all fail\<close>

text \<open>A child that always fails: a delay whose duration does not parse.\<close>

definition failing_child :: "jstr \<Rightarrow> retry option \<Rightarrow> jstr \<Rightarrow> step" where
  "failing_child c rt d = Step c None True rt (DelayStep d)"

definition same_done :: "machine \<Rightarrow> machine \<Rightarrow> bool" where
  "same_done m m' \<longleftrightarrow> st_done (m_st m') = st_done (m_st m) \<and> st_failed (m_st m') = st_failed (m_st m)"

lemma failing_record:
  assumes "d \<noteq> []" "parse_duration_ms d = None"
  obtains m' where "exec_record e (failing_child c rt d) loop p m = (FailedStep (js ''type_mismatch''), m')" "same_done m m'"
  using that assms
  by (simp add: failing_child_def exec_simple_def execute_delay_def start_record_def split_beta read_clock_def Let_def
      finish_record_def same_done_def add_elapsed_def log_step_def mark_step_status_def set_row_def open_row_def
      del: js.simps split: option.split)

lemma failing_body:
  assumes "d \<noteq> []" "parse_duration_ms d = None" "prfx \<noteq> []" "\<not> is_done (prfx @ js ''.'' @ c) m"
  obtains m' where "exec_steps e [failing_child c rt d] loop prfx no_acc m
      = (Completed True False (Some (js ''type_mismatch'')) False, m')" "same_done m m'"
proof -
  obtain m' where r: "exec_record e (failing_child c rt d) loop (prfx @ js ''.'' @ c) m = (FailedStep (js ''type_mismatch''), m')"
    and s: "same_done m m'" by (rule failing_record [OF assms(1,2)])
  have b: "before_step e (failing_child c rt d) loop prfx no_acc m = Run"
    using assms by (simp add: before_step_def step_path_def step_guard_def some_text_def nonempty_def failing_child_def del: js.simps)
  have "step_path prfx (step_id (failing_child c rt d)) = prfx @ js ''.'' @ c"
    using assms(3) by (simp add: step_path_def failing_child_def del: js.simps)
  moreover have "step_continue (failing_child c rt d)" by (simp add: failing_child_def)
  ultimately have "exec_steps e [failing_child c rt d] loop prfx no_acc m
      = (Completed True False (Some (js ''type_mismatch'')) False, m')"
    using assms(3) by (simp add: b [unfolded no_acc_def] r after_step_def no_acc_def walk_end_def del: js.simps)
  then show ?thesis using s that by blast
qed

lemma index_path_ne [simp]: "index_path p i \<noteq> []"
  by (simp add: index_path_def)

lemma done_kept_same: "same_done m m' \<Longrightarrow> is_done p m' = is_done p m"
  by (simp add: same_done_def is_done_def)

lemma same_done_iter [simp]: "same_done m (set_iter p i m)" "same_done m (clear_iter p m)" "same_done m (set_step_output sid v m)"
  by (simp_all add: same_done_def set_iter_def clear_iter_def set_step_output_def)

lemma same_done_trans: "same_done a b \<Longrightarrow> same_done b c \<Longrightarrow> same_done a c"
  by (simp add: same_done_def)

lemma failing_loop:
  assumes d: "d \<noteq> []" "parse_duration_ms d = None"
    and "\<And>k. \<not> is_done (index_path p k @ js ''.'' @ c) m" "\<not> fe_executed a"
  shows "\<exists>a' m'. foreach_loop (\<lambda>x i m1. exec_steps e [failing_child c rt d] (loop_ctx x i loop) (index_path p i) no_acc m1)
           out [failing_child c rt d] sid p xs i a m = (Inr a', m') \<and> \<not> fe_executed a' \<and> same_done m m'"
  using assms(3,4)
proof (induction xs arbitrary: i a m)
  case Nil
  then show ?case by (simp add: same_done_def)
next
  case (Cons x xs)
  let ?m0 = "set_iter p i m"
  have nd: "\<not> is_done (index_path p k @ js ''.'' @ c) ?m0" for k
    using Cons.prems(1) done_kept_same [OF same_done_iter(1)] by blast
  obtain m1 where r: "exec_steps e [failing_child c rt d] (loop_ctx x i loop) (index_path p i) no_acc ?m0
      = (Completed True False (Some (js ''type_mismatch'')) False, m1)" and s1: "same_done ?m0 m1"
    by (rule failing_body [OF d index_path_ne nd])
  let ?a = "iteration_verdict m1 (index_path p i) [failing_child c rt d] True (Some (js ''type_mismatch'')) a"
  have s2: "same_done m (clear_iter p m1)"
    using same_done_trans [OF same_done_trans [OF same_done_iter(1) s1] same_done_iter(2)] .
  have "\<not> is_done (index_path p i @ js ''.'' @ c) m1" using nd done_kept_same [OF s1] by blast
  then have x: "\<not> fe_executed ?a"
    using Cons.prems(2) by (simp add: iteration_verdict_def child_verdict_def failing_child_def Let_def del: js.simps)
  have "\<not> is_done (index_path p k @ js ''.'' @ c) (clear_iter p m1)" for k
    using Cons.prems(1) done_kept_same [OF s2] by blast
  from Cons.IH [OF this x, of "i + 1"] obtain a' m' where
    "foreach_loop (\<lambda>x i m1. exec_steps e [failing_child c rt d] (loop_ctx x i loop) (index_path p i) no_acc m1)
       out [failing_child c rt d] sid p xs (i + 1) ?a (clear_iter p m1) = (Inr a', m')" "\<not> fe_executed a'"
    "same_done (clear_iter p m1) m'" by blast
  then show ?case using same_done_trans [OF s2] by (auto simp: r simp del: js.simps exec_steps.simps)
qed

lemma failing_foreach:
  assumes d: "d \<noteq> []" "parse_duration_ms d = None" and nd: "\<And>k. \<not> is_done (index_path p k @ js ''.'' @ c) m"
    and items: "foreach_items e loop m over = Inr (Some items)"
  obtains m' where "exec_kind e (ForEachStep over limit [failing_child c rt d]) sid rt' loop p row m = (completed, m')" "same_done m m'"
proof -
  let ?out = "foreach_output (length items - foreach_limit limit)"
  have ne: "\<not> fe_executed no_results" by (simp add: no_results_def)
  obtain a' m' where l: "foreach_loop (\<lambda>x i m1. exec_steps e [failing_child c rt d] (loop_ctx x i loop) (index_path p i) no_acc m1)
        ?out [failing_child c rt d] sid p (drop (resume_index p m) (take (foreach_limit limit) items)) (resume_index p m) no_results m
        = (Inr a', m')" and a: "\<not> fe_executed a'" and s: "same_done m m'"
    using failing_loop [OF d nd ne] by blast
  have "exec_kind e (ForEachStep over limit [failing_child c rt d]) sid rt' loop p row m
      = (completed, set_step_output sid (?out (fe_results a')) m')"
    by (simp add: items Let_def l foreach_end_def a del: exec_steps.simps)
  then show ?thesis using that same_done_trans [OF s same_done_iter(3)] by blast
qed

lemma failing_children_pass:
  assumes bg: "executor_begin (x_run e) t0 (m_db m) = Some db"
    and d: "d \<noteq> []" "parse_duration_ms d = None"
    and nd: "\<And>k. \<not> is_done (index_path sid k @ js ''.'' @ c) m" "\<not> is_done sid m"
    and items: "foreach_items e Null m over = Inr (Some items)"
    and ok: "\<not> st_failed (m_st m)" "st_elapsed (m_st m) \<le> x_timeout_ms e"
  shows "map_option fst (do_execute_run e [Step sid None cont rt' (ForEachStep over limit [failing_child c rt d])] t0 t1 m)
    = Some EndSucceeded"
proof -
  let ?s = "Step sid None cont rt' (ForEachStep over limit [failing_child c rt d])"
  let ?m = "m\<lparr>m_db := db\<rparr>"
  have b: "before_step e ?s Null [] (False, False, None) ?m = Run"
    using nd(2) ok(2) by (simp add: before_step_def step_path_def step_guard_def some_text_def nonempty_def del: js.simps)
  obtain row m1 where m1: "start_record e sid cont ?m = (row, m1)" by fastforce
  obtain u0 m2 where m2: "read_clock e m1 = (u0, m2)" by fastforce
  have st: "m_st m2 = m_st m"
    using m1 m2 by (auto simp: start_record_def open_row_def read_clock_def log_step_def set_row_def split: option.splits if_splits)
  have nd2: "\<not> is_done (index_path sid k @ js ''.'' @ c) m2" for k using nd(1) st by (simp add: is_done_def)
  have items2: "foreach_items e Null m2 over = Inr (Some items)"
    using items st by (simp add: foreach_items_def eval_in_def)
  obtain m3 where m3: "exec_kind e (ForEachStep over limit [failing_child c rt d]) sid rt' Null sid row m2 = (completed, m3)"
    and s: "same_done m2 m3" by (rule failing_foreach [OF d nd2 items2])
  obtain u1 m4 where m4: "read_clock e m3 = (u1, m4)" by fastforce
  have f: "\<not> st_failed (m_st m4)" using s m4 st ok(1) by (auto simp: same_done_def read_clock_def)
  have r: "exec_record e ?s Null sid ?m = (completed, finish_record sid sid row completed (add_elapsed (u1 - u0) m4))"
    using m1 m2 m3 m4 by (simp del: exec_kind.simps)
  have "\<not> st_failed (m_st (mark_done sid (finish_record sid sid row completed (add_elapsed (u1 - u0) m4))))"
    using f by (simp add: mark_done_def finish_record_def completed_def add_elapsed_def log_step_def
        mark_step_status_def set_row_def Let_def del: js.simps)
  then show ?thesis
    using bg by (simp add: do_execute_run_def no_acc_def b r step_path_def after_step_def completed_def walk_end_def
        run_result_of_def del: exec_record.simps)
qed


lemma parse_fuel: "parse_or_n 51 st = parse_or (parse_primary (parse_or_n 50)) st"
  by (simp add: eval_nat_numeral)

lemma bindR_weak: "a = b \<Longrightarrow> bindR a f = bindR b f"
  by simp

lemma parse_path:
  "parse [tok TIdentifier a, tok TDot d, tok TIdentifier b] =
    (if b \<in> set FORBIDDEN_PROPS then Inl ForbiddenProperty else Inr (Property [Key (JStr a), Key (JStr b)]))"
  by (simp add: parse_eval parse_fuel cong: bindR_weak if_weak_cong del: parse_or_n.simps)

lemma parse_inputs_xs: "parse_expression (js ''inputs.xs'') = Inr (Property [Key (JStr (js ''inputs'')), Key (JStr (js ''xs''))])"
proof -
  have t: "tokenize (js ''inputs.xs'') = Inr [tok TIdentifier (js ''inputs''), tok TDot (js ''.''), tok TIdentifier (js ''xs'')]"
    by (simp add: tokenize_eval)
  show ?thesis
    unfolding parse_expression_def t
    by (simp add: MAX_EXPRESSION_LENGTH_def parse_path FORBIDDEN_PROPS_def)
qed

lemma sample_items: "foreach_items sample_env Null m (js ''inputs.xs'') = Inr (Some [Null, Null])"
  unfolding foreach_items_def coded_def eval_in_def evaluate_expression_def parse_inputs_xs
  by (simp add: build_eval_context_def sample_env_def evaluate_unfold eval_step_def eval_node_def tick_def MAX_OPERATIONS_def
        resolve_property_def root_value_def nullish_def get_property_def coerce_str_def get_member_def FORBIDDEN_PROPS_def cong: bindR_weak)

lemma not_done_path:
  assumes "st_done (m_st m) = []" shows "\<not> is_done (js ''a'') m" "\<not> is_done (index_path (js ''a'') k @ r) m"
  using assms by (simp_all add: is_done_def index_path_def get_member_def inherited_def inherited_names_def proto_name_def js_true_def)


section \<open>A for_each that resumes\<close>

lemma foreach_loop_length:
  "foreach_loop body out children sid p xs i a m = (Inr a', m') \<Longrightarrow>
   length (fe_results a') = length (fe_results a) + length xs"
proof (induction xs arbitrary: i a m)
  case (Cons x xs)
  then show ?case
    by (auto simp: iteration_verdict_def Let_def split: prod.splits step_exec.splits)
qed simp

lemma foreach_loop_Inl:
  "foreach_loop body out children sid p xs i a m = (Inl r, m') \<Longrightarrow> \<not> (\<exists>af ok err sk. r = Completed af ok err sk)"
proof (induction xs arbitrary: i a m)
  case (Cons x xs)
  then show ?case by (auto split: prod.splits step_exec.splits)
qed simp

text \<open>
  The output of a \<open>for_each\<close> that completes has one result for every iteration from the one
  it resumed at, and none for those before it: what a \<open>for_each\<close> that was parked in iteration
  \<open>k\<close> had collected in the first \<open>k\<close> iterations is lost.
\<close>

theorem foreach_results_lost:
  assumes "foreach_items e loop m over = Inr (Some items)" "sid \<noteq> proto_name"
    and "exec_kind e (ForEachStep over limit children) sid rt loop p row m = (Completed af ok err sk, m')"
  shows "\<exists>results. get_member (st_outputs (m_st m')) sid = foreach_output (length items - foreach_limit limit) results \<and>
    length results = min (foreach_limit limit) (length items) - resume_index p m"
proof -
  let ?n = "foreach_limit limit"
  let ?l = "foreach_loop (\<lambda>x i m1. exec_steps e children (loop_ctx x i loop) (index_path p i) no_acc m1)
    (foreach_output (length items - ?n)) children sid p (drop (resume_index p m) (take ?n items)) (resume_index p m) no_results m"
  have fin: "foreach_end sid (length items - ?n) ?l = (Completed af ok err sk, m')"
    using assms(1,3) by (simp add: Let_def)
  obtain x m1 where l: "?l = (x, m1)" by fastforce
  show ?thesis
  proof (cases x)
    case (Inl r)
    from l [unfolded Inl] have "\<not> (\<exists>af ok err sk. r = Completed af ok err sk)"
      by (rule foreach_loop_Inl)
    then show ?thesis using fin l Inl by (simp add: foreach_end_def)
  next
    case (Inr a)
    then have "m' = set_step_output sid (foreach_output (length items - ?n) (fe_results a)) m1"
      using fin l by (simp add: foreach_end_def)
    then have "get_member (st_outputs (m_st m')) sid = foreach_output (length items - ?n) (fe_results a)"
      using assms(2) by (simp add: set_step_output_def get_member_put)
    moreover have "length (fe_results a) = min ?n (length items) - resume_index p m"
      using foreach_loop_length [OF l [unfolded Inr]] by (simp add: no_results_def min.commute)
    ultimately show ?thesis by blast
  qed
qed

theorem foreach_results_lost_witness:
  "\<exists>results. length results = (1 :: nat) \<and>
     get_member (st_outputs (m_st (snd (exec_kind sample_env (ForEachStep (js ''inputs.xs'') None []) (js ''a'') None Null (js ''a'') 0
       (set_iter (js ''a'') 1 sample_machine))))) (js ''a'') = foreach_output 0 results"
proof -
  let ?m = "set_iter (js ''a'') 1 sample_machine"
  let ?r = "exec_kind sample_env (ForEachStep (js ''inputs.xs'') None []) (js ''a'') None Null (js ''a'') 0 ?m"
  have i: "resume_index (js ''a'') ?m = 1"
    by (simp add: resume_index_def set_iter_def sample_machine_def put_def get_member_def proto_name_def)
  have "fst ?r = Completed False False None False"
    by (simp add: sample_items Let_def i [unfolded One_nat_def] foreach_limit_def walk_end_def no_acc_def foreach_end_def
        completed_def iteration_verdict_def no_results_def del: js.simps)
  then have r: "?r = (Completed False False None False, snd ?r)" by (metis prod.collapse)
  have "js ''a'' \<noteq> proto_name" by (simp add: proto_name_def)
  from foreach_results_lost [OF sample_items this r] show ?thesis
    by (auto simp: i [unfolded One_nat_def] foreach_limit_def simp del: js.simps exec_kind.simps)
qed

section \<open>Delays\<close>

text \<open>
  A delay is never cut short: between the reading of the clock at which it parked and the
  reading at which it completes lies at least the duration.
\<close>

theorem delay_not_early:
  assumes "execute_delay e i p row dur m = (ParkWaiting, m1)" "\<forall>t. st_delay (m_st m) \<noteq> Some (p, t)"
    and "st_delay (m_st m2) = st_delay (m_st m1)"
    and "execute_delay e i p row' dur m2 = (Completed af ok err sk, m3)"
  shows "\<exists>ms t. parse_duration_ms (if dur = [] then js ''30s'' else dur) = Some ms \<and>
    to_instant (js_add (Num (of_int (x_clock e (m_reads m)))) ms) = Some t \<and> t \<le> x_clock e (m_reads m2)"
proof -
  let ?d = "if dur = [] then js ''30s'' else dur"
  obtain ms where ms: "parse_duration_ms ?d = Some ms"
    using assms(1) by (cases "parse_duration_ms ?d") (simp_all add: execute_delay_def del: js.simps)
  obtain t where t: "to_instant (js_add (Num (of_int (x_clock e (m_reads m)))) ms) = Some t" "st_delay (m_st m1) = Some (p, t)"
    using assms(1,2)
    by (auto simp: execute_delay_def ms read_clock_def Let_def set_delay_def simp del: js.simps
        split: option.splits prod.splits if_splits)
  have "t \<le> x_clock e (m_reads m2)"
    using assms(4) t(2) assms(3)
    by (auto simp: execute_delay_def ms read_clock_def Let_def set_delay_def simp del: js.simps
        split: option.splits prod.splits if_splits)
  with ms t(1) show ?thesis by blast
qed

theorem delay_not_early_witness:
  "\<exists>ms t. parse_duration_ms (js ''30s'') = Some ms \<and> to_instant (js_add (Num 0) ms) = Some t \<and> t \<le> 60000"
proof -
  let ?m1 = "snd (execute_delay sample_env (js ''a'') (js ''a'') 0 [] sample_machine)"
  have "nat_str 30 = [51, 48]" by code_simp
  then have p: "parse_duration_ms (js ''30s'') = Some (Num 30000)"
    using parse_duration_nat [of 115 30] by (simp add: unit_ms_def)
  have t: "round_double 30000 = Num 30000" "to_instant (Num 30000) = Some 30000"
    using round_double_int [of 30000] by (simp_all add: to_instant_def trunc_rat_def)
  have 1: "execute_delay sample_env (js ''a'') (js ''a'') 0 [] sample_machine = (ParkWaiting, ?m1)"
    by (rule prod_eqI)
       (simp_all add: execute_delay_def p t sample_machine_def read_clock_def sample_env_def set_delay_def del: js.simps)
  have m1: "st_delay (m_st ?m1) = Some (js ''a'', 30000)" "m_reads ?m1 = 1"
    by (simp_all add: execute_delay_def p t sample_machine_def read_clock_def sample_env_def set_delay_def del: js.simps)
  have 2: "execute_delay sample_env (js ''a'') (js ''a'') 0 [] ?m1
      = (Completed False False None False, snd (execute_delay sample_env (js ''a'') (js ''a'') 0 [] ?m1))"
    by (rule prod_eqI)
       (simp_all add: execute_delay_def [of _ _ _ _ _ ?m1] p m1 read_clock_def completed_def del: js.simps, simp add: sample_env_def)
  from delay_not_early [OF 1 _ refl 2] show ?thesis
    using m1(2) by (simp add: sample_machine_def sample_env_def del: js.simps)
qed

end
