(* ===== verification/ExecRefines.thy ===== *)
theory ExecRefines
  imports ExecProps
begin

text \<open>
  The walk over the steps refines the two writes that the properties of a run's life are about
  (theories \<open>Scheduler\<close> and \<open>RunProps\<close>): seen without the rows of the steps, the tasks and the daily
  counters, an execution is its first write followed by its last.
\<close>

section \<open>The abstraction\<close>

definition life_view :: "store \<Rightarrow> store" where
  "life_view db = db\<lparr>db_steps := [], db_tasks := [], db_daily := []\<rparr>"

definition run_view :: "machine \<Rightarrow> store" where
  "run_view m = life_view (m_db m)"

definition same_life :: "machine \<Rightarrow> machine \<Rightarrow> bool" where
  "same_life m m' \<longleftrightarrow> run_view m' = run_view m"

lemma run_writes [simp]:
  "run_view (set_step_output i v m) = run_view m" "run_view (set_delay d m) = run_view m"
  "run_view (set_approval a m) = run_view m" "run_view (set_row k st m) = run_view m"
  "run_view (snd (read_clock e m)) = run_view m" "run_view (log_step ev p m) = run_view m"
  "run_view (mark_step_status i st m) = run_view m" "run_view (mark_done p m) = run_view m"
  "run_view (add_elapsed d' m) = run_view m" "run_view (set_run_failed m) = run_view m"
  "run_view (set_iter p j m) = run_view m" "run_view (clear_iter p m) = run_view m"
  "run_view (insert_step_record r p st m) = run_view m" "run_view (m\<lparr>m_net := n\<rparr>) = run_view m"
  "run_view (m\<lparr>m_inbox := b\<rparr>) = run_view m" "run_view (m\<lparr>m_st := s\<rparr>) = run_view m"
  "run_view (enqueue_outbox_notification e p rc sb bd m) = run_view m"
  "run_view (m\<lparr>m_db := add_task j p ab t (m_db m)\<rparr>) = run_view m"
  by (simp_all add: run_view_def life_view_def set_step_output_def set_delay_def set_approval_def set_row_def
      read_clock_def log_step_def mark_step_status_def mark_done_def add_elapsed_def set_run_failed_def set_iter_def
      clear_iter_def insert_step_record_def add_row_def add_task_def enqueue_outbox_notification_def)

lemma run_notified [simp]: "run_view (enqueue_approval_notification e p t m) = run_view m"
  by (simp add: enqueue_approval_notification_def split: option.split)

lemma run_http: "run_view (snd (execute_http e loop i p rt c m)) = run_view m"
  by (simp add: execute_http_def Let_def split_beta split: sum.split option.split egress_route.split http_end.split)

lemma run_delay: "run_view (snd (execute_delay e i p row d m)) = run_view m"
  by (simp add: execute_delay_def Let_def split_beta split: option.split prod.split)

lemma run_approval: "run_view (snd (execute_approval e loop i p row t tmo ab m)) = run_view m"
  by (simp add: execute_approval_def Let_def split_beta del: js.simps split: option.split sum.split task_status.split)

lemma run_simple: "run_view (snd (exec_simple e k sid rt loop p row m)) = run_view m"
  by (simp add: exec_simple_def run_http run_delay run_approval execute_notify_def execute_transform_def
      execute_log_def execute_reply_def Let_def split: step_kind.split sum.split)

interpretation life_kept: walk_frame e same_life for e :: "'dt exec_env"
proof unfold_locales
  show "same_life m (snd (start_record e p cont m))" for p cont m
    by (simp add: same_life_def start_record_def open_row_def split_beta split: option.split)
       (simp add: run_view_def life_view_def add_row_def)
qed (simp_all add: same_life_def run_simple finish_record_def skip_step_def Let_def split: step_exec.split)

section \<open>The writes of an execution on the abstraction\<close>

lemma view_eq:
  "life_view a = life_view b \<longleftrightarrow> db_runs a = db_runs b \<and> db_events a = db_events b \<and> db_usage a = db_usage b \<and>
    db_subs a = db_subs b \<and> db_locks a = db_locks b \<and> db_wflocks a = db_wflocks b \<and> db_leases a = db_leases b \<and>
    db_queue a = db_queue b \<and> db_plans a = db_plans b \<and> db_wfs a = db_wfs b \<and> db_trigs a = db_trigs b \<and>
    db_replay a = db_replay b \<and> db_next a = db_next b"
  by (cases a, cases b) (auto simp: life_view_def)

lemma view_find: "life_view a = life_view b \<Longrightarrow> find_run i a = find_run i b"
  by (simp add: view_eq find_run_def)

lemma view_view [simp]: "life_view (life_view db) = life_view db"
  by (simp add: life_view_def)

lemma view_begin:
  assumes "life_view a = life_view b" "executor_begin i t b = Some b1"
  shows "\<exists>a1. executor_begin i t a = Some a1 \<and> life_view a1 = life_view b1"
  using assms view_find [OF assms(1), of i]
  by (auto simp: executor_begin_def add_event_def update_run_def update_runs_def view_eq split: option.splits if_splits)

lemma view_bill:
  assumes "life_view a = life_view b"
  shows "life_view (record_billing ws i ev t a) = life_view (record_billing ws i ev t b)"
  using assms view_find [OF assms, of i]
  by (simp add: record_billing_def add_daily_def Let_def view_eq split: option.split)

lemma view_end:
  assumes v: "life_view a = life_view b"
  shows "life_view (executor_end i res t a) = life_view (executor_end i res t b)"
proof -
  have u: "life_view (add_event i ev (update_run i f a)) = life_view (add_event i ev (update_run i f b))" for ev f
    using v by (simp add: view_eq add_event_def update_run_def update_runs_def)
  show ?thesis
    using view_find [OF v, of i] u view_bill [OF u]
    by (simp add: executor_end_def Let_def split: run_result.split)
qed



end
