(* ===== verification/Lifecycle.thy ===== *)
theory Lifecycle
  imports Scheduler
begin

text \<open>
  What every operation on runs keeps, whoever calls it.  \<open>store_ok\<close> is the invariant of the
  tables, \<open>legal\<close> the contract of one transition: the invariant is kept, no run disappears, a
  terminal run keeps its status, and no workspace is taken past its concurrency limit.  Every
  operation is shown legal through three rules, for updates, inserts and promotions; the
  properties follow for any sequence of operations.
\<close>

section \<open>The contract\<close>

definition run_terminal :: "run \<Rightarrow> bool" where
  "run_terminal r \<longleftrightarrow> is_terminal_status (run_status r)"

definition store_ok :: "store \<Rightarrow> bool" where
  "store_ok db \<longleftrightarrow>
     distinct (map run_id (db_runs db)) \<and> (\<forall>r \<in> set (db_runs db). run_id r < db_next db) \<and>
     distinct (map (\<lambda>r. (run_ws r, run_key r)) (db_runs db)) \<and>
     distinct (map (\<lambda>u. fst (snd u)) (db_usage db)) \<and>
     (\<forall>u \<in> set (db_usage db). \<exists>r \<in> set (db_runs db). run_id r = fst (snd u) \<and> run_terminal r)"

text \<open>How a run may evolve.\<close>

definition evolves :: "run \<Rightarrow> run \<Rightarrow> bool" where
  "evolves r r' \<longleftrightarrow> run_id r' = run_id r \<and> run_ws r' = run_ws r \<and> run_key r' = run_key r \<and>
     (run_terminal r \<longrightarrow> run_status r' = run_status r)"

definition limit_of :: "nat \<Rightarrow> store \<Rightarrow> nat option" where
  "limit_of ws db = (case plan_of_ws ws db of None \<Rightarrow> None | Some p \<Rightarrow> concurrency_limit p)"

definition legal :: "store \<Rightarrow> store \<Rightarrow> bool" where
  "legal db db' \<longleftrightarrow> (store_ok db \<longrightarrow> store_ok db' \<and> db_plans db' = db_plans db \<and>
     (\<forall>r \<in> set (db_runs db). \<exists>r' \<in> set (db_runs db'). evolves r r') \<and>
     (\<forall>ws l. limit_of ws db = Some l \<longrightarrow> active_count ws db \<le> l \<longrightarrow> active_count ws db' \<le> l))"

lemma evolves_refl [simp]: "evolves r r" by (simp add: evolves_def)

lemma evolves_trans: "evolves r s \<Longrightarrow> evolves s t \<Longrightarrow> evolves r t"
  by (auto simp: evolves_def run_terminal_def)

lemma limit_of_plans: "db_plans db' = db_plans db \<Longrightarrow> limit_of ws db' = limit_of ws db"
  by (simp add: limit_of_def plan_of_ws_def)

lemma legal_refl [simp]: "legal db db" by (auto simp: legal_def intro: evolves_refl)

lemma legal_trans: "legal a b \<Longrightarrow> legal b c \<Longrightarrow> legal a c"
  unfolding legal_def using evolves_trans limit_of_plans by (metis (no_types, lifting))

lemma legal_fold: "(\<And>x db. store_ok db \<Longrightarrow> legal db (f x db)) \<Longrightarrow> legal db (fold f xs db)"
proof (induction xs arbitrary: db)
  case (Cons x xs)
  have "legal db (f x db)" using Cons.prems by (auto simp: legal_def)
  with Cons show ?case by (auto intro: legal_trans)
qed simp

text \<open>The invariant may be assumed where legality is shown.\<close>

lemma legalI: "(store_ok db \<Longrightarrow> legal db db') \<Longrightarrow> legal db db'"
  by (auto simp: legal_def)

lemma legal_bind: "legal a b \<Longrightarrow> (store_ok b \<Longrightarrow> legal b c) \<Longrightarrow> legal a c"
  by (metis legalI legal_trans)

section \<open>Finding runs\<close>

lemma find_run_Some: "find_run i db = Some r \<Longrightarrow> r \<in> set (db_runs db) \<and> run_id r = i"
  by (auto simp: find_run_def find_Some_iff)

lemma find_distinct:
  "distinct (map g xs) \<Longrightarrow> List.find (\<lambda>x. g x = k) xs = Some x \<longleftrightarrow> x \<in> set xs \<and> g x = k"
  by (induction xs) force+

lemma find_run_unique:
  "store_ok db \<Longrightarrow> find_run i db = Some r \<longleftrightarrow> r \<in> set (db_runs db) \<and> run_id r = i"
  by (simp add: find_run_def store_ok_def find_distinct)

section \<open>The rules\<close>

text \<open>Legality reads four tables only.\<close>

definition core :: "store \<Rightarrow> run list \<times> nat \<times> (nat \<times> string) list \<times> (nat \<times> nat \<times> string) list" where
  "core db = (db_runs db, db_next db, db_plans db, db_usage db)"

lemma core_legal: "core db' = core db1 \<Longrightarrow> legal db db1 \<Longrightarrow> legal db db'"
  by (simp add: legal_def store_ok_def core_def limit_of_def plan_of_ws_def active_count_def)

lemma core_same: "core db' = core db \<Longrightarrow> legal db db'"
  by (erule core_legal) simp

lemma core_add_event [simp]: "core (add_event i ev db) = core db"
  by (simp add: core_def add_event_def)

lemma core_find_run: "core db' = core db \<Longrightarrow> find_run i db' = find_run i db"
  by (simp add: core_def find_run_def)

lemma legal_add_event: "legal db db1 \<Longrightarrow> legal db (add_event i ev db1)"
  by (rule core_legal [rotated]) simp_all

definition keeps_ids :: "(run \<Rightarrow> run) \<Rightarrow> bool" where
  "keeps_ids f \<longleftrightarrow> (\<forall>r. run_id (f r) = run_id r \<and> run_ws (f r) = run_ws r \<and> run_key (f r) = run_key r)"

lemma filter_map_le:
  "(\<And>x. x \<in> set xs \<Longrightarrow> P (g x) \<Longrightarrow> P x) \<Longrightarrow> length (filter P (map g xs)) \<le> length (filter P xs)"
  by (induction xs) (auto simp: le_SucI)

lemma update_keeps:
  assumes ok: "store_ok db" and ids: "keeps_ids f"
    and fin: "\<And>r. r \<in> set (db_runs db) \<Longrightarrow> p r \<Longrightarrow> run_terminal r \<Longrightarrow> run_status (f r) = run_status r"
  shows "store_ok (update_runs p f db) \<and>
    (\<forall>r \<in> set (db_runs db). \<exists>r' \<in> set (db_runs (update_runs p f db)). evolves r r')"
proof
  let ?g = "\<lambda>r. if p r then f r else r"
  have ev: "evolves r (?g r)" if "r \<in> set (db_runs db)" for r
    using ids fin that by (auto simp: evolves_def keeps_ids_def)
  have same: "run_id \<circ> ?g = run_id" "(\<lambda>r. (run_ws r, run_key r)) \<circ> ?g = (\<lambda>r. (run_ws r, run_key r))"
    using ids by (auto simp: keeps_ids_def)
  show "store_ok (update_runs p f db)"
    unfolding store_ok_def
  proof (intro conjI)
    show "\<forall>u \<in> set (db_usage (update_runs p f db)). \<exists>r \<in> set (db_runs (update_runs p f db)).
        run_id r = fst (snd u) \<and> run_terminal r"
    proof
      fix u assume "u \<in> set (db_usage (update_runs p f db))"
      then obtain r where "r \<in> set (db_runs db)" "run_id r = fst (snd u)" "run_terminal r"
        using ok by (auto simp: store_ok_def update_runs_def)
      with ev [of r] show "\<exists>r \<in> set (db_runs (update_runs p f db)). run_id r = fst (snd u) \<and> run_terminal r"
        by (intro bexI [of _ "?g r"]) (auto simp: update_runs_def evolves_def run_terminal_def)
    qed
  qed (use ok ids in \<open>auto simp: store_ok_def update_runs_def keeps_ids_def same\<close>)
  show "\<forall>r \<in> set (db_runs db). \<exists>r' \<in> set (db_runs (update_runs p f db)). evolves r r'"
  proof
    fix r assume r: "r \<in> set (db_runs db)"
    show "\<exists>r' \<in> set (db_runs (update_runs p f db)). evolves r r'"
      by (rule bexI [where x = "?g r"]) (use ev [OF r] r in \<open>simp_all add: update_runs_def\<close>)
  qed
qed

lemma legal_of_counts:
  assumes "store_ok db \<Longrightarrow> store_ok db' \<and> (\<forall>r \<in> set (db_runs db). \<exists>r' \<in> set (db_runs db'). evolves r r')"
    and "db_plans db' = db_plans db"
    and "\<And>ws l. store_ok db \<Longrightarrow> limit_of ws db = Some l \<Longrightarrow> active_count ws db \<le> l \<Longrightarrow> active_count ws db' \<le> l"
  shows "legal db db'"
  using assms by (simp add: legal_def)

text \<open>An update of the rows with \<open>p\<close> that adds no usage row.\<close>

lemma legal_update:
  assumes ids: "keeps_ids f"
    and fin: "\<And>r. r \<in> set (db_runs db) \<Longrightarrow> p r \<Longrightarrow> run_terminal r \<Longrightarrow> run_status (f r) = run_status r"
    and act: "\<And>r. r \<in> set (db_runs db) \<Longrightarrow> p r \<Longrightarrow> is_active (f r) \<Longrightarrow> is_active r"
  shows "legal db (update_runs p f db)"
proof (rule legal_of_counts)
  show "store_ok db \<Longrightarrow> store_ok (update_runs p f db) \<and>
      (\<forall>r \<in> set (db_runs db). \<exists>r' \<in> set (db_runs (update_runs p f db)). evolves r r')"
    by (rule update_keeps [OF _ ids fin])
  show "db_plans (update_runs p f db) = db_plans db" by (simp add: update_runs_def)
  fix ws l assume l: "active_count ws db \<le> l"
  have "length (filter (\<lambda>r. run_ws r = ws \<and> is_active r) (map (\<lambda>r. if p r then f r else r) (db_runs db)))
      \<le> length (filter (\<lambda>r. run_ws r = ws \<and> is_active r) (db_runs db))"
    by (rule filter_map_le) (use act ids in \<open>auto simp: keeps_ids_def split: if_splits\<close>)
  with l show "active_count ws (update_runs p f db) \<le> l" by (simp add: active_count_def update_runs_def)
qed

lemma legal_update_run:
  assumes "store_ok db" "find_run i db = Some r" "keeps_ids f"
    and "run_terminal r \<Longrightarrow> run_status (f r) = run_status r" "is_active (f r) \<Longrightarrow> is_active r"
  shows "legal db (update_run i f db)"
  unfolding update_run_def
  by (rule legal_update) (use assms find_run_unique [OF assms(1)] in \<open>metis option.inject\<close>)+

lemma legal_enqueue: "legal db (enqueue_run_job i db)"
proof -
  have q: "legal db (db\<lparr>db_queue := db_queue db @ [i]\<rparr>)" by (rule core_same) (simp add: core_def)
  have "legal (db\<lparr>db_queue := db_queue db @ [i]\<rparr>)
      (update_run i (\<lambda>r. r\<lparr>run_job := True\<rparr>) (db\<lparr>db_queue := db_queue db @ [i]\<rparr>))"
    unfolding update_run_def by (rule legal_update) (auto simp: keeps_ids_def is_active_def)
  from legal_trans [OF q this] show ?thesis by (simp add: enqueue_run_job_def legal_add_event)
qed

lemma find_run_update_run:
  "keeps_ids f \<Longrightarrow> find_run i (update_run i f db) = map_option f (find_run i db)"
proof -
  assume k: "keeps_ids f"
  have "List.find (\<lambda>r. run_id r = i) (map (\<lambda>r. if run_id r = i then f r else r) rs)
      = map_option f (List.find (\<lambda>r. run_id r = i) rs)" for rs
    using k by (induction rs) (auto simp: keeps_ids_def)
  then show ?thesis by (simp add: find_run_def update_run_def update_runs_def)
qed

lemma record_billing_core:
  "core (record_billing ws i ev now db) = core db \<or>
   core (record_billing ws i ev now db) = core (db\<lparr>db_usage := db_usage db @ [(ws, i, ev)]\<rparr>)"
  by (auto simp: record_billing_def core_def add_daily_def Let_def split: option.splits)

lemma legal_add_usage:
  assumes "r \<in> set (db_runs db)" "run_id r = i" "run_terminal r"
    and "i \<notin> set (map (\<lambda>u. fst (snd u)) (db_usage db))"
  shows "legal db (db\<lparr>db_usage := db_usage db @ [(w, i, ev)]\<rparr>)"
proof (rule legalI)
  assume ok: "store_ok db"
  have "store_ok (db\<lparr>db_usage := db_usage db @ [(w, i, ev)]\<rparr>)"
    unfolding store_ok_def using ok assms by (auto simp: store_ok_def)
  then show "legal db (db\<lparr>db_usage := db_usage db @ [(w, i, ev)]\<rparr>)"
    by (auto simp: legal_def active_count_def intro: evolves_refl)
qed

text \<open>A run that ends, and the usage row this adds.\<close>

lemma legal_finish:
  assumes ok: "store_ok db" and r: "find_run i db = Some r" "\<not> run_terminal r"
    and f: "keeps_ids f" "run_terminal (f r)" and c: "core db1 = core (update_run i f db)"
  shows "legal db (record_billing ws i ev now db1)"
proof -
  have na: "\<not> is_active (f r)"
    using f(2) by (auto simp: is_active_def run_terminal_def is_terminal_status_def)
  have l1: "legal db db1"
    by (rule core_legal [OF c legal_update_run [OF ok r(1) f(1)]]) (use r(2) na in auto)
  have ok1: "store_ok db1" using l1 ok by (simp add: legal_def)
  have r1: "find_run i db1 = Some (f r)"
    using core_find_run [OF c] find_run_update_run [OF f(1)] r(1) by simp
  have none: "i \<notin> set (map (\<lambda>u. fst (snd u)) (db_usage db))"
  proof
    assume "i \<in> set (map (\<lambda>u. fst (snd u)) (db_usage db))"
    then obtain u where "u \<in> set (db_usage db)" "fst (snd u) = i" by auto
    then obtain r' where "r' \<in> set (db_runs db)" "run_id r' = i" "run_terminal r'"
      using ok by (auto simp: store_ok_def)
    with r find_run_unique [OF ok] show False by (metis option.inject)
  qed
  have u1: "db_usage db1 = db_usage db" using c by (simp add: core_def update_run_def update_runs_def)
  have l2: "legal db1 (db1\<lparr>db_usage := db_usage db1 @ [(ws, i, ev)]\<rparr>)"
    using find_run_Some [OF r1] f(2) none u1 by (intro legal_add_usage) auto
  have "legal db1 (record_billing ws i ev now db1)"
    using record_billing_core [of ws i ev now db1] by (elim disjE) (rule core_legal, assumption, simp add: l2)+
  from legal_trans [OF l1 this] show ?thesis .
qed

text \<open>A new run: its key is free and, when it is active, so is a place under the limit.\<close>

lemma legal_insert:
  assumes r: "run_id r = db_next db" "\<not> key_taken (run_ws r) (run_key r) db"
    and act: "is_active r \<Longrightarrow> \<not> over_concurrency (plan_of_ws (run_ws r) db) (active_count (run_ws r) db)"
  shows "legal db (insert_run r db)"
proof (rule legalI)
  assume ok: "store_ok db"
  have "store_ok (insert_run r db)"
    using ok r by (auto simp: store_ok_def insert_run_def add_event_def key_taken_def list_ex_iff less_Suc_eq)
  moreover have "active_count ws (insert_run r db) \<le> l"
    if "limit_of ws db = Some l" "active_count ws db \<le> l" for ws l
    using that act by (auto simp: active_count_def insert_run_def add_event_def limit_of_def over_concurrency_def
        split: option.splits)
  ultimately show "legal db (insert_run r db)"
    by (auto simp: legal_def insert_run_def add_event_def intro: evolves_refl)
qed

end
