(* ===== verification/RunSteps.thy ===== *)
theory RunSteps
  imports Lifecycle
begin

text \<open>
  Every operation on runs is legal, and what follows for any sequence of them.  The step relation
  has one rule for each caller: the HTTP handlers, the webhook ingress, the parts of the
  scheduler's tick, and a worker that executes a run.
\<close>

lemma terminal_iff: "run_terminal r \<longleftrightarrow> run_status r \<notin> {Queued, Running, WaitingRun, PausedRun}"
  by (cases "run_status r") (simp_all add: run_terminal_def is_terminal_status_def)

section \<open>Handlers\<close>

lemma core_tables [simp]:
  "core (db\<lparr>db_tasks := a\<rparr>) = core db" "core (db\<lparr>db_steps := b\<rparr>) = core db" "core (db\<lparr>db_locks := c\<rparr>) = core db"
  "core (db\<lparr>db_leases := d\<rparr>) = core db" "core (db\<lparr>db_replay := e\<rparr>) = core db" "core (db\<lparr>db_trigs := f\<rparr>) = core db"
  "core (db\<lparr>db_wflocks := g\<rparr>) = core db"
  by (simp_all add: core_def)

lemma core_set_task [simp]: "core (set_task k st b db) = core db"
  by (simp add: set_task_def)

lemma core_close_paused_step [simp]: "core (close_paused_step i p st db) = core db"
  by (simp add: close_paused_step_def)

lemma core_release [simp]: "core (release_workflow_lock w db) = core db"
  by (simp add: release_workflow_lock_def)

lemma core_acquire: "acquire_workflow_lock w now db = Some db' \<Longrightarrow> core db' = core db"
  by (auto simp: acquire_workflow_lock_def split: option.splits if_splits)

lemma legal_release: "legal db db' \<Longrightarrow> legal db (release_workflow_lock w db')"
  by (rule core_legal [OF core_release])

lemma core_update_run: "core a = core b \<Longrightarrow> core (update_run i f a) = core (update_run i f b)"
  by (simp add: core_def update_run_def update_runs_def)

lemma legal_cancel_update:
  assumes "store_ok db" "find_run i db = Some r" "\<not> run_terminal r"
    and "core db1 = core (update_run i (\<lambda>r. r\<lparr>run_status := Canceled, run_resume := None, run_job := False\<rparr>) db)"
  shows "legal db (record_billing ws i ev now db1)"
  by (rule legal_finish [OF assms(1-3) _ _ assms(4)]) (simp_all add: keeps_ids_def terminal_iff)

lemma legal_cancel: "legal db (snd (cancel_run ws i now db))"
proof (rule legalI)
  assume ok: "store_ok db"
  show "legal db (snd (cancel_run ws i now db))"
  proof (cases "find_run i db")
    case (Some r)
    then show ?thesis
      by (auto simp: cancel_run_def Let_def terminal_iff intro!: legal_release legal_cancel_update [OF ok Some])
  qed (simp add: cancel_run_def)
qed

lemma legal_requeue:
  assumes "store_ok db" "find_run i db = Some r" "\<not> run_terminal r" "core db1 = core db"
  shows "legal db (requeue i db1)"
proof -
  let ?f = "\<lambda>r::run. r\<lparr>run_status := Queued, run_resume := None\<rparr>"
  have "legal db (update_run i ?f db)"
    by (rule legal_update_run [OF assms(1,2)]) (use assms(3) in \<open>auto simp: keeps_ids_def is_active_def terminal_iff\<close>)
  then have "legal db (update_run i ?f db1)"
    by (rule core_legal [OF core_update_run [OF assms(4)]])
  from legal_trans [OF this legal_enqueue] show ?thesis by (simp add: requeue_def)
qed

lemma legal_decide: "legal db (snd (decide_approval ws k approve now db))"
proof (rule legalI)
  assume ok: "store_ok db"
  show "legal db (snd (decide_approval ws k approve now db))"
  proof (cases "find_task k db")
    case (Some t)
    note t = Some
    show ?thesis
    proof (cases "find_run (tk_run t) db")
      case (Some r)
      note i = conjunct2 [OF find_run_Some [OF Some]]
      show ?thesis
        using t Some i by (auto simp: decide_approval_def Let_def terminal_iff
            intro!: legal_requeue [OF ok Some] legal_cancel_update [OF ok Some] core_update_run split: option.splits)
    qed (simp add: decide_approval_def t)
  qed (simp add: decide_approval_def)
qed

lemma core_fold: "(\<And>x db. core (f x db) = core db) \<Longrightarrow> core (fold f xs db) = core db"
  by (induction xs arbitrary: db) simp_all

lemma legal_approve_all: "legal db (snd (approve_all ws i db))"
proof (rule legalI)
  assume ok: "store_ok db"
  show "legal db (snd (approve_all ws i db))"
  proof (cases "find_run i db")
    case (Some r)
    have c: "core (fold (\<lambda>k. set_task k Approved False) ks db) = core db" for ks
      by (rule core_fold) simp
    show ?thesis
      using Some c by (auto simp: approve_all_def Let_def terminal_iff intro: legal_requeue [OF ok Some] core_same)
  qed (simp add: approve_all_def)
qed

lemma legal_start:
  "run_id r = db_next db \<Longrightarrow> \<not> key_taken (run_ws r) (run_key r) db \<Longrightarrow>
   \<not> over_concurrency (plan_of_ws (run_ws r) db) (active_count (run_ws r) db) \<Longrightarrow>
   legal db (enqueue_run_job (run_id r) (insert_run r db))"
  by (rule legal_trans [OF legal_insert legal_enqueue]) simp_all

lemma new_run_simps [simp]:
  "run_id (new_run ws w v t k inp now tmo blk db) = db_next db" "run_ws (new_run ws w v t k inp now tmo blk db) = ws"
  "run_key (new_run ws w v t k inp now tmo blk db) = k" "is_active (new_run ws w v t k inp now tmo blk db) \<longleftrightarrow> \<not> blk"
  by (simp_all add: new_run_def is_active_def)

lemma key_taken_find: "List.find (\<lambda>r. run_ws r = ws \<and> run_key r = k) (db_runs db) = None \<longleftrightarrow> \<not> key_taken ws k db"
  by (auto simp: key_taken_def find_None_iff list_ex_iff)

lemma legal_manual: "legal db (snd (manual_trigger sha ws w inputs now db))"
proof -
  let ?r = "\<lambda>v. new_run ws w v None (manual_key sha ws w inputs now) inputs now (timeout_of (plan_of_ws ws db) now) False db"
  have "legal db (enqueue_run_job (db_next db) (insert_run (?r v) db))"
    if "\<not> over_concurrency (plan_of_ws ws db) (active_count ws db)" "\<not> key_taken ws (manual_key sha ws w inputs now) db" for v
    using legal_start [of "?r v" db] that by simp
  then show ?thesis
    by (simp add: manual_trigger_def Let_def key_taken_find split: option.splits)
qed

lemma legal_webhook: "legal db (snd (webhook_ingress sha ws tg body client inputs missing sync now db))"
proof -
  let ?h = "webhook_replay_hash sha body client"
  let ?d = "db\<lparr>db_replay := db_replay db @ [((ws, tg_id tg, ?h), now)]\<rparr>"
  let ?k = "get_idempotency_key sha (js ''webhook'') ws ?h"
  let ?r = "\<lambda>v. new_run ws (tg_wf tg) v (Some (tg_id tg)) ?k inputs now (timeout_of (plan_of_ws ws ?d) now) False ?d"
  have d: "legal db ?d" by (rule core_same) simp
  have "legal ?d (if sync then insert_run (?r v) ?d else enqueue_run_job (db_next db) (insert_run (?r v) ?d))"
    if "\<not> over_concurrency (plan_of_ws ws ?d) (active_count ws ?d)" "\<not> key_taken ws ?k ?d" for v
    using legal_start [of "?r v" ?d] legal_insert [of "?r v" ?d] that by simp
  with d have s: "legal db (if sync then insert_run (?r v) ?d else enqueue_run_job (db_next db) (insert_run (?r v) ?d))"
    if "\<not> over_concurrency (plan_of_ws ws ?d) (active_count ws ?d)" "\<not> key_taken ws ?k ?d" for v
    using that legal_trans by blast
  show ?thesis
    unfolding webhook_ingress_def Let_def
    by (simp add: d s [unfolded if_distrib] del: js.simps split: option.split)
qed

lemma legal_end:
  assumes "store_ok db" "find_run i db = Some r" "\<not> run_terminal r" "keeps_ids f" "run_terminal (f r)" "core db1 = core db"
  shows "legal db (record_billing ws i ev now (add_event i ev' (update_run i f db1)))"
  by (rule legal_finish [OF assms(1-5)]) (simp add: core_update_run [OF assms(6)])

section \<open>The executor, when nothing interleaves\<close>

lemma executor_begin_legal:
  assumes "store_ok db" "executor_begin i now db = Some db1"
  shows "legal db db1 \<and> (\<exists>r. find_run i db1 = Some r \<and> run_status r = Running)"
proof -
  let ?f = "\<lambda>r::run. r\<lparr>run_status := Running, run_started := True, run_heartbeat := now\<rparr>"
  obtain r where r: "find_run i db = Some r" "\<not> run_terminal r"
    and d: "db1 = add_event i ''run.started'' (update_run i ?f db)"
    using assms(2) by (auto simp: executor_begin_def run_terminal_def split: option.splits if_splits)
  have k: "keeps_ids ?f" by (simp add: keeps_ids_def)
  have "legal db (update_run i ?f db)"
    by (rule legal_update_run [OF assms(1) r(1) k]) (use r(2) in \<open>auto simp: is_active_def terminal_iff\<close>)
  moreover have "find_run i db1 = Some (?f r)"
    using core_find_run [OF core_add_event] find_run_update_run [OF k] r(1) by (simp add: d)
  ultimately show ?thesis by (auto simp: d legal_add_event)
qed

lemma executor_end_legal:
  assumes "store_ok db" "find_run i db = Some r" "run_status r = Running"
  shows "legal db (executor_end i res now db)"
proof (cases res)
  case (EndWaiting t)
  have "legal db (update_run i (\<lambda>r. r\<lparr>run_status := WaitingRun, run_resume := t\<rparr>) db)"
    by (rule legal_update_run [OF assms(1,2)]) (use assms(3) in \<open>simp_all add: keeps_ids_def is_active_def terminal_iff\<close>)
  then show ?thesis by (simp add: EndWaiting executor_end_def legal_add_event)
next
  case EndPaused
  have "legal db (update_run i (\<lambda>r. r\<lparr>run_status := PausedRun\<rparr>) db)"
    by (rule legal_update_run [OF assms(1,2)]) (use assms(3) in \<open>simp_all add: keeps_ids_def is_active_def terminal_iff\<close>)
  then show ?thesis by (simp add: EndPaused executor_end_def legal_add_event)
qed (use assms(3) in \<open>auto simp: executor_end_def keeps_ids_def terminal_iff intro!: legal_end [OF assms(1,2)]\<close>)

lemma legal_execute: "legal db (execute_workflow_run i res t0 t1 db)"
proof (cases "i \<in> set (db_locks db)")
  case False
  let ?d = "db\<lparr>db_locks := db_locks db @ [i]\<rparr>"
  show ?thesis
  proof (cases "executor_begin i t0 ?d")
    case (Some db1)
    have "legal db (executor_end i res t1 db1)"
    proof (rule legalI)
      assume ok: "store_ok db"
      have d: "legal db ?d" by (rule core_same) simp
      with ok have okd: "store_ok ?d" by (simp add: legal_def)
      from executor_begin_legal [OF okd Some] obtain r
        where b: "legal ?d db1" "find_run i db1 = Some r" "run_status r = Running" by blast
      with okd have "store_ok db1" by (simp add: legal_def)
      from executor_end_legal [OF this b(2,3)] d b(1) show "legal db (executor_end i res t1 db1)"
        by (blast intro: legal_trans)
    qed
    then have "legal db (executor_end i res t1 db1\<lparr>db_locks := l\<rparr>)" for l
      by (rule core_legal [rotated]) simp
    then show ?thesis by (simp add: execute_workflow_run_def False Some)
  qed (simp add: execute_workflow_run_def False core_same)
qed (simp add: execute_workflow_run_def)

lemma core_job_start: "job_start i now db = Some db' \<Longrightarrow> core db' = core db"
  by (auto simp: job_start_def split: option.splits if_splits dest: core_acquire)

lemma legal_job_body: "legal db (job_body i res t0 t1 db)"
proof -
  have "legal db (update_runs (\<lambda>r. run_id r = i \<and> run_status r \<in> {Queued, Running})
      (\<lambda>r. r\<lparr>run_status := Queued, run_job := False\<rparr>) db)"
    by (rule legal_update) (auto simp: keeps_ids_def is_active_def terminal_iff)
  then show ?thesis by (simp add: job_body_def legal_execute split: option.splits)
qed

lemma legal_process_job: "legal db (process_job i res t0 t1 db)"
proof (cases "job_start i t0 db")
  case (Some db1)
  have "legal db (job_body i res t0 t1 db1)"
    by (rule legal_trans [OF core_same [OF core_job_start [OF Some]] legal_job_body])
  then show ?thesis by (simp add: process_job_def Some legal_release split: option.splits)
qed (simp add: process_job_def split: option.splits)

section \<open>The tick\<close>

lemma advance_core: "core (snd (advance_trigger t c now db)) = core db"
  by (auto simp: advance_trigger_def split: option.splits)

lemma legal_advance: "legal db d \<Longrightarrow> legal db (snd (advance_trigger t c now d))"
  by (rule core_legal [OF advance_core])

lemma legal_fire: "legal db (snd (fire_trigger now gw db))"
proof -
  let ?ws = "wf_ws (snd gw)" and ?k = "schedule_key (fst gw)"
  let ?p = "plan_of_ws ?ws db"
  let ?b = "over_concurrency ?p (active_count ?ws db)"
  let ?r = "\<lambda>v. new_run ?ws (wf_id (snd gw)) v (Some (tg_id (fst gw))) ?k (js ''{}'') now (timeout_of ?p now) ?b db"
  have i: "legal db (insert_run (?r v) db)" if "\<not> key_taken ?ws ?k db" for v
    by (rule legal_insert) (simp_all add: that del: js.simps)
  then have e: "legal db (enqueue_run_job (db_next db) (insert_run (?r v) db))" if "\<not> key_taken ?ws ?k db" for v
    using that by (blast intro: legal_trans legal_enqueue)
  show ?thesis
    using i e by (auto simp: fire_trigger_def Let_def simp del: js.simps intro!: legal_advance split: option.splits)
qed

lemma legal_loop:
  "(\<And>x db. legal db (snd (f x db))) \<Longrightarrow> legal db (snd (loop_until_error f xs db))"
proof (induction xs arbitrary: db)
  case (Cons x xs)
  obtain b d where f: "f x db = (b, d)" by fastforce
  from Cons.prems [of db x] f have "legal db d" by simp
  moreover have "legal d (snd (loop_until_error f xs d))" by (rule Cons.IH [OF Cons.prems])
  ultimately show ?case by (cases b) (simp_all add: f, rule legal_trans)
qed simp

lemma legal_fire_due: "legal db (snd (fire_due_triggers now db))"
  by (simp add: fire_due_triggers_def legal_loop legal_fire)

lemma legal_resume: "legal db (resume_delays now db)"
  unfolding resume_delays_def
proof (rule legal_fold)
  fix r :: run and db :: store
  let ?k = "(run_id r, case run_resume r of Some t \<Rightarrow> t | None \<Rightarrow> 0)"
  let ?d = "db\<lparr>db_leases := db_leases db @ [(?k, now + LEASE_TTL)]\<rparr>"
  let ?u = "update_runs (\<lambda>x. run_id x = run_id r \<and> run_status x = WaitingRun)
      (\<lambda>x. x\<lparr>run_status := Queued, run_resume := None\<rparr>) ?d"
  have "legal db ?d" by (rule core_same) simp
  moreover have "legal ?d ?u" by (rule legal_update) (auto simp: keeps_ids_def is_active_def terminal_iff)
  ultimately have "legal db (enqueue_run_job (run_id r) ?u)" by (blast intro: legal_trans legal_enqueue)
  then show "legal db (resume_one now r db)" by (simp add: resume_one_def Let_def)
qed

lemma legal_timeout_task: "store_ok db \<Longrightarrow> legal db (timeout_task now t db)"
proof -
  assume ok: "store_ok db"
  let ?st = "if tk_abort t then ''failed'' else ''skipped''"
  let ?d = "close_paused_step (tk_run t) (tk_path t) ?st (set_task (tk_id t) TimedOut True db)"
  have c: "core ?d = core db" by simp
  show ?thesis
  proof (cases "find_run (tk_run t) db")
    case (Some r)
    have f: "find_run (tk_run t) ?d = Some r" using core_find_run [OF c] Some by simp
    show ?thesis
      using f by (auto simp: timeout_task_def Let_def terminal_iff keeps_ids_def
          intro: core_same legal_requeue [OF ok Some] legal_end [OF ok Some] split: option.splits)
  qed (use core_find_run [OF c] in \<open>auto simp: timeout_task_def Let_def intro: core_same split: option.splits\<close>)
qed

lemma legal_approval_timeouts: "legal db (check_approval_timeouts now db)"
  by (simp add: check_approval_timeouts_def legal_fold legal_timeout_task)

lemma find_run_other:
  "keeps_ids f \<Longrightarrow> j \<noteq> i \<Longrightarrow> find_run i (update_run j f db) = find_run i db"
proof -
  assume k: "keeps_ids f" "j \<noteq> i"
  have "List.find (\<lambda>r. run_id r = i) (map (\<lambda>r. if run_id r = j then f r else r) rs)
      = List.find (\<lambda>r. run_id r = i) rs" for rs
    using k by (induction rs) (auto simp: keeps_ids_def)
  then show ?thesis by (simp add: find_run_def update_run_def update_runs_def)
qed

lemma find_run_record_billing [simp]: "find_run i (record_billing ws j ev now db) = find_run i db"
  using record_billing_core [of ws j ev now db] by (auto simp: core_def find_run_def)

lemma find_run_add_event [simp]: "find_run i (add_event j ev db) = find_run i db"
  by (rule core_find_run) simp

lemma find_run_enqueue: "j \<noteq> i \<Longrightarrow> find_run i (enqueue_run_job j db) = find_run i db"
  by (simp add: enqueue_run_job_def find_run_other keeps_ids_def) (simp add: find_run_def)

lemma recover_other: "run_id r \<noteq> i \<Longrightarrow> find_run i (recover_one now r db) = find_run i db"
  by (simp add: recover_one_def find_run_enqueue find_run_other keeps_ids_def)

lemma legal_recover:
  "distinct (map run_id rs) \<Longrightarrow>
   \<forall>r \<in> set rs. \<exists>x. find_run (run_id r) db = Some x \<and> run_status x = Queued \<Longrightarrow>
   legal db (fold (recover_one now) rs db)"
proof (induction rs arbitrary: db)
  case (Cons r rs)
  obtain x where x: "find_run (run_id r) db = Some x" "run_status x = Queued" using Cons.prems(2) by auto
  have one: "legal db (recover_one now r db)"
    by (rule legalI) (use x in \<open>auto simp: recover_one_def legal_enqueue keeps_ids_def terminal_iff intro!: legal_end\<close>)
  have d: "distinct (map run_id rs)" using Cons.prems(1) by simp
  have "find_run (run_id y) (recover_one now r db) = find_run (run_id y) db" if "y \<in> set rs" for y
    by (rule recover_other) (use that Cons.prems(1) in force)
  then have "\<forall>y \<in> set rs. \<exists>x. find_run (run_id y) (recover_one now r db) = Some x \<and> run_status x = Queued"
    using Cons.prems(2) by simp
  from legal_trans [OF one Cons.IH [OF d this]] show ?case by simp
qed simp

lemma distinct_map_filter_map: "distinct (map g xs) \<Longrightarrow> g \<circ> h = g \<Longrightarrow> distinct (map g (map h (filter P xs)))"
  by (metis distinct_map_filter map_map)

lemma legal_stale: "legal db (stale_sweep now db)"
proof (rule legalI)
  assume ok: "store_ok db"
  let ?f = "\<lambda>r::run. r\<lparr>run_status := Queued, run_job := False, run_recovery := run_recovery r + 1\<rparr>"
  let ?d = "update_runs (is_stale now) ?f db"
  have u: "legal db ?d"
    by (rule legal_update) (auto simp: keeps_ids_def is_active_def terminal_iff is_stale_def)
  with ok have okd: "store_ok ?d" by (simp add: legal_def)
  have "distinct (map run_id (map ?f (filter (is_stale now) (db_runs db))))"
    by (rule distinct_map_filter_map) (use ok in \<open>auto simp: store_ok_def\<close>)
  moreover have "find_run (run_id r) ?d = Some (?f r)" if "r \<in> set (db_runs db)" "is_stale now r" for r
    unfolding find_run_unique [OF okd] using that by (auto simp: update_runs_def image_iff)
  ultimately have "legal ?d (fold (recover_one now) (map ?f (filter (is_stale now) (db_runs db))) ?d)"
    by (intro legal_recover) auto
  from legal_trans [OF u this] show "legal db (stale_sweep now db)" by (simp add: stale_sweep_def Let_def)
qed

lemma legal_requeue_stuck: "legal db (requeue_stuck db)"
  by (simp add: requeue_stuck_def legal_fold legal_enqueue)

lemma legal_queue_timeout: "legal db (queue_timeout now db)"
  unfolding queue_timeout_def
  by (rule core_legal [OF core_fold legal_update])
     (auto simp: keeps_ids_def is_active_def terminal_iff queue_expired_def)

lemma length_filter_one:
  "distinct (map g rs) \<Longrightarrow> length (filter P (map (\<lambda>r. if g r = i \<and> q r then f r else r) rs)) \<le> Suc (length (filter P rs))"
proof (induction rs)
  case (Cons r rs)
  show ?case
  proof (cases "g r = i")
    case True
    have "map (\<lambda>r. if g r = i \<and> q r then f r else r) rs = rs"
      by (rule map_idI) (use Cons.prems True in \<open>auto simp: image_iff\<close>)
    then show ?thesis using True by (simp only: list.map filter.simps) simp
  qed (use Cons in simp)
qed simp

definition unblock :: "nat \<Rightarrow> store \<Rightarrow> store" where
  "unblock i = update_runs (\<lambda>x. run_id x = i \<and> run_blocked x \<and> \<not> run_job x) (\<lambda>x. x\<lparr>run_blocked := False\<rparr>)"

lemma legal_unblock:
  assumes r: "find_run i db = Some r" and n: "\<And>l. limit_of (run_ws r) db = Some l \<Longrightarrow> active_count (run_ws r) db < l"
  shows "legal db (unblock i db)"
proof (rule legal_of_counts)
  show "store_ok db \<Longrightarrow> store_ok (unblock i db) \<and>
      (\<forall>r \<in> set (db_runs db). \<exists>r' \<in> set (db_runs (unblock i db)). evolves r r')"
    unfolding unblock_def by (rule update_keeps) (simp_all add: keeps_ids_def)
  show "db_plans (unblock i db) = db_plans db" by (simp add: unblock_def update_runs_def)
next
  fix ws k assume ok: "store_ok db" and k: "limit_of ws db = Some k" "active_count ws db \<le> k"
  let ?P = "\<lambda>r. run_ws r = ws \<and> is_active r"
  let ?g = "\<lambda>x. if run_id x = i \<and> run_blocked x \<and> \<not> run_job x then x\<lparr>run_blocked := False\<rparr> else x"
  have "length (filter ?P (map ?g (db_runs db))) \<le> k"
  proof (cases "ws = run_ws r")
    case True
    have d: "distinct (map run_id (db_runs db))" using ok by (simp add: store_ok_def)
    have "length (filter ?P (map ?g (db_runs db))) \<le> Suc (length (filter ?P (db_runs db)))"
      by (rule length_filter_one [OF d, of ?P i "\<lambda>x. run_blocked x \<and> \<not> run_job x"])
    moreover have "Suc (length (filter ?P (db_runs db))) \<le> k"
      using n [of k] True k by (simp add: active_count_def)
    ultimately show ?thesis by (rule le_trans)
  next
    case False
    have "length (filter ?P (map ?g (db_runs db))) \<le> length (filter ?P (db_runs db))"
    proof (rule filter_map_le)
      fix x assume "x \<in> set (db_runs db)" "?P (?g x)"
      moreover have "x = r" if "run_id x = i"
        using r find_run_unique [OF ok] that \<open>x \<in> set (db_runs db)\<close> by (metis option.inject)
      ultimately show "?P x" using False by (auto split: if_splits)
    qed
    with k show ?thesis by (simp add: active_count_def)
  qed
  then show "active_count ws (unblock i db) \<le> k" by (simp add: active_count_def unblock_def update_runs_def)
qed

lemma promote_one_cases:
  "promote_one r db = db \<or>
   (promote_one r db = enqueue_run_job (run_id r) (unblock (run_id r) db) \<and> find_run (run_id r) db \<noteq> None \<and>
    (\<forall>l. limit_of (run_ws r) db = Some l \<longrightarrow> active_count (run_ws r) db < l))"
  by (auto simp: promote_one_def unblock_def limit_of_def find_run_def find_None_iff list_ex_iff split: option.splits)

lemma legal_promote:
  assumes ws: "\<And>x. find_run (run_id r) db = Some x \<Longrightarrow> run_ws x = run_ws r"
  shows "legal db (promote_one r db)"
  using promote_one_cases [of r db]
proof (elim disjE conjE)
  assume p: "promote_one r db = enqueue_run_job (run_id r) (unblock (run_id r) db)"
    and f: "find_run (run_id r) db \<noteq> None" and l: "\<forall>l. limit_of (run_ws r) db = Some l \<longrightarrow> active_count (run_ws r) db < l"
  then obtain x where x: "find_run (run_id r) db = Some x" by auto
  have "legal db (unblock (run_id r) db)"
    by (rule legal_unblock [OF x]) (use l ws [OF x] in auto)
  with p show ?thesis by (simp add: legal_trans [OF _ legal_enqueue])
qed simp

text \<open>A row that was read before the loop still has the run's workspace.\<close>

definition ws_known :: "store \<Rightarrow> run \<Rightarrow> bool" where
  "ws_known db r \<longleftrightarrow> (\<exists>x. find_run (run_id r) db = Some x \<and> run_ws x = run_ws r)"

lemma legal_ws_known: "legal db db' \<Longrightarrow> store_ok db \<Longrightarrow> ws_known db r \<Longrightarrow> ws_known db' r"
proof -
  assume l: "legal db db'" and ok: "store_ok db" and k: "ws_known db r"
  from k obtain x where x: "x \<in> set (db_runs db)" "run_id x = run_id r" "run_ws x = run_ws r"
    using find_run_unique [OF ok] by (auto simp: ws_known_def)
  with l ok obtain y where "y \<in> set (db_runs db')" "evolves x y" and ok': "store_ok db'" by (auto simp: legal_def)
  with x show "ws_known db' r" by (auto simp: ws_known_def evolves_def find_run_unique [OF ok'])
qed

lemma legal_promotes:
  "store_ok db \<Longrightarrow> \<forall>r \<in> set rs. ws_known db r \<Longrightarrow> legal db (fold promote_one rs db)"
proof (induction rs arbitrary: db)
  case (Cons r rs)
  have one: "legal db (promote_one r db)"
    by (rule legal_promote) (use Cons.prems(2) in \<open>auto simp: ws_known_def\<close>)
  then have "store_ok (promote_one r db)" using Cons.prems(1) by (simp add: legal_def)
  moreover have "\<forall>r' \<in> set rs. ws_known (promote_one r db) r'"
    using legal_ws_known [OF one Cons.prems(1)] Cons.prems(2) by simp
  ultimately show ?case using Cons.IH one by (simp add: legal_trans)
qed simp

lemma legal_retry: "legal db (concurrency_retry db)"
proof (rule legalI)
  assume ok: "store_ok db"
  have "ws_known db r" if "r \<in> set (db_runs db)" for r
    using that find_run_unique [OF ok, of "run_id r" r] by (simp add: ws_known_def)
  then show "legal db (concurrency_retry db)"
    unfolding concurrency_retry_def by (intro legal_promotes [OF ok]) (auto dest: in_set_takeD)
qed

lemma legal_reconcile: "legal db (reconcile now db)"
proof -
  have "legal db (clean_logs now db)" by (rule core_same) (simp add: clean_logs_def)
  from legal_trans [OF legal_trans [OF legal_trans [OF legal_trans [OF this legal_stale] legal_requeue_stuck]
        legal_queue_timeout] legal_retry]
  show ?thesis by (simp add: reconcile_def)
qed

lemma legal_tick: "legal db (tick_once now db)"
proof -
  obtain b d where f: "fire_due_triggers now db = (b, d)" by fastforce
  have "legal db d" using legal_fire_due [of db now] by (simp add: f)
  moreover from legal_trans [OF legal_trans [OF legal_resume legal_approval_timeouts] legal_reconcile]
  have "legal d (reconcile now (check_approval_timeouts now (resume_delays now d)))" .
  ultimately show ?thesis by (cases b) (auto simp: tick_once_def f intro: legal_trans)
qed

end
