(* ===== verification/RunProps.thy ===== *)
theory RunProps
  imports RunSteps
begin

text \<open>
  The properties of a run's life.  An execution here is atomic, and so is every handler and every
  tick; \<open>cancel_overwritten\<close> shows what changes when a handler comes between the two halves of an
  execution.  Runs are not purged.
\<close>

section \<open>Steps\<close>

inductive life_step :: "(jstr \<Rightarrow> jstr) \<Rightarrow> store \<Rightarrow> store \<Rightarrow> bool" for sha where
  Manual: "life_step sha db (snd (manual_trigger sha ws w inputs now db))"
| Webhook: "life_step sha db (snd (webhook_ingress sha ws tg body client inputs missing sync now db))"
| Cancel: "life_step sha db (snd (cancel_run ws i now db))"
| Decide: "life_step sha db (snd (decide_approval ws k approve now db))"
| ApproveAll: "life_step sha db (snd (approve_all ws i db))"
| Tick: "life_step sha db (tick_once now db)"
| Job: "life_step sha db (process_job i res t0 t1 db)"
| Inline: "life_step sha db (execute_workflow_run i res t0 t1 db)"

locale run_system =
  fixes step :: "store \<Rightarrow> store \<Rightarrow> bool"
  assumes step_legal: "step a b \<Longrightarrow> legal a b"
begin

lemma steps_legal: "step\<^sup>*\<^sup>* a b \<Longrightarrow> legal a b"
  by (induction rule: rtranclp_induct) (auto intro: legal_trans step_legal)

lemma steps_ok: "step\<^sup>*\<^sup>* a b \<Longrightarrow> store_ok a \<Longrightarrow> store_ok b"
  using steps_legal by (auto simp: legal_def)

lemma steps_evolve:
  "step\<^sup>*\<^sup>* a b \<Longrightarrow> store_ok a \<Longrightarrow> find_run i a = Some r \<Longrightarrow> \<exists>r'. find_run i b = Some r' \<and> evolves r r'"
proof -
  assume s: "step\<^sup>*\<^sup>* a b" and ok: "store_ok a" and f: "find_run i a = Some r"
  from find_run_Some [OF f] steps_legal [OF s] ok obtain r'
    where "r' \<in> set (db_runs b)" "evolves r r'" "run_id r = i" by (auto simp: legal_def)
  with find_run_unique [OF steps_ok [OF s ok]] show ?thesis by (auto simp: evolves_def)
qed

lemma steps_terminal:
  "step\<^sup>*\<^sup>* a b \<Longrightarrow> store_ok a \<Longrightarrow> find_run i a = Some r \<Longrightarrow> run_terminal r \<Longrightarrow>
   \<exists>r'. find_run i b = Some r' \<and> run_status r' = run_status r"
  using steps_evolve by (fastforce simp: evolves_def)

lemma steps_limit:
  "step\<^sup>*\<^sup>* a b \<Longrightarrow> store_ok a \<Longrightarrow> limit_of ws a = Some l \<Longrightarrow> active_count ws a \<le> l \<Longrightarrow> active_count ws b \<le> l"
  using steps_legal by (auto simp: legal_def)

lemma steps_key:
  "step\<^sup>*\<^sup>* a b \<Longrightarrow> store_ok a \<Longrightarrow> key_taken ws k a \<Longrightarrow> key_taken ws k b"
  using steps_legal [of a b] by (fastforce simp: legal_def key_taken_def list_ex_iff evolves_def)

end

interpretation life: run_system "life_step sha" for sha
proof
  show "life_step sha a b \<Longrightarrow> legal a b" for a b
    by (induction rule: life_step.induct)
       (rule legal_manual legal_webhook legal_cancel legal_decide legal_approve_all legal_tick legal_process_job legal_execute)+
qed

text \<open>A server without runs.\<close>

definition fresh :: "store \<Rightarrow> bool" where
  "fresh db \<longleftrightarrow> db_runs db = [] \<and> db_usage db = []"

lemma fresh_ok: "fresh db \<Longrightarrow> store_ok db"
  by (simp add: fresh_def store_ok_def)

text \<open>One workspace on the Free plan with one workflow, for the witnesses.\<close>

definition ex_store :: store where
  "ex_store = \<lparr>db_runs = [], db_events = [], db_steps = [], db_tasks = [], db_usage = [], db_daily = [],
     db_subs = [], db_locks = [], db_wflocks = [], db_leases = [], db_queue = [], db_plans = [(1, ''free'')],
     db_wfs = [\<lparr>wf_id = 1, wf_ws = 1, wf_enabled = True, wf_version = Some 1, wf_concurrent = False\<rparr>], db_trigs = [], db_replay = [], db_next = 0\<rparr>"

definition ex_start :: store where
  "ex_start = snd (manual_trigger (\<lambda>x. x) 1 1 (js ''{}'') 0 ex_store)"

definition ex_done :: store where
  "ex_done = process_job 0 (Some EndSucceeded) 1 2 ex_start"

lemma ex_fresh [simp]: "fresh ex_store"
  by (simp add: fresh_def ex_store_def)

lemma ex_steps: "(life_step (\<lambda>x. x))\<^sup>*\<^sup>* ex_store ex_start" "(life_step (\<lambda>x. x))\<^sup>*\<^sup>* ex_start ex_done"
  unfolding ex_start_def ex_done_def by (rule r_into_rtranclp, rule life_step.intros)+

lemma ex_plan: "plan_of_ws 1 db = Some free" if "db_plans db = [(1, ''free'')]" for db
  using that by (simp add: plan_of_ws_def get_plan_definition_def plan_defs)

lemma ex_admitted:
  "over_concurrency (plan_of_ws 1 ex_store) (active_count 1 ex_store) = False"
  "over_run_cap (plan_of_ws 1 ex_store) (runs_consumed_of 1 t ex_store + active_count 1 ex_store) = False"
proof -
  have p: "plan_of_ws 1 ex_store = Some free" by (rule ex_plan) (simp add: ex_store_def)
  have a: "active_count 1 ex_store = 0" "runs_consumed_of 1 t ex_store = 0"
    by (simp_all add: ex_store_def active_count_def runs_consumed_of_def)
  show "over_concurrency (plan_of_ws 1 ex_store) (active_count 1 ex_store) = False"
    "over_run_cap (plan_of_ws 1 ex_store) (runs_consumed_of 1 t ex_store + active_count 1 ex_store) = False"
    unfolding p a by (simp_all add: over_concurrency_def over_run_cap_def free_def)
qed

definition ex_run :: run where
  "ex_run = new_run 1 1 1 None (manual_key (\<lambda>x. x) 1 1 (js ''{}'') 0) (js ''{}'') 0 (timeout_of (plan_of_ws 1 ex_store) 0) False ex_store"

lemma ex_accepted: "manual_trigger (\<lambda>x. x) 1 1 (js ''{}'') 0 ex_store = (Inr (0, False), enqueue_run_job 0 (insert_run ex_run ex_store))"
  unfolding manual_trigger_def Let_def ex_admitted if_False
  by (simp add: ex_run_def del: js.simps) (simp add: ex_store_def)

lemma ex_start_eq: "ex_start = enqueue_run_job 0 (insert_run ex_run ex_store)"
  unfolding ex_start_def ex_accepted by simp

lemma ex_start_tables: "db_runs ex_start = [ex_run\<lparr>run_job := True\<rparr>]" "db_usage ex_start = []" "db_locks ex_start = []"
  "db_wflocks ex_start = []" "db_wfs ex_start = db_wfs ex_store" "db_steps ex_start = []"
  by (simp_all add: ex_start_eq enqueue_run_job_def update_run_def update_runs_def insert_run_def add_event_def ex_run_def new_run_def)
     (simp_all add: ex_store_def)

lemma ex_start_run: "find_run 0 ex_start = Some (ex_run\<lparr>run_job := True\<rparr>)" "run_status ex_run = Queued" "run_ws ex_run = 1" "run_wf ex_run = 1" "run_id ex_run = 0" "\<not> run_blocked ex_run"
  by (simp_all add: find_run_def ex_start_tables ex_run_def new_run_def) (simp_all add: ex_store_def)

lemma ex_done_runs: "map_option run_status (find_run 0 ex_done) = Some Succeeded" "map (\<lambda>u. fst (snd u)) (db_usage ex_done) = [0]"
  by (simp_all add: ex_done_def process_job_def job_start_def job_body_def execute_workflow_run_def executor_begin_def executor_end_def
   ex_start_run ex_start_tables find_run_def is_terminal_status_def acquire_workflow_lock_def Let_def
   release_workflow_lock_def update_run_def update_runs_def add_event_def record_billing_def add_daily_def billed_steps_def)

lemma ex_start_runs: "map_option (\<lambda>r. (run_status r, run_ws r)) (find_run 0 ex_start) = Some (Queued, 1)"
  by (simp add: ex_start_run)

section \<open>Invariants\<close>








section \<open>Admission\<close>

lemma runs_consumed_insert' [simp]: "runs_consumed_of ws now (insert_run r db) = runs_consumed_of ws now db"
  by (simp add: runs_consumed_of_def insert_run_def add_event_def)

lemma runs_consumed_insert [simp]:
  "runs_consumed_of ws now (enqueue_run_job i (insert_run r db)) = runs_consumed_of ws now db"
  by (simp add: runs_consumed_of_def enqueue_run_job_def insert_run_def add_event_def update_run_def update_runs_def)

lemma length_filter_same:
  "(\<And>x. P (g x) = P x) \<Longrightarrow> length (filter P (map g xs)) = length (filter P xs)"
  by (induction xs) auto

lemma active_enqueue [simp]: "active_count ws (enqueue_run_job i db) = active_count ws db"
proof -
  have "length (filter (\<lambda>r. run_ws r = ws \<and> is_active r) (map (\<lambda>r. if run_id r = i then r\<lparr>run_job := True\<rparr> else r) (db_runs db)))
      = length (filter (\<lambda>r. run_ws r = ws \<and> is_active r) (db_runs db))"
    by (rule length_filter_same) (simp add: is_active_def)
  then show ?thesis
    by (simp add: active_count_def enqueue_run_job_def add_event_def update_run_def update_runs_def)
qed

lemma active_insert [simp]:
  "active_count ws (insert_run r db) = active_count ws db + (if run_ws r = ws \<and> is_active r then 1 else 0)"
  by (simp add: active_count_def insert_run_def add_event_def)

text \<open>The requests that insert a run: by hand, or through a webhook.\<close>

definition admits :: "(jstr \<Rightarrow> jstr) \<Rightarrow> nat \<Rightarrow> int \<Rightarrow> store \<Rightarrow> store \<Rightarrow> bool" where
  "admits sha ws now db db' \<longleftrightarrow>
     (\<exists>w inputs i. manual_trigger sha ws w inputs now db = (Inr (i, False), db')) \<or>
     (\<exists>tg body client inputs missing sync i. webhook_ingress sha ws tg body client inputs missing sync now db = (Inr i, db'))"

lemma manual_admitted:
  assumes "manual_trigger sha ws w inputs now db = (Inr (i, False), db')"
  shows "\<not> over_run_cap (plan_of_ws ws db) (runs_consumed_of ws now db + active_count ws db) \<and>
    (\<exists>v. db' = enqueue_run_job (db_next db) (insert_run (new_run ws w v None (manual_key sha ws w inputs now)
       inputs now (timeout_of (plan_of_ws ws db) now) False db) db))"
  using assms by (auto simp: manual_trigger_def Let_def split: option.splits if_splits)

lemma replay_row [simp]:
  "plan_of_ws ws (db\<lparr>db_replay := l\<rparr>) = plan_of_ws ws db" "active_count ws (db\<lparr>db_replay := l\<rparr>) = active_count ws db"
  "runs_consumed_of ws now (db\<lparr>db_replay := l\<rparr>) = runs_consumed_of ws now db"
  "key_taken ws k (db\<lparr>db_replay := l\<rparr>) = key_taken ws k db"
  by (simp_all add: plan_of_ws_def active_count_def runs_consumed_of_def key_taken_def)

lemma webhook_admitted:
  assumes "webhook_ingress sha ws tg body client inputs missing sync now db = (Inr i, db')"
  defines "key \<equiv> get_idempotency_key sha (js ''webhook'') ws (webhook_replay_hash sha body client)"
  shows "\<not> over_run_cap (plan_of_ws ws db) (runs_consumed_of ws now db + active_count ws db) \<and> \<not> key_taken ws key db \<and>
    (\<exists>v t l db1. db1 = insert_run (new_run ws (tg_wf tg) v (Some (tg_id tg)) key inputs now t False db) (db\<lparr>db_replay := l\<rparr>) \<and>
       (db' = db1 \<or> db' = enqueue_run_job (db_next db) db1))"
  using assms(1) unfolding key_def
  by (auto simp: webhook_ingress_def Let_def new_run_def simp del: js.simps split: option.splits if_splits)

lemma key_taken_insert:
  "run_ws r = ws \<Longrightarrow> run_key r = k \<Longrightarrow> key_taken ws k (enqueue_run_job i (insert_run r db)) \<and> key_taken ws k (insert_run r db)"
  by (auto simp: key_taken_def enqueue_run_job_def insert_run_def add_event_def update_run_def update_runs_def list_ex_iff)

text \<open>
  C31: a run that the manual route or the webhook ingress admits on the Free plan leaves the runs
  consumed in the period and the active runs together at most 500.
\<close>

theorem free_cap_on_admission:
  assumes "plan_of_ws ws db = Some free" "admits sha ws now db db'"
  shows "runs_consumed_of ws now db' + active_count ws db' \<le> 500 \<and> active_count ws db' = active_count ws db + 1"
proof -
  have "\<not> over_run_cap (Some free) n \<Longrightarrow> n < 500" for n
    by (simp add: over_run_cap_def has_hard_run_cap_def rate_of_def free_def)
  note cap = this
  from assms(2) [unfolded admits_def] show ?thesis
  proof (elim disjE exE)
    fix w inputs i assume "manual_trigger sha ws w inputs now db = (Inr (i, False), db')"
    from manual_admitted [OF this] cap [of "runs_consumed_of ws now db + active_count ws db"] assms(1) show ?thesis by auto
  next
    fix tg body client inputs missing sync i
    assume "webhook_ingress sha ws tg body client inputs missing sync now db = (Inr i, db')"
    from webhook_admitted [OF this] cap [of "runs_consumed_of ws now db + active_count ws db"] assms(1) show ?thesis by auto
  qed
qed

theorem free_cap_on_admission_witness:
  "runs_consumed_of 1 0 ex_start + active_count 1 ex_start \<le> 500 \<and> active_count 1 ex_start = active_count 1 ex_store + 1"
proof -
  have "manual_trigger (\<lambda>x. x) 1 1 (js ''{}'') 0 ex_store = (Inr (0, False), ex_start)"
    by (simp only: ex_accepted ex_start_eq)
  then have "admits (\<lambda>x. x) 1 0 ex_store ex_start" unfolding admits_def by blast
  moreover have "plan_of_ws 1 ex_store = Some free" by (rule ex_plan) (simp add: ex_store_def)
  ultimately show ?thesis by (intro free_cap_on_admission)
qed

text \<open>
  The cap of the Free plan does not hold after admission.  A run that the scheduler inserts as
  blocked is not among the active runs, so it is not counted when the next one is admitted, and
  its promotion looks at the concurrency limit only: from a period with 500 runs consumed
  it starts the 501st.
\<close>

definition ex_blocked :: "nat \<Rightarrow> store" where
  "ex_blocked used = ex_store\<lparr>db_runs := [new_run 1 1 1 (Some 1) (js ''k'') (js ''{}'') 0 3600000 True ex_store], db_next := 1,
     db_subs := [\<lparr>sub_id = 1, sub_ws = 1, sub_plan = ''free'', sub_active = True, period_start = 0, period_end = 1000,
                   sub_consumed = used\<rparr>]\<rparr>"

theorem blocked_run_exceeds_cap:
  "let db = process_job 0 (Some EndSucceeded) 3 4 (tick_once 2 (ex_blocked 500)) in
     runs_consumed_of 1 5 db = 501 \<and> map_option run_status (find_run 0 db) = Some Succeeded"
  by code_simp

section \<open>Webhooks\<close>


definition ex_trig :: "nat \<Rightarrow> trigger_row" where
  "ex_trig i = \<lparr>tg_id = i, tg_wf = 1, tg_cron = None, tg_enabled = True, tg_next = 0\<rparr>"

definition ex_hook :: store where
  "ex_hook = snd (webhook_ingress (\<lambda>x. x) 1 (ex_trig 1) (js ''a'') None (js ''{}'') (\<lambda>_. False) False 0 ex_store)"

lemma ex_hook_accepted: "\<exists>i. webhook_ingress (\<lambda>x. x) 1 (ex_trig 1) (js ''a'') None (js ''{}'') (\<lambda>_. False) False 0 ex_store = (Inr i, ex_hook)"
proof -
  have "\<not> isl (fst (webhook_ingress (\<lambda>x. x) 1 (ex_trig 1) (js ''a'') None (js ''{}'') (\<lambda>_. False) False 0 ex_store))"
    by code_simp
  then show ?thesis unfolding ex_hook_def by (metis prod.collapse sum.collapse(2))
qed


section \<open>Interleaving and recovery\<close>

lemma release_usage: "db_usage (release_workflow_lock w db) = db_usage db"
  by (simp add: release_workflow_lock_def)

lemma record_billing_usage:
  "find_run i db = Some r \<Longrightarrow> run_started r \<Longrightarrow> (\<And>u. u \<in> set (db_usage db) \<Longrightarrow> snd u \<noteq> (i, ev)) \<Longrightarrow>
   db_usage (record_billing ws i ev now db) = db_usage db @ [(ws, i, ev)]"
  by (force simp: record_billing_def Let_def add_daily_def list_ex_iff)

text \<open>
  A cancel between the first and the last write of an execution is lost.  The route answers
  that the run is canceled and meters it; the executor then writes its own verdict over the
  terminal status and meters the run again, under another event.
\<close>

theorem cancel_overwritten:
  assumes "find_run i db = Some r" "\<not> run_terminal r" "i \<notin> set (map (\<lambda>u. fst (snd u)) (db_usage db))"
  shows "\<exists>db1 db2. executor_begin i t0 db = Some db1 \<and> cancel_run (run_ws r) i t1 db1 = (Inr (), db2) \<and>
    map_option run_status (find_run i db2) = Some Canceled \<and>
    (let db3 = executor_end i EndSucceeded t2 db2 in
       map_option run_status (find_run i db3) = Some Succeeded \<and>
       db_usage db3 = db_usage db @ [(run_ws r, i, ''run.canceled''), (run_ws r, i, ''run.succeeded'')])"
proof -
  let ?f = "\<lambda>r::run. r\<lparr>run_status := Running, run_started := True, run_heartbeat := t0\<rparr>"
  let ?c = "\<lambda>r::run. r\<lparr>run_status := Canceled, run_resume := None, run_job := False\<rparr>"
  let ?e = "\<lambda>r::run. r\<lparr>run_status := Succeeded, run_heartbeat := t2, run_error := None\<rparr>"
  let ?d1 = "add_event i ''run.started'' (update_run i ?f db)"
  define d2 where "d2 = add_event i ''run.canceled'' (update_run i ?c ?d1)"
  define d3 where "d3 = d2\<lparr>db_tasks := cancel_tasks i (db_tasks d2), db_locks := filter (\<lambda>j. j \<noteq> i) (db_locks d2)\<rparr>"
  define d4 where "d4 = release_workflow_lock (run_wf r) (record_billing (run_ws r) i ''run.canceled'' t1 d3)"
  have k: "keeps_ids ?f" "keeps_ids ?c" "keeps_ids ?e" by (simp_all add: keeps_ids_def)
  have f0: "find_run i (update_run i ?f db) = Some (?f r)" by (simp add: find_run_update_run k assms(1))
  have f1: "find_run i ?d1 = Some (?f r)" by (simp add: find_run_update_run k assms(1))
  have "find_run i d2 = Some (?c (?f r))" unfolding d2_def by (simp add: find_run_update_run k assms(1))
  then have f3: "find_run i d3 = Some (?c (?f r))" by (simp add: d3_def find_run_def)
  have u3: "db_usage d3 = db_usage db" by (simp add: d3_def d2_def add_event_def update_run_def update_runs_def)
  have u4: "db_usage d4 = db_usage db @ [(run_ws r, i, ''run.canceled'')]"
    unfolding d4_def release_usage using assms(3) by (subst record_billing_usage [OF f3]) (auto simp: u3 image_iff)
  have f4: "find_run i d4 = Some (?c (?f r))" by (simp add: d4_def f3 core_find_run [OF core_release])
  let ?d5 = "add_event i ''run.succeeded'' (update_run i ?e d4)"
  have f5: "find_run i ?d5 = Some (?e (?c (?f r)))" by (simp add: find_run_update_run k f4)
  have u5: "db_usage ?d5 = db_usage d4" by (simp add: add_event_def update_run_def update_runs_def)
  have "db_usage (record_billing (run_ws r) i ''run.succeeded'' t2 ?d5)
      = db_usage db @ [(run_ws r, i, ''run.canceled''), (run_ws r, i, ''run.succeeded'')]"
    using assms(3) by (subst record_billing_usage [OF f5]) (auto simp: u5 u4 image_iff)
  then have e: "db_usage (executor_end i EndSucceeded t2 d4)
      = db_usage db @ [(run_ws r, i, ''run.canceled''), (run_ws r, i, ''run.succeeded'')]"
    "find_run i (executor_end i EndSucceeded t2 d4) = Some (?e (?c (?f r)))"
    using f5 by (simp_all add: executor_end_def f4)
  have "executor_begin i t0 db = Some ?d1"
    using assms(1,2) by (simp add: executor_begin_def run_terminal_def)
  moreover have "cancel_run (run_ws r) i t1 ?d1 = (Inr (), d4)"
    by (simp add: cancel_run_def f0 Let_def d4_def d3_def d2_def)
  ultimately show ?thesis using f4 e by (intro exI [of _ ?d1] exI [of _ d4]) simp
qed

theorem cancel_overwritten_witness:
  "\<exists>db1 db2. executor_begin 0 1 ex_start = Some db1 \<and> cancel_run 1 0 2 db1 = (Inr (), db2) \<and>
    map_option run_status (find_run 0 (executor_end 0 EndSucceeded 3 db2)) = Some Succeeded"
proof -
  obtain r where r: "find_run 0 ex_start = Some r" "run_status r = Queued" "run_ws r = 1"
    using ex_start_runs by auto
  have "db_usage ex_start = []" by (rule ex_start_tables)
  with r cancel_overwritten [OF r(1), of 1 2 3] show ?thesis by (fastforce simp: terminal_iff Let_def)
qed

lemma record_billing_wfs [simp]: "db_wfs (record_billing ws i ev now db) = db_wfs db"
  by (simp add: record_billing_def Let_def add_daily_def split: option.splits)

text \<open>
  The lock that serializes a workflow's runs does not survive a cancel.  While a job of run
  \<open>i\<close> holds it, canceling any other run \<open>j\<close> of the workflow deletes it, and the job of a
  third run \<open>k\<close> may start before that of \<open>i\<close> has ended.
\<close>

theorem cancel_frees_foreign_lock:
  assumes "find_run i db = Some r" "\<not> run_terminal r" "\<not> workflow_allows_concurrent (run_wf r) db" "map_of (db_wflocks db) (run_wf r) = None"
    and "find_run j db = Some q" "\<not> run_terminal q" "run_wf q = run_wf r"
    and "find_run k db = Some s" "\<not> run_terminal s" "run_wf s = run_wf r" "k \<noteq> j" "t1 < t0 + WORKFLOW_LOCK_TTL"
  shows "\<exists>db1. job_start i t0 db = Some db1 \<and> job_start k t1 db1 = None \<and>
    job_start k t1 (snd (cancel_run (run_ws q) j t1 db1)) \<noteq> None"
proof -
  let ?w = "run_wf r" and ?c = "\<lambda>r::run. r\<lparr>run_status := Canceled, run_resume := None, run_job := False\<rparr>"
  define db1 where "db1 = db\<lparr>db_wflocks := AList.update ?w (t0 + WORKFLOW_LOCK_TTL) (db_wflocks db)\<rparr>"
  have f: "find_run m db1 = find_run m db" for m by (simp add: db1_def find_run_def)
  have c: "workflow_allows_concurrent ?w db1 = workflow_allows_concurrent ?w db"
    by (simp add: db1_def workflow_allows_concurrent_def)
  have start: "job_start i t0 db = Some db1"
    using assms(1-4) by (simp add: job_start_def acquire_workflow_lock_def db1_def run_terminal_def)
  have "map_of (db_wflocks db1) ?w = Some (t0 + WORKFLOW_LOCK_TTL)" by (simp add: db1_def update_conv')
  then have busy: "job_start k t1 db1 = None"
    using assms(3,8-12) by (simp add: job_start_def f c acquire_workflow_lock_def run_terminal_def)
  define d where "d = snd (cancel_run (run_ws q) j t1 db1)"
  have d: "d = release_workflow_lock ?w (record_billing (run_ws q) j ''run.canceled'' t1
      (let d = add_event j ''run.canceled'' (update_run j ?c db1) in
         d\<lparr>db_tasks := cancel_tasks j (db_tasks d), db_locks := filter (\<lambda>i. i \<noteq> j) (db_locks d)\<rparr>))"
    using assms(5-7) by (simp add: d_def cancel_run_def f Let_def terminal_iff)
  have fk: "find_run k d = Some s"
    using assms(8,11) find_run_other [of ?c j k db1] f [of k]
    by (simp add: d core_find_run [OF core_release] Let_def keeps_ids_def) (simp add: find_run_def add_event_def)
  have "workflow_allows_concurrent ?w d = workflow_allows_concurrent ?w db1"
    by (simp add: d release_workflow_lock_def workflow_allows_concurrent_def record_billing_wfs Let_def add_event_def
        update_run_def update_runs_def)
  moreover have "map_of (db_wflocks d) ?w = None"
    by (auto simp: d release_workflow_lock_def map_of_eq_None_iff)
  ultimately have "job_start k t1 d \<noteq> None"
    using assms(3,9,10) c by (simp add: job_start_def fk acquire_workflow_lock_def run_terminal_def)
  with start busy show ?thesis by (auto simp: d_def)
qed

definition ex_three :: store where
  "ex_three = ex_store\<lparr>db_runs := map (\<lambda>i. (new_run 1 1 1 None (nat_str i) (js ''{}'') 0 3600000 False ex_store)\<lparr>run_id := i\<rparr>)
     [0, 1, 2], db_next := 3\<rparr>"

theorem cancel_frees_foreign_lock_witness:
  "\<exists>db1. job_start 0 1 ex_three = Some db1 \<and> job_start 2 5 db1 = None \<and>
    job_start 2 5 (snd (cancel_run 1 1 5 db1)) \<noteq> None"
proof -
  have r: "find_run i ex_three = Some (db_runs ex_three ! i)" "run_wf (db_runs ex_three ! i) = 1"
    "\<not> run_terminal (db_runs ex_three ! i)" "run_ws (db_runs ex_three ! i) = 1" if "i < 3" for i
    using that by (auto simp: ex_three_def find_run_def new_run_def terminal_iff numeral_3_eq_3 less_Suc_eq)
  have w: "\<not> workflow_allows_concurrent 1 ex_three" "map_of (db_wflocks ex_three) 1 = None"
    by (simp_all add: ex_three_def ex_store_def workflow_allows_concurrent_def)
  show ?thesis
    using cancel_frees_foreign_lock [where db = ex_three and i = 0 and j = 1 and k = 2 and r = "db_runs ex_three ! 0"
        and q = "db_runs ex_three ! 1" and s = "db_runs ex_three ! 2" and ?t0.0 = 1 and ?t1.0 = 5] r [of 0] r [of 1] r [of 2] w
    by (simp add: WORKFLOW_LOCK_TTL_def)
qed

text \<open>\<open>P\<close> holds for every run the update leaves or makes.\<close>

definition all_runs :: "(run \<Rightarrow> bool) \<Rightarrow> store \<Rightarrow> bool" where
  "all_runs P db \<longleftrightarrow> (\<forall>r \<in> set (db_runs db). P r)"

lemma all_runs_update: "all_runs P db \<Longrightarrow> (\<And>r. P r \<Longrightarrow> P (f r)) \<Longrightarrow> all_runs P (update_runs p f db)"
  by (auto simp: all_runs_def update_runs_def)

lemma all_runs_core: "core db' = core db \<Longrightarrow> all_runs P db' = all_runs P db"
  by (simp add: all_runs_def core_def)

lemma all_runs_event [simp]: "all_runs P (add_event i ev db) = all_runs P db"
  by (rule all_runs_core) simp

lemma all_runs_billing [simp]: "all_runs P (record_billing ws i ev now db) = all_runs P db"
  using record_billing_core [of ws i ev now db] by (auto simp: core_def all_runs_def)

lemma all_runs_enqueue: "all_runs P db \<Longrightarrow> (\<And>r. P r \<Longrightarrow> P (r\<lparr>run_job := True\<rparr>)) \<Longrightarrow> all_runs P (enqueue_run_job i db)"
  by (auto simp: enqueue_run_job_def update_run_def intro!: all_runs_update) (simp add: all_runs_def)

lemma all_runs_fold: "all_runs P db \<Longrightarrow> (\<And>x db. all_runs P db \<Longrightarrow> all_runs P (f x db)) \<Longrightarrow> all_runs P (fold f xs db)"
  by (induction xs arbitrary: db) simp_all

lemma all_runs_promote:
  "all_runs P db \<Longrightarrow> (\<And>r. P r \<Longrightarrow> P (r\<lparr>run_job := True\<rparr>)) \<Longrightarrow> (\<And>r. P r \<Longrightarrow> P (r\<lparr>run_blocked := False\<rparr>)) \<Longrightarrow>
   all_runs P (promote_one r db)"
proof -
  assume a: "all_runs P db" "\<And>r. P r \<Longrightarrow> P (r\<lparr>run_job := True\<rparr>)" "\<And>r. P r \<Longrightarrow> P (r\<lparr>run_blocked := False\<rparr>)"
  have "all_runs P (unblock (run_id r) db)" unfolding unblock_def by (rule all_runs_update [OF a(1)]) (rule a(3))
  from all_runs_enqueue [OF this a(2)] a(1) promote_one_cases [of r db] show ?thesis by auto
qed

text \<open>A run that reconciliation need not touch.\<close>

definition settled :: "int \<Rightarrow> run \<Rightarrow> bool" where
  "settled now r \<longleftrightarrow> run_terminal r \<or> run_status r = WaitingRun \<or> run_status r = PausedRun \<or>
     (run_status r = Running \<and> now - STALE_MS \<le> run_heartbeat r) \<or>
     (run_status r = Queued \<and> now - QUEUE_TIMEOUT_MS \<le> run_created r)"

text \<open>
  C38: reconciliation leaves no run behind.  After it every run has ended, waits for a delay or an
  approval, runs with a heartbeat of the last 90 seconds, or is queued and younger than a day: a
  run whose worker died does not stay running, and no run stays queued for ever.
\<close>

theorem reconcile_leaves_no_run_behind:
  "all_runs (settled now) (reconcile now db)"
proof -
  let ?P = "\<lambda>r. \<not> is_stale now r"
  let ?d = "requeue_stuck (stale_sweep now (clean_logs now db))"
  have s: "settled now r \<longleftrightarrow> ?P r \<and> \<not> queue_expired now r" for r
    by (cases "run_status r") (auto simp: settled_def is_stale_def queue_expired_def terminal_iff)
  have u: "all_runs ?P (update_runs (is_stale now) f db)"
    if "\<And>r. run_status (f r) = Queued" for f db
    using that by (auto simp: all_runs_def update_runs_def is_stale_def)
  have "all_runs ?P (stale_sweep now db)" for db
    unfolding stale_sweep_def Let_def
    by (rule all_runs_fold [OF u])
       (auto simp: recover_one_def is_stale_def update_run_def intro!: all_runs_enqueue all_runs_update)
  then have "all_runs ?P ?d"
    unfolding requeue_stuck_def by (rule all_runs_fold) (auto simp: is_stale_def intro!: all_runs_enqueue)
  then have "all_runs (settled now) (update_runs (queue_expired now)
      (\<lambda>r. r\<lparr>run_status := FailedRun, run_error := Some ''queue_timeout'', run_job := False\<rparr>) ?d)"
    by (auto simp: all_runs_def update_runs_def s is_stale_def queue_expired_def)
  then have "all_runs (settled now) (queue_timeout now ?d)"
    unfolding queue_timeout_def by (rule all_runs_fold) simp
  then show ?thesis
    unfolding reconcile_def concurrency_retry_def
    by (rule all_runs_fold) (auto simp: settled_def terminal_iff intro!: all_runs_promote)
qed

lemma runs_of:
  "db_runs (update_runs p f db) = map (\<lambda>r. if p r then f r else r) (db_runs db)"
  "db_runs (add_event i ev db) = db_runs db"
  "db_runs (enqueue_run_job i db) = map (\<lambda>r. if run_id r = i then r\<lparr>run_job := True\<rparr> else r) (db_runs db)"
  "db_tasks (update_runs p f db) = db_tasks db" "db_tasks (enqueue_run_job i db) = db_tasks db"
  by (simp_all add: update_runs_def add_event_def enqueue_run_job_def update_run_def)

text \<open>
  A delay that ends more than a day after the run was created fails the run.  The tick queues
  the waiting run, and its own reconciliation then finds a queued run older than a day.
\<close>

theorem long_delay_fails_run:
  assumes "db_runs db = [r]" "run_status r = WaitingRun" "run_resume r = Some t" "t \<le> now"
    and "run_created r < now - QUEUE_TIMEOUT_MS" "db_trigs db = []" "db_leases db = []" "db_tasks db = []"
  shows "map run_error (db_runs (tick_once now db)) = [Some ''queue_timeout'']"
proof -
  define r1 where "r1 = r\<lparr>run_status := Queued, run_resume := None, run_job := True\<rparr>"
  have d1: "fire_due_triggers now db = (True, db)"
    using assms(6) by (simp add: fire_due_triggers_def due_triggers_def)
  have d2: "db_runs (resume_delays now db) = [r1]" "db_tasks (resume_delays now db) = []"
    using assms by (simp_all add: resume_delays_def due_delay_def resume_one_def Let_def runs_of r1_def)
  have d3: "db_runs (clean_logs now (check_approval_timeouts now (resume_delays now db))) = [r1]"
    by (simp add: check_approval_timeouts_def clean_logs_def d2)
  have d4: "db_runs (requeue_stuck (stale_sweep now d)) = [r1]" if "db_runs d = [r1]" for d
    using that by (simp add: stale_sweep_def is_stale_def requeue_stuck_def r1_def runs_of)
  have d5: "db_runs (queue_timeout now d) = [r1\<lparr>run_status := FailedRun, run_error := Some ''queue_timeout'', run_job := False\<rparr>]"
    if "db_runs d = [r1]" for d
    using that assms(5) by (simp add: queue_timeout_def queue_expired_def runs_of r1_def)
  have "concurrency_retry d = d" if "db_runs d = [x]" "run_status x = FailedRun" for d x
    using that by (simp add: concurrency_retry_def)
  with d5 [OF d4 [OF d3]] show ?thesis by (simp add: tick_once_def d1 reconcile_def)
qed

definition ex_delay :: store where
  "ex_delay = ex_store\<lparr>db_runs := [(new_run 1 1 1 None (js ''k'') (js ''{}'') 0 3600000 False ex_store)
     \<lparr>run_status := WaitingRun, run_resume := Some 86400001\<rparr>], db_next := 1\<rparr>"

theorem long_delay_fails_run_witness:
  "map run_error (db_runs (tick_once 86400001 ex_delay)) = [Some ''queue_timeout'']"
  by (rule long_delay_fails_run [where t = 86400001 and r = "hd (db_runs ex_delay)"])
     (simp_all add: ex_delay_def ex_store_def new_run_def QUEUE_TIMEOUT_MS_def)

section \<open>A lock left behind\<close>

text \<open>What a worker's crash leaves: the lock row, and the executions started so far.\<close>

definition lock_view :: "nat \<Rightarrow> store \<Rightarrow> bool \<times> nat" where
  "lock_view i db = (i \<in> set (db_locks db), count_list (db_events db) (i, ''run.started''))"

inductive server_step :: "store \<Rightarrow> store \<Rightarrow> bool" where
  Tick: "server_step db (tick_once now db)"
| Job: "server_step db (process_job i res t0 t1 db)"

named_theorems view

lemma view_update [view]: "lock_view i (update_runs p f db) = lock_view i db" "lock_view i (update_run j f db) = lock_view i db"
  by (simp_all add: lock_view_def update_runs_def update_run_def)

lemma view_event [view]: "ev \<noteq> ''run.started'' \<Longrightarrow> lock_view i (add_event j ev db) = lock_view i db"
  by (simp add: lock_view_def add_event_def)

lemma view_started [view]: "j \<noteq> i \<Longrightarrow> lock_view i (add_event j ev db) = lock_view i db"
  by (simp add: lock_view_def add_event_def)

lemma view_tables [view]:
  "lock_view i (db\<lparr>db_tasks := a\<rparr>) = lock_view i db" "lock_view i (db\<lparr>db_steps := b\<rparr>) = lock_view i db"
  "lock_view i (db\<lparr>db_leases := d\<rparr>) = lock_view i db" "lock_view i (db\<lparr>db_replay := e\<rparr>) = lock_view i db"
  "lock_view i (db\<lparr>db_trigs := f\<rparr>) = lock_view i db" "lock_view i (db\<lparr>db_queue := g\<rparr>) = lock_view i db"
  "lock_view i (db\<lparr>db_runs := h\<rparr>) = lock_view i db" "lock_view i (db\<lparr>db_next := n\<rparr>) = lock_view i db"
  "lock_view i (db\<lparr>db_wflocks := l\<rparr>) = lock_view i db"
  by (simp_all add: lock_view_def)

lemma view_billing [view]: "lock_view i (record_billing ws j ev now db) = lock_view i db"
  by (simp add: record_billing_def lock_view_def add_daily_def Let_def split: option.splits)

lemma view_enqueue [view]: "lock_view i (enqueue_run_job j db) = lock_view i db"
  by (simp add: enqueue_run_job_def view)

lemma view_insert [view]: "lock_view i (insert_run r db) = lock_view i db"
  by (simp add: insert_run_def view)

lemma view_fold: "(\<And>x db. lock_view i (f x db) = lock_view i db) \<Longrightarrow> lock_view i (fold f xs db) = lock_view i db"
  by (induction xs arbitrary: db) simp_all

lemma view_fire: "lock_view i (snd (fire_due_triggers now db)) = lock_view i db"
proof -
  have a: "lock_view i (snd (advance_trigger t c now d)) = lock_view i d" for t c d
    by (simp add: advance_trigger_def view split: option.splits)
  have f: "lock_view i (snd (fire_trigger now gw d)) = lock_view i d" for gw d
    by (simp add: fire_trigger_def Let_def a view del: js.simps split: option.splits)
  have "lock_view i (snd (loop_until_error (fire_trigger now) xs d)) = lock_view i d" for xs d
  proof (induction xs arbitrary: d)
    case (Cons x xs)
    obtain b e where e: "fire_trigger now x d = (b, e)" by fastforce
    then show ?case using f [of x d] Cons.IH [of e] by (cases b) simp_all
  qed simp
  then show ?thesis by (simp add: fire_due_triggers_def)
qed

lemma view_tick: "lock_view i (tick_once now db) = lock_view i db"
proof -
  obtain b d where d: "fire_due_triggers now db = (b, d)" by fastforce
  have v: "lock_view i d = lock_view i db" using view_fire [of i now db] by (simp add: d)
  have 1: "lock_view i (resume_delays now d) = lock_view i d" for d
    unfolding resume_delays_def by (rule view_fold) (simp add: resume_one_def Let_def view)
  have 2: "lock_view i (check_approval_timeouts now d) = lock_view i d" for d
    unfolding check_approval_timeouts_def
    by (rule view_fold) (simp add: timeout_task_def Let_def close_paused_step_def set_task_def requeue_def view split: option.splits)
  have 3: "lock_view i (stale_sweep now d) = lock_view i d" for d
    unfolding stale_sweep_def Let_def by (subst view_fold) (simp_all add: recover_one_def view)
  have 4: "lock_view i (requeue_stuck d) = lock_view i d" for d
    unfolding requeue_stuck_def by (rule view_fold) (simp add: view)
  have 5: "lock_view i (queue_timeout now d) = lock_view i d" for d
    unfolding queue_timeout_def by (subst view_fold) (simp_all add: view)
  have 6: "lock_view i (concurrency_retry d) = lock_view i d" for d
    unfolding concurrency_retry_def by (rule view_fold) (simp add: promote_one_def view split: option.splits)
  have 7: "lock_view i (clean_logs now d) = lock_view i d" for d
    by (simp add: clean_logs_def lock_view_def)
  show ?thesis using v by (cases b) (simp_all add: tick_once_def d reconcile_def 1 2 3 4 5 6 7)
qed

lemma view_job: "i \<in> set (db_locks db) \<Longrightarrow> lock_view i (process_job j res t0 t1 db) = lock_view i db"
proof -
  assume i: "i \<in> set (db_locks db)"
  have e: "lock_view i (executor_end j x t d) = lock_view i d" for x t d
    by (simp add: executor_end_def Let_def view split: run_result.split)
  have b: "lock_view i d1 = lock_view i d" if "executor_begin j t d = Some d1" "j \<noteq> i" for t d d1
    using that by (auto simp: executor_begin_def view split: option.splits if_splits)
  have l: "lock_view i (d\<lparr>db_locks := filter (\<lambda>k. k \<noteq> j) (db_locks d)\<rparr>) = lock_view i d" if "j \<noteq> i" for d
    using that by (simp add: lock_view_def)
  have a: "lock_view i (d\<lparr>db_locks := db_locks d @ [j]\<rparr>) = lock_view i d" if "j \<noteq> i" for d
    using that by (simp add: lock_view_def)
  have x: "lock_view i (execute_workflow_run j x t0 t1 d) = lock_view i d" if "i \<in> set (db_locks d)" for x d
    using that b [of t0 "d\<lparr>db_locks := db_locks d @ [j]\<rparr>"]
    by (cases "j = i") (auto simp: execute_workflow_run_def Let_def l e a split: option.splits)
  have s: "lock_view i d = lock_view i db" if "job_start j t0 db = Some d" for d
    using that by (auto simp: job_start_def acquire_workflow_lock_def view split: option.splits if_splits)
  have "lock_view i (job_body j res t0 t1 d) = lock_view i db" if "job_start j t0 db = Some d" for d
  proof -
    have "i \<in> set (db_locks d)" using s [OF that] i by (simp add: lock_view_def)
    from x [OF this] show ?thesis by (cases res) (simp_all add: job_body_def view s [OF that])
  qed
  then show ?thesis by (simp add: process_job_def release_workflow_lock_def view split: option.splits)
qed

text \<open>
  When a worker dies in an execution, its lock row stays, and as long as nobody cancels the run
  no tick and no job of any worker ever executes it again.
\<close>

theorem crashed_run_never_executed:
  assumes "i \<in> set (db_locks a)" "server_step\<^sup>*\<^sup>* a b"
  shows "count_list (db_events b) (i, ''run.started'') = count_list (db_events a) (i, ''run.started'') \<and> i \<in> set (db_locks b)"
proof -
  have "lock_view i b = lock_view i a"
    using assms(2)
  proof (induction rule: rtranclp_induct)
    case (step y z)
    then have "i \<in> set (db_locks y)" using assms(1) by (simp add: lock_view_def)
    with step show ?case by (auto elim!: server_step.cases simp: view_tick view_job)
  qed simp
  with assms(1) show ?thesis by (simp add: lock_view_def)
qed

text \<open>The store as it is when the worker dies in run 0.\<close>

definition ex_crash :: store where
  "ex_crash = (case executor_begin 0 1 (ex_start\<lparr>db_locks := [0]\<rparr>) of Some d \<Rightarrow> d | None \<Rightarrow> ex_start)"

theorem crashed_run_never_executed_witness:
  "count_list (db_events (process_job 0 (Some EndSucceeded) 99 100 (tick_once 98 ex_crash))) (0, ''run.started'')
     = count_list (db_events ex_crash) (0, ''run.started'')"
proof -
  have "0 \<in> set (db_locks ex_crash)"
    by (simp add: ex_crash_def executor_begin_def find_run_def ex_start_tables ex_start_run is_terminal_status_def
        add_event_def update_run_def update_runs_def)
  moreover have "server_step\<^sup>*\<^sup>* ex_crash (process_job 0 (Some EndSucceeded) 99 100 (tick_once 98 ex_crash))"
    by (rule rtranclp.rtrancl_into_rtrancl [where b = "tick_once 98 ex_crash"], rule r_into_rtranclp) (rule server_step.intros)+
  ultimately show ?thesis using crashed_run_never_executed by blast
qed

end
