(* ===== verification/Hooks.thy ===== *)
theory Hooks
  imports RunProps ExecProps
begin

text \<open>
  The webhook ingress, \<open>apps/server/src/routes/webhooks.ts\<close>: the endpoint of a path, the check of the
  caller, the payload, the mapping of inputs, and the handler around \<open>webhook_ingress\<close> (theory
  \<open>RunRoutes\<close>) with its synchronous mode.

  SHA-256, HMAC, \<open>toLowerCase\<close>, \<open>JSON.parse\<close>, the date format, the vault and the tables a request only
  reads are the record \<open>hook_env\<close>; a secret that cannot be decrypted is \<open>Some None\<close>.  Header names are
  in lower case, as the server gives them.
\<close>

record hook_trigger =
  ht_row :: trigger_row
  ht_path :: "jstr option"
  ht_mode :: "jstr option"
  ht_secret :: "jstr option"
  ht_auth_header :: "jstr option"
  ht_auth_secret :: "jstr option"
  ht_require :: "bool option"
  ht_sync :: bool
  ht_mapping :: entries

record hook_env =
  hw_sha :: "jstr \<Rightarrow> jstr"
  hw_hmac :: "jstr \<Rightarrow> jstr \<Rightarrow> jstr"
  hw_lower :: "jstr \<Rightarrow> jstr"
  hw_json :: "jstr \<Rightarrow> jsval option"
  hw_iso :: "int \<Rightarrow> jstr"
  hw_uuid :: "jstr \<Rightarrow> nat option"
  hw_slugs :: "(jstr \<times> nat) list"
  hw_triggers :: "hook_trigger list"
  hw_secrets :: "nat \<Rightarrow> jstr \<Rightarrow> jstr option option"
  hw_required :: "nat \<Rightarrow> jstr list"

record hook_request =
  hr_slug :: jstr
  hr_path :: jstr
  hr_headers :: "(jstr \<times> jstr) list"
  hr_raw :: "jstr option"
  hr_body :: jsval

datatype hook_answer =
    HookError nat string
  | HookAccepted nat string
  | HookReply nat entries jsval

section \<open>The endpoint\<close>

definition hook_workspace :: "hook_env \<Rightarrow> jstr \<Rightarrow> nat option" where
  "hook_workspace e slug = (case hw_uuid e slug of Some ws \<Rightarrow> Some ws | None \<Rightarrow> map_of (hw_slugs e) slug)"

definition hook_endpoint :: "hook_env \<Rightarrow> nat \<Rightarrow> jstr \<Rightarrow> store \<Rightarrow> (hook_trigger \<times> workflow) option" where
  "hook_endpoint e ws path db =
     (case concat (map (\<lambda>t. case List.find (\<lambda>w. wf_id w = tg_wf (ht_row t)) (db_wfs db) of
                              None \<Rightarrow> []
                            | Some w \<Rightarrow> if wf_ws w = ws \<and> tg_enabled (ht_row t) \<and> ht_path t = Some path then [(t, w)] else [])
             (hw_triggers e)) of
        [] \<Rightarrow> None
      | x # _ \<Rightarrow> Some x)"

definition raw_body :: "hook_request \<Rightarrow> jstr" where
  "raw_body rq = (case hr_raw rq of Some s \<Rightarrow> s | None \<Rightarrow> if nullish (hr_body rq) Null = Null then [] else json_text (hr_body rq))"

section \<open>The caller\<close>

text \<open>\<open>lookupSecret\<close>: \<open>None\<close> when decrypting throws, \<open>Some None\<close> when there is no such secret.\<close>

definition lookup_hook_secret :: "hook_env \<Rightarrow> nat \<Rightarrow> jstr option \<Rightarrow> jstr option option" where
  "lookup_hook_secret e ws name =
     (case nonempty name of
        None \<Rightarrow> Some None
      | Some n \<Rightarrow> (case hw_secrets e ws n of None \<Rightarrow> Some None | Some None \<Rightarrow> None | Some (Some s) \<Rightarrow> Some (Some s)))"

definition TIMESTAMP_TOLERANCE_S :: rat where "TIMESTAMP_TOLERANCE_S = 300"

definition timestamp_ok :: "int \<Rightarrow> jstr \<Rightarrow> bool" where
  "timestamp_ok now ts =
     (case parse_int10 ts of
        NaN \<Rightarrow> False | Infinity _ \<Rightarrow> False
      | n \<Rightarrow> \<not> js_less (Num TIMESTAMP_TOLERANCE_S) (math_abs (js_sub (js_div (Num (of_int now)) (Num 1000)) n)))"

definition signature :: "hook_env \<Rightarrow> jstr \<Rightarrow> jstr \<Rightarrow> jstr \<Rightarrow> jstr" where
  "signature e secret ts raw = js ''sha256='' @ hw_hmac e secret (ts @ [10] @ raw)"

definition header_or_empty :: "hook_request \<Rightarrow> jstr \<Rightarrow> jstr" where
  "header_or_empty rq h = (case map_of (hr_headers rq) h of Some v \<Rightarrow> v | None \<Rightarrow> [])"

text \<open>\<open>None\<close> lets the request through.\<close>

definition hmac_auth :: "hook_env \<Rightarrow> nat \<Rightarrow> hook_trigger \<Rightarrow> hook_request \<Rightarrow> int \<Rightarrow> refused option" where
  "hmac_auth e ws t rq now =
     (case nonempty (map_of (hr_headers rq) (js ''x-flowforge-timestamp'')) of
        None \<Rightarrow> Some (401, ''timestamp_missing'')
      | Some ts \<Rightarrow>
         if \<not> timestamp_ok now ts then Some (401, ''timestamp_out_of_tolerance'')
         else case lookup_hook_secret e ws (ht_secret t) of
           None \<Rightarrow> Some (500, ''internal_error'')
         | Some s \<Rightarrow>
            (case nonempty s of
               None \<Rightarrow> Some (401, ''invalid_signature'')
             | Some secret \<Rightarrow>
                if header_or_empty rq (js ''x-flowforge-signature'') = signature e secret ts (raw_body rq) then None
                else Some (401, ''invalid_signature'')))"

definition header_auth :: "hook_env \<Rightarrow> nat \<Rightarrow> hook_trigger \<Rightarrow> hook_request \<Rightarrow> refused option" where
  "header_auth e ws t rq =
     (case lookup_hook_secret e ws (ht_auth_secret t) of
        None \<Rightarrow> Some (500, ''internal_error'')
      | Some s \<Rightarrow>
         (case (nonempty (ht_auth_header t), nonempty s) of
            (Some h, Some secret) \<Rightarrow>
              if header_or_empty rq (hw_lower e h) = secret then None else Some (401, ''invalid_signature'')
          | _ \<Rightarrow> Some (401, ''invalid_signature'')))"

definition hook_auth :: "hook_env \<Rightarrow> nat \<Rightarrow> hook_trigger \<Rightarrow> hook_request \<Rightarrow> int \<Rightarrow> refused option" where
  "hook_auth e ws t rq now =
     (let mode = (case ht_mode t of None \<Rightarrow> js ''hmac'' | Some m \<Rightarrow> m) in
      if mode = js ''hmac'' \<and> ht_require t \<noteq> Some False then hmac_auth e ws t rq now
      else if mode = js ''header'' then header_auth e ws t rq
      else None)"

section \<open>The payload and the inputs\<close>

definition hook_payload :: "hook_env \<Rightarrow> hook_request \<Rightarrow> jsval" where
  "hook_payload e rq =
     (if str_includes (hw_lower e (header_or_empty rq (js ''content-type''))) (js ''application/json'')
      then (if raw_body rq \<noteq> [] then (case hw_json e (raw_body rq) of Some v \<Rightarrow> v | None \<Rightarrow> Null)
            else nullish (hr_body rq) Null)
      else Null)"

text \<open>\<open>replace(/^\{\{\s*|\s*\}\}$/g, '')\<close>.\<close>

definition strip_braces :: "jstr \<Rightarrow> jstr" where
  "strip_braces s =
     (let a = (if starts_with s (js ''{{'') then dropWhile is_space (drop 2 s) else s)
      in if ends_with a (js ''}}'') then rev (dropWhile is_space (drop 2 (rev a))) else a)"

definition array_names :: "jstr list" where
  "array_names = map js
     [''at'', ''concat'', ''copyWithin'', ''fill'', ''find'', ''findIndex'', ''findLast'', ''findLastIndex'', ''lastIndexOf'',
      ''pop'', ''push'', ''reverse'', ''shift'', ''unshift'', ''slice'', ''sort'', ''splice'', ''includes'', ''indexOf'',
      ''join'', ''keys'', ''entries'', ''values'', ''forEach'', ''filter'', ''flat'', ''flatMap'', ''map'', ''every'', ''some'',
      ''reduce'', ''reduceRight'', ''toReversed'', ''toSorted'', ''toSpliced'', ''with'']"

text \<open>\<open>current[part]\<close> of a value that \<open>typeof\<close> calls an object.\<close>

definition object_member :: "jsval \<Rightarrow> jstr \<Rightarrow> jsval option" where
  "object_member v k =
     (case v of
        JObj kvs \<Rightarrow> Some (get_member kvs k)
      | JArr xs \<Rightarrow> Some (if k = js ''length'' then JNum (Num (of_nat (length xs)))
                         else if k \<noteq> [] \<and> is_index_key k then (if digits_val k < length xs then xs ! digits_val k else Undefined)
                         else if k \<in> set array_names then Builtin k
                         else if k = js ''constructor'' then Builtin (js ''Array'')
                         else if k = proto_name then ObjectProto else inherited k)
      | ObjectProto \<Rightarrow> Some (proto_member k)
      | _ \<Rightarrow> None)"

fun extract_parts :: "jsval \<Rightarrow> jstr list \<Rightarrow> jsval" where
  "extract_parts v [] = nullish v Null"
| "extract_parts v (p # ps) = (case object_member v p of None \<Rightarrow> Null | Some w \<Rightarrow> extract_parts w ps)"

definition extract_value :: "jsval \<Rightarrow> jstr \<Rightarrow> jsval" where
  "extract_value v path = (if nullish v Null = Null then Null else extract_parts v (str_split path (js ''.'')))"

definition mapped_value :: "jsval \<Rightarrow> jstr \<Rightarrow> jsval" where
  "mapped_value payload source =
     (let n = strip_braces source in
      if n = js ''trigger.type'' then JStr (js ''webhook'')
      else if n = js ''trigger.payload'' then payload
      else if starts_with n (js ''trigger.payload.'') then extract_value payload (drop 16 n)
      else if starts_with n (js ''trigger.'') then Null
      else extract_value payload n)"

definition map_inputs :: "entries \<Rightarrow> jsval \<Rightarrow> entries" where
  "map_inputs mapping payload =
     (let ins = fold (\<lambda>(k, v) acc. case v of JStr s \<Rightarrow> put k (nullish (mapped_value payload s) Null) acc | _ \<Rightarrow> acc)
                  (own_entries mapping) []
      in if ins = [] then [(js ''body'', payload)] else ins)"

definition required_missing :: "jstr list \<Rightarrow> entries \<Rightarrow> bool" where
  "required_missing names ins = list_ex (\<lambda>(k, v). v = Null \<and> k \<in> set names) ins"

definition hook_state :: "hook_env \<Rightarrow> entries \<Rightarrow> jsval \<Rightarrow> int \<Rightarrow> jstr" where
  "hook_state e ins payload now =
     json_text (JObj [(js ''inputs'', JObj ins), (js ''trigger'', JObj [(js ''type'', JStr (js ''webhook'')), (js ''payload'', payload),
       (js ''scheduled_at'', JStr (hw_iso e now))])])"

section \<open>The synchronous mode\<close>

definition fresh_state :: run_state where
  "fresh_state = \<lparr>st_outputs = [], st_status = [], st_done = [], st_iter = [], st_delay = None, st_approval = None,
     st_reply = None, st_failed = False, st_elapsed = 0\<rparr>"

definition fresh_machine :: "store \<Rightarrow> machine" where
  "fresh_machine db = \<lparr>m_db = db, m_st = fresh_state, m_net = \<lparr>sent = [], slept = []\<rparr>, m_log = [], m_outbox = [], m_inbox = [],
     m_reads = 0\<rparr>"

text \<open>\<open>runner\<close> gives the environment of an execution and the steps of its version.\<close>

definition execute_inline ::
  "(nat \<Rightarrow> 'dt exec_env \<times> step list) \<Rightarrow> nat \<Rightarrow> int \<Rightarrow> int \<Rightarrow> store \<Rightarrow> (string \<times> jsval option) \<times> store" where
  "execute_inline runner i t0 t1 db =
     (if i \<in> set (db_locks db) then ((''running'', None), db)
      else let unlock = (\<lambda>d. d\<lparr>db_locks := filter (\<lambda>j. j \<noteq> i) (db_locks d)\<rparr>)
           in case do_execute_run (fst (runner i)) (snd (runner i)) t0 t1 (fresh_machine (db\<lparr>db_locks := db_locks db @ [i]\<rparr>)) of
                None \<Rightarrow> ((''queued'', None), db)
              | Some (res, m) \<Rightarrow>
                 ((case res of
                     EndWaiting _ \<Rightarrow> (''waiting'', None) | EndPaused \<Rightarrow> (''paused'', None)
                   | EndSucceeded \<Rightarrow> (''succeeded'', st_reply (m_st m)) | EndFailed _ \<Rightarrow> (''failed'', st_reply (m_st m))),
                  unlock (m_db m)))"

definition reply_status :: "jsval \<Rightarrow> nat" where
  "reply_status v =
     (case v of JNum (Num q) \<Rightarrow> if 200 \<le> q \<and> q < 600 then nat (floor q) else 200 | _ \<Rightarrow> 200)"

definition reply_answer :: "jsval \<Rightarrow> hook_answer" where
  "reply_answer v =
     (case v of
        JObj kvs \<Rightarrow> HookReply (reply_status (get_member kvs (js ''status'')))
                      (case get_member kvs (js ''headers'') of JObj hs \<Rightarrow> hs | _ \<Rightarrow> [])
                      (nullish (get_member kvs (js ''body'')) (JStr []))
      | _ \<Rightarrow> HookReply 200 [] (JStr []))"

section \<open>The handler\<close>

definition handle_webhook ::
  "hook_env \<Rightarrow> (nat \<Rightarrow> 'dt exec_env \<times> step list) \<Rightarrow> hook_request \<Rightarrow> int \<Rightarrow> int \<Rightarrow> store \<Rightarrow> hook_answer \<times> store" where
  "handle_webhook e runner rq now t1 db =
     (case hook_workspace e (hr_slug rq) of
        None \<Rightarrow> (HookError 404 ''webhook_not_found'', db)
      | Some ws \<Rightarrow>
        (case hook_endpoint e ws (hr_path rq) db of
           None \<Rightarrow> (HookError 404 ''webhook_not_found'', db)
         | Some (t, w) \<Rightarrow>
            if \<not> wf_enabled w then (HookError 410 ''workflow_disabled'', db)
            else case hook_auth e ws t rq now of
              Some (c, code) \<Rightarrow> (HookError c code, db)
            | None \<Rightarrow>
               let payload = hook_payload e rq; ins = map_inputs (ht_mapping t) payload;
                   client = nonempty (map_of (hr_headers rq) (js ''x-flowforge-idempotency-key''))
               in case webhook_ingress (hw_sha e) ws (ht_row t) (raw_body rq) client (hook_state e ins payload now)
                         (\<lambda>v. required_missing (hw_required e v) ins) (ht_sync t) now db of
                    (Inl (c, code), db1) \<Rightarrow> (HookError c code, db1)
                  | (Inr i, db1) \<Rightarrow>
                     if \<not> ht_sync t then (HookAccepted i ''queued'', db1)
                     else case execute_inline runner i now t1 db1 of
                       ((st, Some v), db2) \<Rightarrow> (reply_answer v, db2)
                     | ((st, None), db2) \<Rightarrow> (HookAccepted i st, db2)))"

section \<open>The caller of a run\<close>

lemma hook_auth_hmac:
  assumes "hook_auth e ws t rq now = None" "ht_mode t = None \<or> ht_mode t = Some (js ''hmac'')" "ht_require t \<noteq> Some False"
  shows "\<exists>ts secret. map_of (hr_headers rq) (js ''x-flowforge-timestamp'') = Some ts \<and> timestamp_ok now ts \<and>
    lookup_hook_secret e ws (ht_secret t) = Some (Some secret) \<and> secret \<noteq> [] \<and>
    header_or_empty rq (js ''x-flowforge-signature'') = signature e secret ts (raw_body rq)"
proof -
  have "hmac_auth e ws t rq now = None"
    using assms by (auto simp: hook_auth_def simp del: js.simps)
  then show ?thesis
    by (auto simp: hmac_auth_def nonempty_def simp del: js.simps split: option.splits list.splits if_splits)
qed

text \<open>
  C5: a delivery writes nothing unless it names the path of an enabled webhook of an enabled
  workflow and its caller passes the check of that webhook: in the mode \<open>hmac\<close> its signature is the
  one of the timestamp and the body under the webhook's secret, and the timestamp is within the
  tolerance.
\<close>

theorem delivery_authenticated:
  assumes "handle_webhook e runner rq now t1 db = (ans, db')" "db' \<noteq> db"
  shows "\<exists>ws t w. hook_workspace e (hr_slug rq) = Some ws \<and> hook_endpoint e ws (hr_path rq) db = Some (t, w) \<and>
    wf_enabled w \<and> hook_auth e ws t rq now = None \<and>
    ((ht_mode t = None \<or> ht_mode t = Some (js ''hmac'')) \<and> ht_require t \<noteq> Some False \<longrightarrow>
      (\<exists>ts secret. map_of (hr_headers rq) (js ''x-flowforge-timestamp'') = Some ts \<and> timestamp_ok now ts \<and>
         lookup_hook_secret e ws (ht_secret t) = Some (Some secret) \<and> secret \<noteq> [] \<and>
         header_or_empty rq (js ''x-flowforge-signature'') = signature e secret ts (raw_body rq)))"
proof -
  obtain ws where ws: "hook_workspace e (hr_slug rq) = Some ws"
    using assms by (auto simp: handle_webhook_def split: option.splits)
  obtain t w where tw: "hook_endpoint e ws (hr_path rq) db = Some (t, w)"
    using assms by (auto simp: handle_webhook_def ws split: option.splits)
  have en: "wf_enabled w" and au: "hook_auth e ws t rq now = None"
    using assms by (auto simp: handle_webhook_def ws tw split: option.splits if_splits)
  show ?thesis using ws tw en au hook_auth_hmac [OF au] by blast
qed

section \<open>Replays\<close>

definition ex_hook_env :: "(jstr \<Rightarrow> jstr \<Rightarrow> jstr) \<Rightarrow> hook_env" where
  "ex_hook_env hm = \<lparr>hw_sha = (\<lambda>x. x), hw_hmac = hm, hw_lower = ascii_lower, hw_json = (\<lambda>_. None), hw_iso = (\<lambda>_. []),
     hw_uuid = (\<lambda>_. None), hw_slugs = [(js ''w'', 1)],
     hw_triggers = [\<lparr>ht_row = ex_trig 1, ht_path = Some (js ''in''), ht_mode = None, ht_secret = Some (js ''s''),
       ht_auth_header = None, ht_auth_secret = None, ht_require = None, ht_sync = False, ht_mapping = []\<rparr>],
     hw_secrets = (\<lambda>_ _. Some (Some (js ''k''))), hw_required = (\<lambda>_. [])\<rparr>"

definition ex_delivery :: "(jstr \<Rightarrow> jstr \<Rightarrow> jstr) \<Rightarrow> (jstr \<times> jstr) list \<Rightarrow> hook_request" where
  "ex_delivery hm key = \<lparr>hr_slug = js ''w'', hr_path = js ''in'',
     hr_headers = [(js ''x-flowforge-timestamp'', js ''0''),
                   (js ''x-flowforge-signature'', signature (ex_hook_env hm) (js ''k'') (js ''0'') (js ''a''))] @ key,
     hr_raw = Some (js ''a''), hr_body = Null\<rparr>"

lemma ex_delivery_auth:
  assumes "timestamp_ok now (js ''0'')"
  shows "hook_auth (ex_hook_env hm) ws (hd (hw_triggers (ex_hook_env hm))) (ex_delivery hm key) now = None"
  using assms
  by (simp add: hook_auth_def hmac_auth_def ex_hook_env_def ex_delivery_def lookup_hook_secret_def nonempty_def header_or_empty_def
      raw_body_def signature_def)

definition key_header :: "jstr \<Rightarrow> (jstr \<times> jstr) list" where
  "key_header k = (if k = [] then [] else [(js ''x-flowforge-idempotency-key'', k)])"

definition answered :: "(refused + nat) \<times> store \<Rightarrow> hook_answer \<times> store" where
  "answered r = (case r of (Inl (c, code), db) \<Rightarrow> (HookError c code, db) | (Inr i, db) \<Rightarrow> (HookAccepted i ''queued'', db))"

lemma handle_open:
  assumes "hook_workspace e (hr_slug rq) = Some ws" "hook_endpoint e ws (hr_path rq) db = Some (t, w)" "wf_enabled w"
    and "hook_auth e ws t rq now = None" "\<not> ht_sync t"
  shows "handle_webhook e runner rq now t1 db =
    (let payload = hook_payload e rq; ins = map_inputs (ht_mapping t) payload in
     answered (webhook_ingress (hw_sha e) ws (ht_row t) (raw_body rq)
       (nonempty (map_of (hr_headers rq) (js ''x-flowforge-idempotency-key''))) (hook_state e ins payload now)
       (\<lambda>v. required_missing (hw_required e v) ins) False now db))"
  using assms by (auto simp: handle_webhook_def answered_def Let_def simp del: js.simps split: sum.split prod.split)

definition ex_pro :: store where
  "ex_pro = ex_store\<lparr>db_plans := [(1, ''pro'')]\<rparr>"

lemma ex_delivery_handled:
  assumes "timestamp_ok now (js ''0'')" "db_wfs db = db_wfs ex_store"
  shows "\<exists>inp. handle_webhook (ex_hook_env hm) runner (ex_delivery hm (key_header k)) now t1 db =
    answered (webhook_ingress (\<lambda>x. x) 1 (ex_trig 1) (js ''a'') (if k = [] then None else Some k) inp (\<lambda>_. False) False now db)"
proof -
  let ?e = "ex_hook_env hm" and ?rq = "ex_delivery hm (key_header k)"
  have ws: "hook_workspace ?e (hr_slug ?rq) = Some 1"
    by (simp add: hook_workspace_def ex_hook_env_def ex_delivery_def)
  have ep: "hook_endpoint ?e 1 (hr_path ?rq) db = Some (hd (hw_triggers ?e), hd (db_wfs ex_store))"
    by (simp add: hook_endpoint_def ex_hook_env_def ex_delivery_def assms(2) ex_store_def ex_trig_def)
  have c: "nonempty (map_of (hr_headers ?rq) (js ''x-flowforge-idempotency-key'')) = (if k = [] then None else Some k)"
    by (cases k) (simp_all add: ex_delivery_def key_header_def nonempty_def)
  have r: "(\<lambda>v. required_missing (hw_required ?e v) ins) = (\<lambda>_. False)" for ins
    by (auto simp: required_missing_def ex_hook_env_def list_ex_iff)
  have s: "hw_sha ?e = (\<lambda>x. x)" "raw_body ?rq = js ''a''" "ht_row (hd (hw_triggers ?e)) = ex_trig 1"
    by (simp_all add: ex_hook_env_def ex_delivery_def raw_body_def)
  have "wf_enabled (hd (db_wfs ex_store))" "\<not> ht_sync (hd (hw_triggers ?e))"
    by (simp_all add: ex_store_def ex_hook_env_def)
  from handle_open [OF ws ep this(1) ex_delivery_auth [OF assms(1)] this(2), of runner t1]
  show ?thesis unfolding c r s Let_def by blast
qed

definition hook_key :: "jstr \<Rightarrow> jstr" where
  "hook_key h = get_idempotency_key (\<lambda>x. x) (js ''webhook'') 1 h"

lemma pro_admits:
  assumes "db_plans db = [(1, ''pro'')]" "active_count 1 db \<le> 1" "\<not> key_taken 1 (hook_key h) db"
    and "db_wfs db = db_wfs ex_store" "webhook_replay_hash (\<lambda>x. x) body client = h" "map_of (db_replay db) (1, 1, h) = None"
  shows "webhook_ingress (\<lambda>x. x) 1 (ex_trig 1) body client inp (\<lambda>_. False) False now db =
    (Inr (db_next db), enqueue_run_job (db_next db)
       (insert_run (new_run 1 1 1 (Some 1) (hook_key h) inp now (timeout_of (Some pro) now) False db) (db\<lparr>db_replay := db_replay db @ [((1, 1, h), now)]\<rparr>)))"
proof -
  let ?d = "db\<lparr>db_replay := db_replay db @ [((1, 1, h), now)]\<rparr>"
  have p: "plan_of_ws 1 ?d = Some pro"
    using assms(1) by (simp add: plan_of_ws_def get_plan_definition_def plan_defs)
  have c: "over_concurrency (Some pro) (active_count 1 db) = False" "over_run_cap (Some pro) n = False" for n
    using assms(2) by (simp_all add: over_concurrency_def over_run_cap_def has_hard_run_cap_def rate_of_def pro_def)
  have n: "new_run 1 1 1 (Some 1) (hook_key h) inp now t False ?d = new_run 1 1 1 (Some 1) (hook_key h) inp now t False db" for t
    by (simp add: new_run_def)
  have w: "List.find (\<lambda>x. wf_id x = tg_wf (ex_trig 1)) (db_wfs db) = Some (hd (db_wfs ex_store))"
    "wf_version (hd (db_wfs ex_store)) = Some 1" "tg_wf (ex_trig 1) = 1" "tg_id (ex_trig 1) = 1"
    using assms(4) by (simp_all add: ex_store_def ex_trig_def)
  show ?thesis
    using assms(3,5,6) p c n w
    by (simp add: webhook_ingress_def Let_def hook_key_def del: js.simps One_nat_def)
qed

lemma ex_timestamps: "timestamp_ok 0 (js ''0'')" "timestamp_ok 9000 (js ''0'')"
  using round_double_int [of 9]
  by (simp_all add: timestamp_ok_def parse_int10_def trim_start_def is_space_def is_digit_def digits_val_def digit_val_def
      TIMESTAMP_TOLERANCE_S_def js_div_def js_sub_def sign_neg_def round_double_def [of 0] signed_zero_def)

definition ex_first :: "jstr \<Rightarrow> store" where
  "ex_first inp = enqueue_run_job 0 (insert_run (new_run 1 1 1 (Some 1) (hook_key (js ''a'')) inp 0 (timeout_of (Some pro) 0) False ex_pro)
     (ex_pro\<lparr>db_replay := [((1, 1, js ''a''), 0)]\<rparr>))"

lemma ex_first_handled:
  "\<exists>inp. handle_webhook (ex_hook_env hm) runner (ex_delivery hm []) 0 t1 ex_pro = (HookAccepted 0 ''queued'', ex_first inp)"
proof -
  have k: "key_header [] = []" by (simp add: key_header_def)
  have w: "db_wfs ex_pro = db_wfs ex_store" by (simp add: ex_pro_def)
  obtain inp where 1: "handle_webhook (ex_hook_env hm) runner (ex_delivery hm []) 0 t1 ex_pro =
      answered (webhook_ingress (\<lambda>x. x) 1 (ex_trig 1) (js ''a'') None inp (\<lambda>_. False) False 0 ex_pro)"
    using ex_delivery_handled [OF ex_timestamps(1) w, of hm runner "[]" t1] by (auto simp: k simp del: js.simps One_nat_def)
  have "webhook_ingress (\<lambda>x. x) 1 (ex_trig 1) (js ''a'') None inp (\<lambda>_. False) False 0 ex_pro = (Inr 0, ex_first inp)"
    using pro_admits [of ex_pro "js ''a''" "js ''a''" None inp 0]
    by (auto simp: ex_first_def ex_pro_def ex_store_def active_count_def key_taken_def webhook_replay_hash_def simp del: js.simps One_nat_def)
  with 1 show ?thesis by (auto simp: answered_def)
qed


lemma ex_first_new: "ex_first inp \<noteq> ex_pro"
proof
  assume "ex_first inp = ex_pro"
  then have "db_next (ex_first inp) = db_next ex_pro" by simp
  then show False
    by (simp add: ex_first_def enqueue_run_job_def insert_run_def add_event_def update_run_def update_runs_def)
qed

theorem delivery_authenticated_witness:
  "\<exists>t w. hook_endpoint (ex_hook_env (\<lambda>_ b. b)) 1 (js ''in'') ex_pro = Some (t, w) \<and>
     hook_auth (ex_hook_env (\<lambda>_ b. b)) 1 t (ex_delivery (\<lambda>_ b. b) []) 0 = None"
proof -
  let ?runner = "\<lambda>_. (sample_env, [log_demo])"
  obtain db1 where h: "handle_webhook (ex_hook_env (\<lambda>_ b. b)) ?runner (ex_delivery (\<lambda>_ b. b) []) 0 0 ex_pro = (HookAccepted 0 ''queued'', db1)"
    and n: "db1 \<noteq> ex_pro"
    using ex_first_handled by (metis ex_first_new)
  from delivery_authenticated [OF h n] show ?thesis
    by (auto simp: ex_delivery_def ex_hook_env_def hook_workspace_def)
qed

end
