(* ===== verification/Secrets.thy ===== *)
theory Secrets
  imports ExecProps
begin

text \<open>
  The secrets of an execution: \<open>preloadWorkspaceSecrets\<close> of
  \<open>apps/server/src/services/run-executor.ts\<close>, the module variable it keeps, and what the context of an
  expression reads from it.

  The module variable and the global that the context reads are always written together, so they are
  one value here.  \<open>rows\<close> is the table \<open>webhook_secrets\<close>; a value that cannot be decrypted is \<open>None\<close>.
  The worker process runs \<open>FF_WORKER_CONCURRENCY\<close> executions at a time (\<open>services/queue.ts\<close>, four by
  default), which share the variable: an execution starts with one call and reads later, when
  other executions may have called in between.
\<close>

type_synonym secret_cache = "(nat \<times> entries) option"

type_synonym secret_rows = "nat \<Rightarrow> (jstr \<times> jstr option) list"

definition decrypted :: "(jstr \<times> jstr option) list \<Rightarrow> entries" where
  "decrypted rows = fold (\<lambda>(n, v) acc. case v of None \<Rightarrow> acc | Some s \<Rightarrow> put n (JStr s) acc) rows []"

definition preload_workspace_secrets :: "secret_rows \<Rightarrow> nat \<Rightarrow> secret_cache \<Rightarrow> secret_cache" where
  "preload_workspace_secrets rows ws c =
     (if map_option fst c = Some ws then c else Some (ws, decrypted (rows ws)))"

definition visible_secrets :: "secret_cache \<Rightarrow> entries option" where
  "visible_secrets c = map_option snd c"

text \<open>The environment of an execution in the workspace \<open>ws\<close>, at a moment when the variable is \<open>c\<close>.\<close>

definition env_at :: "'dt exec_env \<Rightarrow> nat \<Rightarrow> secret_cache \<Rightarrow> 'dt exec_env" where
  "env_at e ws c = e\<lparr>x_ws := ws, x_secrets := visible_secrets c\<rparr>"

section \<open>Lookups\<close>

lemma decrypted_fold:
  "name \<noteq> proto_name \<Longrightarrow> distinct (map fst rows) \<Longrightarrow>
   get_member (fold (\<lambda>(n, v) acc. case v of None \<Rightarrow> acc | Some s \<Rightarrow> put n (JStr s) acc) rows acc) name =
     (case map_of rows name of Some (Some s) \<Rightarrow> JStr s | _ \<Rightarrow> get_member acc name)"
proof (induction rows arbitrary: acc)
  case (Cons r rows)
  obtain n v where r: "r = (n, v)" by fastforce
  have "map_of rows n = None" using Cons.prems(2) by (simp add: r map_of_eq_None_iff)
  then show ?case
    using Cons.IH [of "case v of None \<Rightarrow> acc | Some s \<Rightarrow> put n (JStr s) acc"] Cons.prems
    by (auto simp: r get_member_put split: option.split)
qed simp

lemma decrypted_member:
  "name \<noteq> proto_name \<Longrightarrow> distinct (map fst rows) \<Longrightarrow> map_of rows name = Some (Some s) \<Longrightarrow>
   get_member (decrypted rows) name = JStr s"
  by (simp add: decrypted_def decrypted_fold)

lemma context_secrets:
  "secrets (build_eval_context (env_at e ws c) loop st) = SecretFun (secret_value (visible_secrets c))"
  by (simp add: build_eval_context_def env_at_def)

text \<open>
  When the secrets of a workspace \<open>a\<close> are loaded and nobody else starts an execution, an
  expression of \<open>a\<close> reads the secrets of \<open>a\<close>.
\<close>

theorem own_secrets:
  assumes "map_option fst c \<noteq> Some a" "map_of (rows a) name = Some (Some s)" "distinct (map fst (rows a))" "name \<noteq> proto_name"
  shows "\<exists>f. secrets (build_eval_context (env_at e a (preload_workspace_secrets rows a c)) loop st) = SecretFun f \<and> f (JStr name) = JStr s"
  using assms decrypted_member [OF assms(4,3,2)]
  by (simp add: context_secrets preload_workspace_secrets_def visible_secrets_def secret_value_def)

theorem own_secrets_witness:
  "\<exists>f. secrets (build_eval_context (env_at sample_env 1
      (preload_workspace_secrets (\<lambda>_. [(js ''K'', Some (js ''x''))]) 1 None)) Null (m_st sample_machine)) = SecretFun f \<and>
     f (JStr (js ''K'')) = JStr (js ''x'')"
  by (rule own_secrets) (simp_all add: proto_name_def)

text \<open>
  C2: an execution in the workspace \<open>a\<close> reads the secrets of the workspace \<open>b\<close> as soon as
  an execution in \<open>b\<close> has started in the same process: an expression of a manifest in \<open>a\<close> that asks for
  the name of a secret of \<open>b\<close> gets its plaintext.
\<close>

theorem secrets_of_other_workspace:
  assumes "a \<noteq> b" "map_of (rows b) name = Some (Some s)" "distinct (map fst (rows b))" "name \<noteq> proto_name"
  shows "\<exists>f. secrets (build_eval_context (env_at e a (preload_workspace_secrets rows b (preload_workspace_secrets rows a c))) loop st)
      = SecretFun f \<and> f (JStr name) = JStr s"
proof -
  have "map_option fst (preload_workspace_secrets rows a c) = Some a"
    by (simp add: preload_workspace_secrets_def)
  then have "preload_workspace_secrets rows b (preload_workspace_secrets rows a c) = Some (b, decrypted (rows b))"
    using assms(1) by (auto simp: preload_workspace_secrets_def [of rows b])
  then show ?thesis
    using decrypted_member [OF assms(4,3,2)] by (simp add: context_secrets visible_secrets_def secret_value_def)
qed

theorem secrets_of_other_workspace_witness:
  "\<exists>f. secrets (build_eval_context (env_at sample_env 1
      (preload_workspace_secrets (\<lambda>ws. if ws = 2 then [(js ''K'', Some (js ''private''))] else []) 2
        (preload_workspace_secrets (\<lambda>ws. if ws = 2 then [(js ''K'', Some (js ''private''))] else []) 1 None))) Null (m_st sample_machine))
     = SecretFun f \<and> f (JStr (js ''K'')) = JStr (js ''private'')"
  by (rule secrets_of_other_workspace) (simp_all add: proto_name_def)

text \<open>
  The cache has no expiry: a secret that is rotated, created or deleted while the process keeps running
  executions of one workspace only is never read again.
\<close>

lemma stale_secrets:
  "map_option fst c = Some ws \<Longrightarrow> preload_workspace_secrets rows ws c = c"
  by (simp add: preload_workspace_secrets_def)

end
