(* ===== verification/Outbox.thy ===== *)
theory Outbox
  imports Prelude
begin

text \<open>
  The dispatcher of the notification outbox, \<open>apps/server/src/services/notification-processor.ts\<close>: the
  claim of due rows, the ladder of pauses, the outcome of a send.

  A row is claimed with the values it has then; the updates after a send go to the table's row.  The
  times of a sweep are the claim's and one per send.  What the k-th send of a sweep does, and when it
  ends, is \<open>outcome k\<close>; the text of an error is dropped.
\<close>

datatype outbox_status = OPending | OSending | OSent | OFailed

record outbox_row =
  ob_id :: nat
  ob_status :: outbox_status
  ob_attempts :: nat
  ob_retry :: int
  ob_updated :: int

definition RECLAIM_AFTER :: int where "RECLAIM_AFTER = 60 * 1000"

definition OUTBOX_BACKOFF_MS :: "int list" where
  "OUTBOX_BACKOFF_MS = [30000, 120000, 600000, 3600000, 21600000]"

definition OUTBOX_MAX_ATTEMPTS :: nat where
  "OUTBOX_MAX_ATTEMPTS = length OUTBOX_BACKOFF_MS + 1"

definition next_retry_delay_ms :: "nat \<Rightarrow> int" where
  "next_retry_delay_ms failed = OUTBOX_BACKOFF_MS ! min (failed - 1) (length OUTBOX_BACKOFF_MS - 1)"

section \<open>A sweep\<close>

definition update_rows :: "(outbox_row \<Rightarrow> bool) \<Rightarrow> (outbox_row \<Rightarrow> outbox_row) \<Rightarrow> outbox_row list \<Rightarrow> outbox_row list" where
  "update_rows p f rows = map (\<lambda>r. if p r then f r else r) rows"

definition reclaim_rows :: "int \<Rightarrow> outbox_row list \<Rightarrow> outbox_row list" where
  "reclaim_rows now = update_rows (\<lambda>r. ob_status r = OSending \<and> ob_updated r < now - RECLAIM_AFTER)
     (\<lambda>r. r\<lparr>ob_status := OPending, ob_retry := now, ob_updated := now\<rparr>)"

definition due_rows :: "int \<Rightarrow> outbox_row list \<Rightarrow> outbox_row list" where
  "due_rows now rows = take 5 (sort_key ob_retry (filter (\<lambda>r. ob_status r = OPending \<and> ob_retry r \<le> now) rows))"

text \<open>The rows as \<open>RETURNING\<close> gives them, and the table.\<close>

definition claim_rows :: "int \<Rightarrow> outbox_row list \<Rightarrow> outbox_row list \<times> outbox_row list" where
  "claim_rows now rows =
     (let due = due_rows now rows; claim = (\<lambda>r. r\<lparr>ob_status := OSending, ob_updated := now\<rparr>)
      in (map claim due, update_rows (\<lambda>r. ob_id r \<in> set (map ob_id due)) claim rows))"

text \<open>What follows the send of a claimed row.\<close>

definition finish_send :: "outbox_row \<Rightarrow> bool \<Rightarrow> int \<Rightarrow> outbox_row list \<Rightarrow> outbox_row list" where
  "finish_send row ok now rows =
     (let this = (\<lambda>r. ob_id r = ob_id row); attempts = ob_attempts row + 1 in
      if ok then update_rows this (\<lambda>r. r\<lparr>ob_status := OSent, ob_updated := now\<rparr>) rows
      else if OUTBOX_MAX_ATTEMPTS \<le> attempts
      then update_rows this (\<lambda>r. r\<lparr>ob_status := OFailed, ob_attempts := ob_attempts r + 1, ob_updated := now\<rparr>) rows
      else update_rows this (\<lambda>r. r\<lparr>ob_status := OPending, ob_attempts := ob_attempts r + 1,
             ob_retry := now + next_retry_delay_ms attempts, ob_updated := now\<rparr>) rows)"

definition process_outbox_due :: "int \<Rightarrow> (nat \<Rightarrow> bool \<times> int) \<Rightarrow> outbox_row list \<Rightarrow> nat list \<times> outbox_row list" where
  "process_outbox_due now outcome rows =
     (case claim_rows now (reclaim_rows now rows) of
        (claimed, rows1) \<Rightarrow>
          (map ob_id claimed,
           fold (\<lambda>(row, ok, t). finish_send row ok t) (zip claimed (map outcome [0..<length claimed])) rows1))"

text \<open>
  Several dispatchers over one table.  \<open>og_open\<close> are the rows each of them has claimed and still
  has to send, \<open>og_sent\<close> the ids of the sends in their order.  A crash forgets what was claimed.
\<close>

record outbox_system =
  og_rows :: "outbox_row list"
  og_open :: "nat \<Rightarrow> outbox_row list"
  og_sent :: "nat list"

inductive outbox_step :: "outbox_system \<Rightarrow> outbox_system \<Rightarrow> bool" where
  Claim: "og_open s d = [] \<Longrightarrow> claim_rows now (reclaim_rows now (og_rows s)) = (claimed, rows) \<Longrightarrow>
    outbox_step s (s\<lparr>og_rows := rows, og_open := (og_open s)(d := claimed)\<rparr>)"
| Deliver: "og_open s d = row # rest \<Longrightarrow>
    outbox_step s (s\<lparr>og_rows := finish_send row ok now (og_rows s), og_open := (og_open s)(d := rest),
      og_sent := og_sent s @ [ob_id row]\<rparr>)"
| Crash: "outbox_step s (s\<lparr>og_open := (og_open s)(d := [])\<rparr>)"
| Enqueue: "\<forall>r \<in> set (og_rows s). ob_id r \<noteq> i \<Longrightarrow>
    outbox_step s (s\<lparr>og_rows := og_rows s @ [\<lparr>ob_id = i, ob_status = OPending, ob_attempts = 0, ob_retry = now, ob_updated = now\<rparr>]\<rparr>)"

section \<open>One dispatcher\<close>

definition row_of :: "nat \<Rightarrow> outbox_row list \<Rightarrow> outbox_row option" where
  "row_of i rows = List.find (\<lambda>r. ob_id r = i) rows"

lemma row_of_update:
  "(\<And>r. ob_id (f r) = ob_id r) \<Longrightarrow> row_of i (update_rows p f rows) = map_option (\<lambda>r. if p r then f r else r) (row_of i rows)"
  by (induction rows) (auto simp: row_of_def update_rows_def)

lemma ids_update [simp]: "(\<And>r. ob_id (f r) = ob_id r) \<Longrightarrow> map ob_id (update_rows p f rows) = map ob_id rows"
  by (induction rows) (auto simp: update_rows_def)

lemma row_of_distinct: "distinct (map ob_id rows) \<Longrightarrow> r \<in> set rows \<Longrightarrow> row_of (ob_id r) rows = Some r"
  by (induction rows) (auto simp: row_of_def image_iff)

lemma row_of_Some: "row_of i rows = Some r \<Longrightarrow> r \<in> set rows \<and> ob_id r = i"
  by (auto simp: row_of_def find_Some_iff)

text \<open>What the outcome of a send makes of the row it is about.\<close>

definition sent_row :: "nat \<Rightarrow> bool \<Rightarrow> int \<Rightarrow> outbox_row \<Rightarrow> outbox_row" where
  "sent_row a ok t r =
     (if ok then r\<lparr>ob_status := OSent, ob_updated := t\<rparr>
      else if OUTBOX_MAX_ATTEMPTS \<le> a + 1 then r\<lparr>ob_status := OFailed, ob_attempts := ob_attempts r + 1, ob_updated := t\<rparr>
      else r\<lparr>ob_status := OPending, ob_attempts := ob_attempts r + 1, ob_retry := t + next_retry_delay_ms (a + 1), ob_updated := t\<rparr>)"

lemma finish_send_row: "finish_send c ok t rows = update_rows (\<lambda>r. ob_id r = ob_id c) (sent_row (ob_attempts c) ok t) rows"
  by (auto simp: finish_send_def sent_row_def Let_def update_rows_def)

lemma sent_row_id [simp]: "ob_id (sent_row a ok t r) = ob_id r"
  by (simp add: sent_row_def)

lemma row_of_finish:
  "row_of i (finish_send c ok t rows) = (if i = ob_id c then map_option (sent_row (ob_attempts c) ok t) (row_of i rows) else row_of i rows)"
  by (cases "row_of i rows") (auto simp: finish_send_row row_of_update dest: row_of_Some)

lemma row_of_others:
  "i \<notin> ob_id ` fst ` set cs \<Longrightarrow> row_of i (fold (\<lambda>(c, ok, t). finish_send c ok t) cs rows) = row_of i rows"
  by (induction cs arbitrary: rows) (auto simp: row_of_finish)

lemma row_of_mine:
  "distinct (map (ob_id \<circ> fst) cs) \<Longrightarrow> c \<in> fst ` set cs \<Longrightarrow> row_of (ob_id c) rows = Some r \<Longrightarrow>
   \<exists>ok t. row_of (ob_id c) (fold (\<lambda>(c, ok, t). finish_send c ok t) cs rows) = Some (sent_row (ob_attempts c) ok t r)"
proof (induction cs arbitrary: rows)
  case (Cons x cs)
  obtain d ok t where x: "x = (d, ok, t)" by (cases x) auto
  show ?case
  proof (cases "c = d")
    case True
    then have "ob_id c \<notin> ob_id ` fst ` set cs" using Cons.prems(1) by (auto simp: x)
    then show ?thesis using Cons.prems(3) True by (auto simp: x row_of_others row_of_finish)
  next
    case False
    then have c: "c \<in> fst ` set cs" using Cons.prems(2) by (simp add: x)
    then have "ob_id c \<in> set (map (ob_id \<circ> fst) cs)" by force
    moreover have "ob_id d \<notin> set (map (ob_id \<circ> fst) cs)" using Cons.prems(1) by (simp add: x)
    ultimately have "ob_id c \<noteq> ob_id d" by metis
    then show ?thesis using Cons.IH [OF _ c] Cons.prems(1,3) by (simp add: x row_of_finish)
  qed
qed simp

text \<open>
  What a row and the number of its sends keep: nothing is left in \<open>sending\<close>, and every send is
  counted.
\<close>

definition counted :: "outbox_row \<Rightarrow> nat \<Rightarrow> bool" where
  "counted r n \<longleftrightarrow>
     (ob_status r = OPending \<and> n = ob_attempts r \<and> n < OUTBOX_MAX_ATTEMPTS) \<or>
     (ob_status r \<in> {OSent, OFailed} \<and> n \<le> OUTBOX_MAX_ATTEMPTS)"

definition rows_counted :: "outbox_row list \<Rightarrow> nat list \<Rightarrow> bool" where
  "rows_counted rows sends \<longleftrightarrow> distinct (map ob_id rows) \<and>
     (\<forall>i. case row_of i rows of None \<Rightarrow> count_list sends i = 0 | Some r \<Rightarrow> counted r (count_list sends i))"

lemma reclaim_none: "\<forall>r \<in> set rows. ob_status r \<noteq> OSending \<Longrightarrow> reclaim_rows now rows = rows"
  by (auto simp: reclaim_rows_def update_rows_def map_idI)

lemma counted_not_sending: "rows_counted rows sends \<Longrightarrow> r \<in> set rows \<Longrightarrow> ob_status r \<noteq> OSending"
proof
  assume c: "rows_counted rows sends" "r \<in> set rows" "ob_status r = OSending"
  then have "row_of (ob_id r) rows = Some r" by (intro row_of_distinct) (auto simp: rows_counted_def)
  then have "counted r (count_list sends (ob_id r))" using c(1) by (auto simp: rows_counted_def split: option.splits)
  with c(3) show False by (auto simp: counted_def)
qed

lemma count_distinct: "distinct xs \<Longrightarrow> count_list xs x = (if x \<in> set xs then 1 else 0)"
  by (induction xs) auto

lemma sweep_counted:
  assumes ok: "rows_counted rows sends" and p: "process_outbox_due now outcome rows = (ids, rows')"
  shows "rows_counted rows' (sends @ ids)"
proof -
  have rc: "reclaim_rows now rows = rows"
    by (rule reclaim_none) (use ok counted_not_sending in blast)
  have dist: "distinct (map ob_id rows)" using ok by (simp add: rows_counted_def)
  let ?due = "due_rows now rows"
  let ?claim = "\<lambda>r. r\<lparr>ob_status := OSending, ob_updated := now\<rparr>"
  let ?rows1 = "update_rows (\<lambda>r. ob_id r \<in> set (map ob_id ?due)) ?claim rows"
  let ?cs = "zip (map ?claim ?due) (map outcome [0..<length ?due])"
  have ids: "ids = map ob_id ?due" and rows': "rows' = fold (\<lambda>(c, ok, t). finish_send c ok t) ?cs ?rows1"
    using p by (auto simp: process_outbox_due_def claim_rows_def Let_def rc comp_def)
  have due: "r \<in> set rows \<and> ob_status r = OPending" if "r \<in> set ?due" for r
    using that by (auto simp: due_rows_def dest: in_set_takeD)
  have "distinct (map ob_id (sort_key ob_retry (filter (\<lambda>r. ob_status r = OPending \<and> ob_retry r \<le> now) rows)))"
    using distinct_map_filter [OF dist] by (simp add: distinct_map)
  then have ddist: "distinct (map ob_id ?due)" unfolding due_rows_def take_map [symmetric] by (rule distinct_take)
  have fst_cs: "map fst ?cs = map ?claim ?due" by simp
  have cs_ids: "map (ob_id \<circ> fst) ?cs = map ob_id ?due"
    by (metis (no_types, lifting) fst_cs map_map comp_def map_eq_conv outbox_row.select_convs(1) outbox_row.surjective outbox_row.update_convs(2) outbox_row.update_convs(5))
  have fin: "map ob_id (fold (\<lambda>(c, ok, t). finish_send c ok t) cs rs) = map ob_id rs" for cs rs
    by (induction cs arbitrary: rs) (auto simp: finish_send_row)
  have "distinct (map ob_id rows')" using dist by (simp add: rows' fin)
  moreover have "case row_of i rows' of None \<Rightarrow> count_list (sends @ ids) i = 0 | Some r \<Rightarrow> counted r (count_list (sends @ ids) i)" for i
  proof (cases "i \<in> set ids")
    case False
    then have "i \<notin> ob_id ` fst ` set ?cs"
      by (metis ids cs_ids image_comp image_set)
    then have "row_of i rows' = row_of i ?rows1" unfolding rows' by (rule row_of_others)
    also have "\<dots> = row_of i rows"
      using False ids by (cases "row_of i rows") (auto simp: row_of_update dest: row_of_Some)
    finally have same: "row_of i rows' = row_of i rows" .
    have "case row_of i rows of None \<Rightarrow> count_list sends i = 0 | Some r \<Rightarrow> counted r (count_list sends i)"
      using ok by (simp add: rows_counted_def)
    then show ?thesis using False by (simp add: same count_distinct [OF ddist] ids split: option.splits)
  next
    case True
    then obtain r where r: "r \<in> set ?due" "ob_id r = i" using ids by auto
    have row: "row_of i rows = Some r" using row_of_distinct [OF dist] due [OF r(1)] r(2) by blast
    then have row1: "row_of i ?rows1 = Some (?claim r)" using r by (auto simp: row_of_update)
    have cnt: "counted r (count_list sends i)" using ok row by (auto simp: rows_counted_def split: option.splits)
    have mem: "?claim r \<in> fst ` set ?cs" by (metis fst_cs image_set r(1) list.set_map image_eqI)
    obtain k t where k: "row_of i rows' = Some (sent_row (ob_attempts r) k t (?claim r))"
      using row_of_mine [of ?cs "?claim r" ?rows1 "?claim r"] row1 mem ddist cs_ids r(2) rows' by auto
    have "count_list (sends @ ids) i = count_list sends i + 1"
      using True ddist by (simp add: ids count_distinct)
    then show ?thesis using k cnt due [OF r(1)] by (auto simp: counted_def sent_row_def)
  qed
  ultimately show ?thesis by (simp add: rows_counted_def)
qed

text \<open>The sweeps of one dispatcher.\<close>

definition sweeps :: "(int \<times> (nat \<Rightarrow> bool \<times> int)) list \<Rightarrow> nat list \<times> outbox_row list \<Rightarrow> nat list \<times> outbox_row list" where
  "sweeps ws = fold (\<lambda>(now, outcome) (sends, rows).
     case process_outbox_due now outcome rows of (ids, rows') \<Rightarrow> (sends @ ids, rows')) ws"

lemma sweeps_counted:
  "rows_counted (snd s) (fst s) \<Longrightarrow> rows_counted (snd (sweeps ws s)) (fst (sweeps ws s))"
proof (induction ws arbitrary: s)
  case (Cons w ws)
  obtain now outcome where w: "w = (now, outcome)" by fastforce
  obtain sends rows where s: "s = (sends, rows)" by fastforce
  obtain ids rows' where p: "process_outbox_due now outcome rows = (ids, rows')" by fastforce
  from sweep_counted [OF _ p] Cons show ?case by (simp add: w s p sweeps_def)
qed (simp add: sweeps_def)

text \<open>
  C25: a single dispatcher sends a notification at most six times, whatever the outcomes and the
  times are.
\<close>

theorem outbox_attempts_bounded:
  assumes "distinct (map ob_id rows)" "\<forall>r \<in> set rows. ob_status r = OPending \<and> ob_attempts r = 0"
  shows "count_list (fst (sweeps ws ([], rows))) i \<le> 6"
proof -
  have "rows_counted rows []"
    using assms by (auto simp: rows_counted_def counted_def OUTBOX_MAX_ATTEMPTS_def dest: row_of_Some split: option.split)
  then have "rows_counted (snd (sweeps ws ([], rows))) (fst (sweeps ws ([], rows)))"
    using sweeps_counted [of "([], rows)"] by simp
  then show ?thesis
    by (auto simp: rows_counted_def counted_def OUTBOX_MAX_ATTEMPTS_def OUTBOX_BACKOFF_MS_def
        elim!: allE [of _ i] split: option.splits)
qed

theorem outbox_attempts_bounded_witness:
  "count_list (fst (sweeps (map (\<lambda>k. (int k * 30000000, \<lambda>_. (False, int k * 30000000))) [0..<9])
     ([], [\<lparr>ob_id = 1, ob_status = OPending, ob_attempts = 0, ob_retry = 0, ob_updated = 0\<rparr>]))) 1 \<le> 6"
  by (rule outbox_attempts_bounded) simp_all

section \<open>Two dispatchers\<close>

definition outbox_start :: outbox_system where
  "outbox_start = \<lparr>og_rows = [\<lparr>ob_id = 1, ob_status = OPending, ob_attempts = 0, ob_retry = 0, ob_updated = 0\<rparr>],
     og_open = (\<lambda>_. []), og_sent = []\<rparr>"

text \<open>
  With two dispatchers a notification that was delivered is sent again.  A claim is given up
  after one minute, also when the send is still under way; the second dispatcher delivers the
  notification, and when the first send then fails, its update puts the row back to \<open>pending\<close>.
\<close>

theorem delivered_row_pending_again:
  "\<exists>s1 s2 s3 s4. outbox_step outbox_start s1 \<and> outbox_step s1 s2 \<and> outbox_step s2 s3 \<and> outbox_step s3 s4 \<and>
     map ob_status (og_rows s3) = [OSent] \<and> og_sent s4 = [1, 1] \<and> map ob_status (og_rows s4) = [OPending]"
proof -
  let ?r = "\<lparr>ob_id = 1, ob_status = OSending, ob_attempts = 0, ob_retry = 0, ob_updated = 0\<rparr>"
  let ?q = "\<lparr>ob_id = 1, ob_status = OSending, ob_attempts = 0, ob_retry = 60001, ob_updated = 60001\<rparr>"
  let ?s1 = "outbox_start\<lparr>og_rows := [?r], og_open := (\<lambda>_. [])(0 := [?r])\<rparr>"
  let ?s2 = "?s1\<lparr>og_rows := [?q], og_open := (og_open ?s1)(1 := [?q])\<rparr>"
  let ?s3 = "?s2\<lparr>og_rows := finish_send ?q True 60002 (og_rows ?s2), og_open := (og_open ?s2)(1 := []), og_sent := og_sent ?s2 @ [ob_id ?q]\<rparr>"
  let ?s4 = "?s3\<lparr>og_rows := finish_send ?r False 60003 (og_rows ?s3), og_open := (og_open ?s3)(0 := []), og_sent := og_sent ?s3 @ [ob_id ?r]\<rparr>"
  have steps: "outbox_step outbox_start ?s1" "outbox_step ?s1 ?s2"
    using outbox_step.Claim [of outbox_start 0 0 "[?r]" "[?r]"] outbox_step.Claim [of ?s1 1 60001 "[?q]" "[?q]"]
    by (simp_all add: outbox_start_def claim_rows_def reclaim_rows_def update_rows_def due_rows_def RECLAIM_AFTER_def)
  have sends: "outbox_step ?s2 ?s3" "outbox_step ?s3 ?s4"
    by (rule outbox_step.Deliver, simp add: outbox_start_def)+
  have st: "map ob_status (og_rows ?s3) = [OSent]" "og_sent ?s4 = [1, 1]" "map ob_status (og_rows ?s4) = [OPending]"
    by (simp_all add: outbox_start_def finish_send_def update_rows_def OUTBOX_MAX_ATTEMPTS_def OUTBOX_BACKOFF_MS_def)
  show ?thesis
    by (rule exI [of _ ?s1], rule exI [of _ ?s2], rule exI [of _ ?s3], rule exI [of _ ?s4]) (intro conjI steps sends st)
qed

end
