(* ===== verification/Workflows.thy ===== *)
theory Workflows
  imports Validator RunRoutes Egress ExprOps
begin

text \<open>
  Workflows, their versions and their triggers: \<open>apps/server/src/routes/workflows.ts\<close> and
  \<open>routes/triggers.ts\<close>.

  A trigger's object and its \<open>config\<close> column are property tables.  What lies outside is the record
  \<open>wf_env\<close>: the validator's libraries, what \<open>parseManifest\<close> gives for \<open>summary\<close> and
  \<open>triggers\<close> (a schema of Zod, whose \<open>type\<close>, \<open>path\<close> and \<open>cron\<close> are strings), and the text the
  database gives for a JSON value that is not a string.  A query without an order returns its rows in the
  order of the table.  A handler runs without interleaving, after the guards of theory \<open>Access\<close>; audit
  events and the columns \<open>created_at\<close> and \<open>updated_at\<close> are left out.
\<close>

record wf_manifest =
  wm_summary :: "jstr option"
  wm_triggers :: "entries list"

record wf_row =
  wr_id :: nat
  wr_ws :: nat
  wr_name :: jstr
  wr_summary :: "jstr option"
  wr_slug :: jstr
  wr_enabled :: bool
  wr_current :: "nat option"

record wf_version =
  wv_id :: nat
  wv_wf :: nat
  wv_num :: nat
  wv_yaml :: jstr
  wv_manifest :: wf_manifest
  wv_current :: bool

record wf_trigger =
  wt_id :: nat
  wt_wf :: nat
  wt_type :: jstr
  wt_config :: entries
  wt_enabled :: bool
  wt_next :: "int option"

record wf_db =
  wd_wfs :: "wf_row list"
  wd_versions :: "wf_version list"
  wd_triggers :: "wf_trigger list"
  wd_next :: nat

record wf_env =
  we_outside :: outside
  we_manifest :: "jstr \<Rightarrow> wf_manifest"
  we_text :: "jsval \<Rightarrow> jstr"

section \<open>Slugs\<close>

definition slug_char :: "code_unit \<Rightarrow> bool" where
  "slug_char c \<longleftrightarrow> 97 \<le> c \<and> c \<le> 122 \<or> is_digit c \<or> c = 45"

text \<open>\<open>replace(/[^a-z0-9-]+/g, '-')\<close>.\<close>

fun dash_runs :: "jstr \<Rightarrow> jstr" where
  "dash_runs [] = []"
| "dash_runs (c # cs) =
     (if slug_char c then c # dash_runs cs else 45 # dash_runs (dropWhile (\<lambda>c. \<not> slug_char c) cs))"

definition strip_dashes :: "jstr \<Rightarrow> jstr" where
  "strip_dashes s = rev (dropWhile (\<lambda>c. c = 45) (rev (dropWhile (\<lambda>c. c = 45) s)))"

definition slugify :: "wf_env \<Rightarrow> jstr \<Rightarrow> jstr" where
  "slugify e name =
     (let base = take 60 (strip_dashes (dash_runs (lower_case (we_outside e) name)))
      in if base = [] then js ''workflow'' else base)"

text \<open>\<open>toString(36)\<close>.\<close>

fun base36 :: "nat \<Rightarrow> jstr" where
  "base36 n = (if n < 36 then [] else base36 (n div 36)) @ [if n mod 36 < 10 then 48 + n mod 36 else 87 + n mod 36]"

declare base36.simps [simp del]

definition taken_slugs :: "nat \<Rightarrow> wf_db \<Rightarrow> jstr list" where
  "taken_slugs ws db = map wr_slug (filter (\<lambda>w. wr_ws w = ws) (wd_wfs db))"

definition next_free_slug :: "nat \<Rightarrow> jstr \<Rightarrow> int \<Rightarrow> wf_db \<Rightarrow> jstr" where
  "next_free_slug ws desired now db =
     (let taken = filter (\<lambda>s. starts_with s desired) (taken_slugs ws db) in
      if desired \<notin> set taken then desired
      else case List.find (\<lambda>c. c \<notin> set taken) (map (\<lambda>i. desired @ js ''-'' @ nat_str i) [2..<1000]) of
        Some c \<Rightarrow> c
      | None \<Rightarrow> desired @ js ''-'' @ base36 (nat now))"

section \<open>Triggers of a manifest\<close>

text \<open>\<open>config ->> k\<close>.\<close>

definition config_text :: "wf_env \<Rightarrow> entries \<Rightarrow> string \<Rightarrow> jstr option" where
  "config_text e c k =
     (case map_of c (js k) of
        None \<Rightarrow> None | Some Undefined \<Rightarrow> None | Some Null \<Rightarrow> None
      | Some (JStr s) \<Rightarrow> Some s
      | Some v \<Rightarrow> Some (we_text e v))"

text \<open>A field of a declared trigger that the schema makes an optional string.\<close>

definition field_of :: "entries \<Rightarrow> string \<Rightarrow> jstr option" where
  "field_of t k = (case map_of t (js k) of Some (JStr s) \<Rightarrow> Some s | _ \<Rightarrow> None)"

abbreviation webhook_type :: jstr where "webhook_type \<equiv> js ''webhook''"
abbreviation schedule_type :: jstr where "schedule_type \<equiv> js ''schedule''"

definition decl_type :: "entries \<Rightarrow> jstr" where
  "decl_type t = (case field_of t ''type'' of Some s \<Rightarrow> s | None \<Rightarrow> [])"

definition decl_path :: "jstr \<Rightarrow> entries \<Rightarrow> jstr" where
  "decl_path slug t = (case field_of t ''path'' of Some s \<Rightarrow> s | None \<Rightarrow> slug)"

definition stored_config :: "jstr \<Rightarrow> entries \<Rightarrow> entries" where
  "stored_config slug t =
     (if decl_type t = webhook_type then AList.update (js ''path'') (JStr (decl_path slug t)) t else t)"

text \<open>\<open>UPDATE triggers SET f WHERE p\<close>.\<close>

definition update_triggers :: "(wf_trigger \<Rightarrow> bool) \<Rightarrow> (wf_trigger \<Rightarrow> wf_trigger) \<Rightarrow> wf_db \<Rightarrow> wf_db" where
  "update_triggers p f db = db\<lparr>wd_triggers := map (\<lambda>g. if p g then f g else g) (wd_triggers db)\<rparr>"

definition insert_trigger :: "nat \<Rightarrow> jstr \<Rightarrow> entries \<Rightarrow> int option \<Rightarrow> wf_db \<Rightarrow> wf_db" where
  "insert_trigger wid ty cfg nf db =
     db\<lparr>wd_triggers := wd_triggers db @ [\<lparr>wt_id = wd_next db, wt_wf = wid, wt_type = ty, wt_config = cfg,
                                          wt_enabled = True, wt_next = nf\<rparr>],
        wd_next := wd_next db + 1\<rparr>"

definition owner :: "wf_db \<Rightarrow> nat \<Rightarrow> nat option" where
  "owner db wid = map_option wr_ws (List.find (\<lambda>w. wr_id w = wid) (wd_wfs db))"

text \<open>Is a webhook path of the workspace taken?\<close>

definition path_taken :: "wf_env \<Rightarrow> nat \<Rightarrow> jstr \<Rightarrow> wf_db \<Rightarrow> bool" where
  "path_taken e ws path db \<longleftrightarrow>
     list_ex (\<lambda>g. owner db (wt_wf g) = Some ws \<and> wt_type g = webhook_type \<and>
                  config_text e (wt_config g) ''path'' = Some path) (wd_triggers db)"

datatype wf_error = PathConflict | Thrown

definition still_there :: "entries list \<Rightarrow> jstr \<Rightarrow> wf_trigger \<Rightarrow> bool" where
  "still_there ts slug g \<longleftrightarrow>
     wt_type g \<in> set (map decl_type ts) \<and>
     (wt_type g \<noteq> webhook_type \<or>
      (case map_of (wt_config g) (js ''path'') of
         Some (JStr p) \<Rightarrow> p \<in> set (map (decl_path slug) (filter (\<lambda>t. decl_type t = webhook_type) ts))
       | _ \<Rightarrow> False))"

text \<open>The row a declared trigger is matched with.\<close>

definition match_key :: "jstr \<Rightarrow> entries \<Rightarrow> jstr option" where
  "match_key slug t = (if decl_type t = webhook_type then Some (decl_path slug t) else None)"

definition matches_trigger :: "wf_env \<Rightarrow> nat \<Rightarrow> jstr \<Rightarrow> entries \<Rightarrow> wf_trigger \<Rightarrow> bool" where
  "matches_trigger e wid slug t g \<longleftrightarrow>
     wt_wf g = wid \<and> wt_type g = decl_type t \<and> config_text e (wt_config g) ''path'' = match_key slug t"

text \<open>\<open>None\<close> is the error of \<open>computeNextFire\<close>.\<close>

definition decl_next_fire :: "entries \<Rightarrow> int \<Rightarrow> int option option" where
  "decl_next_fire t now =
     (case (if decl_type t = schedule_type then nonempty (field_of t ''cron'') else None) of
        None \<Rightarrow> Some None
      | Some c \<Rightarrow> (case compute_next_fire c now of None \<Rightarrow> None | Some n \<Rightarrow> Some (Some n)))"

definition ensure_trigger ::
  "wf_env \<Rightarrow> int \<Rightarrow> nat \<Rightarrow> nat \<Rightarrow> jstr \<Rightarrow> entries \<Rightarrow> wf_db \<Rightarrow> (wf_error + unit) \<times> wf_db" where
  "ensure_trigger e now ws wid slug t db =
     (case decl_next_fire t now of
        None \<Rightarrow> (Inl Thrown, db)
      | Some nf \<Rightarrow>
         let cfg = stored_config slug t;
             write = (\<lambda>i. update_triggers (\<lambda>g. wt_id g = i) (\<lambda>g. g\<lparr>wt_config := cfg, wt_enabled := True, wt_next := nf\<rparr>))
         in case List.find (matches_trigger e wid slug t) (wd_triggers db) of
              Some g \<Rightarrow> (Inr (), write (wt_id g) db)
            | None \<Rightarrow>
                if decl_type t = webhook_type \<and> path_taken e ws (decl_path slug t) db then (Inl PathConflict, db)
                else (Inr (), write (wd_next db) (insert_trigger wid (decl_type t) cfg nf db)))"

text \<open>A loop whose body may throw.\<close>

fun each_until_error :: "('a \<Rightarrow> 's \<Rightarrow> ('x + unit) \<times> 's) \<Rightarrow> 'a list \<Rightarrow> 's \<Rightarrow> ('x + unit) \<times> 's" where
  "each_until_error f [] s = (Inr (), s)"
| "each_until_error f (x # xs) s =
     (case f x s of (Inl err, s') \<Rightarrow> (Inl err, s') | (Inr _, s') \<Rightarrow> each_until_error f xs s')"

definition reconcile_triggers ::
  "wf_env \<Rightarrow> int \<Rightarrow> nat \<Rightarrow> nat \<Rightarrow> wf_manifest \<Rightarrow> jstr \<Rightarrow> wf_db \<Rightarrow> (wf_error + unit) \<times> wf_db" where
  "reconcile_triggers e now ws wid m slug db =
     each_until_error (ensure_trigger e now ws wid slug) (wm_triggers m)
       (update_triggers (\<lambda>g. wt_wf g = wid \<and> \<not> still_there (wm_triggers m) slug g) (\<lambda>g. g\<lparr>wt_enabled := False\<rparr>) db)"

section \<open>Workflows\<close>

definition update_workflow_row :: "nat \<Rightarrow> (wf_row \<Rightarrow> wf_row) \<Rightarrow> wf_db \<Rightarrow> wf_db" where
  "update_workflow_row i f db = db\<lparr>wd_wfs := map (\<lambda>w. if wr_id w = i then f w else w) (wd_wfs db)\<rparr>"

definition workflow_of :: "nat \<Rightarrow> nat \<Rightarrow> wf_db \<Rightarrow> wf_row option" where
  "workflow_of ws i db = List.find (\<lambda>w. wr_id w = i \<and> wr_ws w = ws) (wd_wfs db)"

definition insert_version :: "nat \<Rightarrow> nat \<Rightarrow> jstr \<Rightarrow> wf_manifest \<Rightarrow> bool \<Rightarrow> wf_db \<Rightarrow> wf_db" where
  "insert_version wid n yaml m cur db =
     db\<lparr>wd_versions := wd_versions db @ [\<lparr>wv_id = wd_next db, wv_wf = wid, wv_num = n, wv_yaml = yaml,
                                          wv_manifest = m, wv_current = cur\<rparr>],
        wd_next := wd_next db + 1\<rparr>"

definition max_version :: "nat \<Rightarrow> wf_db \<Rightarrow> nat" where
  "max_version wid db = fold max (map wv_num (filter (\<lambda>v. wv_wf v = wid) (wd_versions db))) 0"

record created_workflow =
  cw_id :: nat
  cw_version :: nat
  cw_num :: nat
  cw_slug :: jstr

text \<open>The row, its first version and the reference to it.\<close>

definition new_workflow_rows :: "nat \<Rightarrow> jstr \<Rightarrow> jstr option \<Rightarrow> jstr \<Rightarrow> jstr \<Rightarrow> wf_manifest \<Rightarrow> wf_db \<Rightarrow> wf_db" where
  "new_workflow_rows ws name summary slug yaml m db =
     (let i = wd_next db;
          db1 = db\<lparr>wd_wfs := wd_wfs db @ [\<lparr>wr_id = i, wr_ws = ws, wr_name = name, wr_summary = nonempty summary,
                                           wr_slug = slug, wr_enabled = True, wr_current = None\<rparr>],
                   wd_next := Suc i\<rparr>
      in update_workflow_row i (\<lambda>w. w\<lparr>wr_current := Some (wd_next db1)\<rparr>) (insert_version i 1 yaml m True db1))"

text \<open>The insert fails on a slug that the workspace has.\<close>

definition create_workflow_from_manifest ::
  "wf_env \<Rightarrow> int \<Rightarrow> nat \<Rightarrow> jstr \<Rightarrow> jstr option \<Rightarrow> jstr \<Rightarrow> wf_manifest \<Rightarrow> jstr option \<Rightarrow> wf_db \<Rightarrow>
   (wf_error + created_workflow) \<times> wf_db" where
  "create_workflow_from_manifest e now ws name summary yaml m slug0 db =
     (let slug = (case nonempty slug0 of Some s \<Rightarrow> s | None \<Rightarrow> next_free_slug ws (slugify e name) now db) in
      if slug \<in> set (taken_slugs ws db) then (Inl Thrown, db)
      else case reconcile_triggers e now ws (wd_next db) m slug (new_workflow_rows ws name summary slug yaml m db) of
        (Inl err, db1) \<Rightarrow> (Inl err, db1)
      | (Inr _, db1) \<Rightarrow>
          (Inr \<lparr>cw_id = wd_next db, cw_version = Suc (wd_next db), cw_num = 1, cw_slug = slug\<rparr>, db1))"

section \<open>The routes of workflows\<close>

text \<open>A body field that is a string and not blank.\<close>

definition text_given :: "jstr option \<Rightarrow> jstr option" where
  "text_given s = (case s of Some y \<Rightarrow> if trim y = [] then None else Some y | None \<Rightarrow> None)"

definition yaml_refused :: "wf_env \<Rightarrow> jstr \<Rightarrow> refused option" where
  "yaml_refused e yaml =
     (case validate_manifest (we_outside e) yaml of
        Inl _ \<Rightarrow> Some (500, ''internal_error'')
      | Inr r \<Rightarrow> if valid_flag r then None else Some (400, ''validation_error''))"

record create_body =
  cb_name :: "jstr option"
  cb_summary :: "jstr option"
  cb_manifest_yaml :: "jstr option"
  cb_manifest :: "jstr option"

definition post_workflow :: "wf_env \<Rightarrow> int \<Rightarrow> nat \<Rightarrow> create_body \<Rightarrow> wf_db \<Rightarrow> (refused + created_workflow) \<times> wf_db" where
  "post_workflow e now ws b db =
     (case (nonempty (cb_name b), nonempty (case cb_manifest b of None \<Rightarrow> cb_manifest_yaml b | y \<Rightarrow> y)) of
        (Some name, Some yaml) \<Rightarrow>
          (case yaml_refused e yaml of
             Some err \<Rightarrow> (Inl err, db)
           | None \<Rightarrow>
              let m = we_manifest e yaml;
                  summary = (case nonempty (cb_summary b) of None \<Rightarrow> wm_summary m | s \<Rightarrow> s)
              in case create_workflow_from_manifest e now ws name summary yaml m None db of
                   (r, db1) \<Rightarrow> (case r of Inl PathConflict \<Rightarrow> Inl (400, ''webhook_path_conflict'')
                                          | Inl Thrown \<Rightarrow> Inl (500, ''internal_error'')
                                          | Inr c \<Rightarrow> Inr c, db1))
      | _ \<Rightarrow> (Inl (400, ''validation_error''), db))"

text \<open>A draft: the next number, not current.  The pair is the number and the id.\<close>

definition add_draft :: "wf_env \<Rightarrow> nat \<Rightarrow> jstr \<Rightarrow> wf_db \<Rightarrow> (nat \<times> nat) \<times> wf_db" where
  "add_draft e i yaml db =
     (let n = max_version i db + 1
      in ((n, wd_next db), insert_version i n yaml (we_manifest e yaml) False db))"

text \<open>The slug a body asks for; a new one also becomes the path of the triggers that had the old one.\<close>

definition rename_paths :: "wf_env \<Rightarrow> nat \<Rightarrow> jstr \<Rightarrow> jstr \<Rightarrow> wf_db \<Rightarrow> wf_db" where
  "rename_paths e ws old new db =
     update_triggers (\<lambda>g. owner db (wt_wf g) = Some ws \<and> wt_type g = webhook_type \<and>
                          config_text e (wt_config g) ''path'' = Some old)
       (\<lambda>g. g\<lparr>wt_config := AList.update (js ''path'') (JStr new) (wt_config g)\<rparr>) db"

definition change_slug :: "wf_env \<Rightarrow> int \<Rightarrow> nat \<Rightarrow> jstr \<Rightarrow> jstr option \<Rightarrow> wf_db \<Rightarrow> jstr \<times> wf_db" where
  "change_slug e now ws old wanted db =
     (case text_given wanted of
        None \<Rightarrow> (old, db)
      | Some s \<Rightarrow>
         let new = next_free_slug ws (slugify e s) now db
         in (new, if new \<noteq> old then rename_paths e ws old new db else db))"

definition switch_triggers :: "wf_env \<Rightarrow> nat \<Rightarrow> bool option \<Rightarrow> wf_db \<Rightarrow> wf_db" where
  "switch_triggers e i enabled db =
     (case enabled of
        Some False \<Rightarrow> update_triggers (\<lambda>g. wt_wf g = i) (\<lambda>g. g\<lparr>wt_enabled := False\<rparr>) db
      | Some True \<Rightarrow> update_triggers (\<lambda>g. wt_wf g = i \<and> config_text e (wt_config g) ''type'' \<noteq> None)
                       (\<lambda>g. g\<lparr>wt_enabled := True\<rparr>) db
      | None \<Rightarrow> db)"

record update_body =
  ub_name :: "jstr option"
  ub_summary :: "jstr option option"
  ub_enabled :: "bool option"
  ub_slug :: "jstr option"
  ub_manifest :: "jstr option"

text \<open>The answer's slug and, of a draft, its number and id.\<close>

definition put_workflow ::
  "wf_env \<Rightarrow> int \<Rightarrow> nat \<Rightarrow> nat \<Rightarrow> update_body \<Rightarrow> wf_db \<Rightarrow> (refused + jstr \<times> (nat \<times> nat) option) \<times> wf_db" where
  "put_workflow e now ws i b db =
     (case workflow_of ws i db of
        None \<Rightarrow> (Inl (404, ''workflow_not_found''), db)
      | Some w \<Rightarrow>
         (case (case text_given (ub_manifest b) of
                  None \<Rightarrow> Inr (None, db)
                | Some yaml \<Rightarrow> (case yaml_refused e yaml of
                     Some err \<Rightarrow> Inl err
                   | None \<Rightarrow> (case add_draft e i yaml db of (v, db1) \<Rightarrow> Inr (Some v, db1)))) of
            Inl err \<Rightarrow> (Inl err, db)
          | Inr (v, db1) \<Rightarrow>
             (case change_slug e now ws (wr_slug w) (ub_slug b) db1 of
                (slug, db2) \<Rightarrow>
                  if slug \<noteq> wr_slug w \<and> slug \<in> set (taken_slugs ws db2) then (Inl (500, ''internal_error''), db2)
                  else let db3 = update_workflow_row i (\<lambda>w. w\<lparr>
                                   wr_name := (case nonempty (ub_name b) of Some n \<Rightarrow> n | None \<Rightarrow> wr_name w),
                                   wr_slug := slug,
                                   wr_enabled := (case ub_enabled b of Some f \<Rightarrow> f | None \<Rightarrow> wr_enabled w),
                                   wr_summary := (case ub_summary b of Some s \<Rightarrow> nonempty s | None \<Rightarrow> wr_summary w)\<rparr>) db2
                       in (Inr (slug, v), switch_triggers e i (ub_enabled b) db3))))"

definition delete_workflow :: "nat \<Rightarrow> nat \<Rightarrow> wf_db \<Rightarrow> (refused + unit) \<times> wf_db" where
  "delete_workflow ws i db =
     (case workflow_of ws i db of
        None \<Rightarrow> (Inl (404, ''workflow_not_found''), db)
      | Some _ \<Rightarrow>
         (Inr (), update_triggers (\<lambda>g. wt_wf g = i) (\<lambda>g. g\<lparr>wt_enabled := False\<rparr>)
                    (update_workflow_row i (\<lambda>w. w\<lparr>wr_enabled := False\<rparr>) db)))"

text \<open>The readers.  The routes of a manifest and of the versions do not look at the workspace.\<close>

definition get_workflow :: "nat \<Rightarrow> nat \<Rightarrow> wf_db \<Rightarrow> refused + wf_row \<times> nat option" where
  "get_workflow ws i db =
     (case workflow_of ws i db of
        None \<Rightarrow> Inl (404, ''workflow_not_found'')
      | Some w \<Rightarrow> Inr (w, map_option wv_num (List.find (\<lambda>v. wv_wf v = i \<and> wv_current v) (wd_versions db))))"

definition get_manifest :: "nat \<Rightarrow> nat \<Rightarrow> wf_db \<Rightarrow> refused + jstr \<times> nat" where
  "get_manifest ws i db =
     (case List.find (\<lambda>v. wv_wf v = i \<and> wv_current v) (wd_versions db) of
        None \<Rightarrow> Inl (404, ''workflow_not_found'')
      | Some v \<Rightarrow> Inr (wv_yaml v, wv_num v))"

definition list_versions :: "nat \<Rightarrow> nat \<Rightarrow> wf_db \<Rightarrow> wf_version list" where
  "list_versions ws i db = rev (sort_key wv_num (filter (\<lambda>v. wv_wf v = i) (wd_versions db)))"

definition post_version :: "wf_env \<Rightarrow> nat \<Rightarrow> nat \<Rightarrow> jstr option \<Rightarrow> wf_db \<Rightarrow> (refused + nat \<times> nat) \<times> wf_db" where
  "post_version e ws i manifest db =
     (case text_given manifest of
        None \<Rightarrow> (Inl (400, ''validation_error''), db)
      | Some yaml \<Rightarrow>
         if workflow_of ws i db = None then (Inl (404, ''workflow_not_found''), db)
         else case yaml_refused e yaml of
           Some err \<Rightarrow> (Inl err, db)
         | None \<Rightarrow> (case add_draft e i yaml db of (v, db1) \<Rightarrow> (Inr v, db1)))"

definition make_current :: "nat \<Rightarrow> nat \<Rightarrow> wf_db \<Rightarrow> wf_db" where
  "make_current i v db =
     update_workflow_row i (\<lambda>w. w\<lparr>wr_current := Some v\<rparr>)
       (db\<lparr>wd_versions := map (\<lambda>x. if wv_id x = v then x\<lparr>wv_current := True\<rparr> else x)
          (map (\<lambda>x. if wv_wf x = i then x\<lparr>wv_current := False\<rparr> else x) (wd_versions db))\<rparr>)"

definition promote :: "wf_env \<Rightarrow> int \<Rightarrow> nat \<Rightarrow> nat \<Rightarrow> nat \<Rightarrow> wf_db \<Rightarrow> (refused + nat) \<times> wf_db" where
  "promote e now ws i v db =
     (case workflow_of ws i db of
        None \<Rightarrow> (Inl (404, ''workflow_not_found''), db)
      | Some w \<Rightarrow>
         (case List.find (\<lambda>x. wv_id x = v \<and> wv_wf x = i) (wd_versions db) of
            None \<Rightarrow> (Inl (404, ''not_found''), db)
          | Some x \<Rightarrow>
             (case reconcile_triggers e now ws i (wv_manifest x) (wr_slug w) (make_current i v db) of
                (Inl _, db1) \<Rightarrow> (Inl (500, ''internal_error''), db1)
              | (Inr _, db1) \<Rightarrow> (Inr (wv_num x), db1))))"

section \<open>The routes of triggers\<close>

text \<open>\<open>String(config.k ?? '')\<close>.\<close>

definition config_string :: "entries \<Rightarrow> string \<Rightarrow> jstr option" where
  "config_string c k = to_jstr (nullish (get_member c (js k)) (JStr []))"

definition post_trigger ::
  "wf_env \<Rightarrow> int \<Rightarrow> nat \<Rightarrow> nat \<Rightarrow> jstr option \<Rightarrow> entries option \<Rightarrow> wf_db \<Rightarrow> (refused + nat) \<times> wf_db" where
  "post_trigger e now ws i type config db =
     (let cfg = (case config of Some c \<Rightarrow> c | None \<Rightarrow> []) in
      if workflow_of ws i db = None then (Inl (404, ''workflow_not_found''), db)
      else if type = Some schedule_type then
        (case config_string cfg ''cron'' of
           None \<Rightarrow> (Inl (500, ''internal_error''), db)
         | Some cron \<Rightarrow>
            if \<not> is_valid_cron cron then (Inl (400, ''validation_error''), db)
            else case compute_next_fire cron now of
              None \<Rightarrow> (Inl (500, ''internal_error''), db)
            | Some n \<Rightarrow> (Inr (wd_next db), insert_trigger i schedule_type cfg (Some n) db))
      else if type = Some webhook_type then
        (case config_string cfg ''path'' of
           None \<Rightarrow> (Inl (500, ''internal_error''), db)
         | Some p \<Rightarrow>
            let path = trim p in
            if path = [] then (Inl (400, ''validation_error''), db)
            else if path_taken e ws path db then (Inl (400, ''webhook_path_conflict''), db)
            else (Inr (wd_next db), insert_trigger i webhook_type (AList.update (js ''path'') (JStr path) cfg) None db))
      else (Inl (400, ''validation_error''), db))"

text \<open>\<open>{ ...stored, ...config }\<close>.\<close>

definition merge_config :: "entries \<Rightarrow> entries \<Rightarrow> entries" where
  "merge_config stored config = fold (\<lambda>(k, v). AList.update k v) config stored"

definition put_trigger ::
  "int \<Rightarrow> nat \<Rightarrow> nat \<Rightarrow> nat \<Rightarrow> bool option \<Rightarrow> entries option \<Rightarrow> wf_db \<Rightarrow> (refused + unit) \<times> wf_db" where
  "put_trigger now ws i k enabled config db =
     (if workflow_of ws i db = None then (Inl (404, ''workflow_not_found''), db)
      else case List.find (\<lambda>g. wt_id g = k \<and> wt_wf g = i) (wd_triggers db) of
        None \<Rightarrow> (Inl (404, ''not_found''), db)
      | Some g \<Rightarrow>
         let this = (\<lambda>g. wt_id g = k);
             switched = (\<lambda>db. case enabled of Some f \<Rightarrow> update_triggers this (\<lambda>g. g\<lparr>wt_enabled := f\<rparr>) db | None \<Rightarrow> db)
         in case config of
              None \<Rightarrow> (Inr (), switched db)
            | Some c \<Rightarrow>
               let merged = merge_config (wt_config g) c;
                   written = switched (update_triggers this (\<lambda>g. g\<lparr>wt_config := merged\<rparr>) db)
               in case (if wt_type g = schedule_type then field_of merged ''cron'' else None) of
                    None \<Rightarrow> (Inr (), written)
                  | Some cron \<Rightarrow>
                     if \<not> is_valid_cron cron then (Inl (400, ''validation_error''), db)
                     else case compute_next_fire cron now of
                       None \<Rightarrow> (Inl (500, ''internal_error''), db)
                     | Some n \<Rightarrow> (Inr (), update_triggers this (\<lambda>g. g\<lparr>wt_next := Some n\<rparr>) written))"

definition delete_trigger :: "nat \<Rightarrow> nat \<Rightarrow> nat \<Rightarrow> wf_db \<Rightarrow> (refused + unit) \<times> wf_db" where
  "delete_trigger ws i k db =
     (if workflow_of ws i db = None then (Inl (404, ''workflow_not_found''), db)
      else case List.find (\<lambda>g. wt_id g = k \<and> wt_wf g = i) (wd_triggers db) of
        None \<Rightarrow> (Inl (404, ''not_found''), db)
      | Some _ \<Rightarrow> (Inr (), update_triggers (\<lambda>g. wt_id g = k \<and> wt_wf g = i) (\<lambda>g. g\<lparr>wt_enabled := False\<rparr>) db))"

definition list_triggers :: "nat \<Rightarrow> nat \<Rightarrow> wf_db \<Rightarrow> refused + wf_trigger list" where
  "list_triggers ws i db =
     (if workflow_of ws i db = None then Inl (404, ''workflow_not_found'')
      else Inr (filter (\<lambda>g. wt_wf g = i) (wd_triggers db)))"

section \<open>A request\<close>

text \<open>What the members of a workspace ask for, with the time of the request.\<close>

datatype wf_op =
    PostWorkflow int create_body
  | PutWorkflow int nat update_body
  | DeleteWorkflow nat
  | PostVersion nat "jstr option"
  | Promote int nat nat
  | PostTrigger int nat "jstr option" "entries option"
  | PutTrigger int nat nat "bool option" "entries option"
  | DeleteTrigger nat nat

fun wf_exec :: "wf_env \<Rightarrow> nat \<Rightarrow> wf_op \<Rightarrow> wf_db \<Rightarrow> wf_db" where
  "wf_exec e ws (PostWorkflow now b) db = snd (post_workflow e now ws b db)"
| "wf_exec e ws (PutWorkflow now i b) db = snd (put_workflow e now ws i b db)"
| "wf_exec e ws (DeleteWorkflow i) db = snd (delete_workflow ws i db)"
| "wf_exec e ws (PostVersion i m) db = snd (post_version e ws i m db)"
| "wf_exec e ws (Promote now i v) db = snd (promote e now ws i v db)"
| "wf_exec e ws (PostTrigger now i ty c) db = snd (post_trigger e now ws i ty c db)"
| "wf_exec e ws (PutTrigger now i k en c) db = snd (put_trigger now ws i k en c db)"
| "wf_exec e ws (DeleteTrigger i k) db = snd (delete_trigger ws i k db)"

definition wf_run :: "wf_env \<Rightarrow> (nat \<times> wf_op) list \<Rightarrow> wf_db" where
  "wf_run e ops = fold (\<lambda>(ws, op). wf_exec e ws op) ops \<lparr>wd_wfs = [], wd_versions = [], wd_triggers = [], wd_next = 0\<rparr>"

end
