(* ===== verification/WorkflowProps.thy ===== *)
theory WorkflowProps
  imports Workflows
begin

text \<open>
  What a request of \<open>Workflows\<close> does to the tables: the writes each handler comes down to, and the
  keys and references that all of them keep.
\<close>

section \<open>Reading the tables\<close>

lemma owner_cong: "wd_wfs db = wd_wfs db' \<Longrightarrow> owner db = owner db'"
  by (simp add: owner_def fun_eq_iff)

lemma tables_update_triggers [simp]:
  "wd_wfs (update_triggers p f db) = wd_wfs db" "wd_versions (update_triggers p f db) = wd_versions db"
  "wd_next (update_triggers p f db) = wd_next db" "owner (update_triggers p f db) = owner db"
  "wd_triggers (update_triggers p f db) = map (\<lambda>g. if p g then f g else g) (wd_triggers db)"
  by (simp_all add: update_triggers_def owner_def fun_eq_iff)

lemma tables_insert_trigger [simp]:
  "wd_wfs (insert_trigger i ty c n db) = wd_wfs db" "wd_versions (insert_trigger i ty c n db) = wd_versions db"
  "wd_next (insert_trigger i ty c n db) = wd_next db + 1" "owner (insert_trigger i ty c n db) = owner db"
  by (simp_all add: insert_trigger_def owner_def fun_eq_iff)

lemma tables_insert_version [simp]:
  "wd_wfs (insert_version i n y m c db) = wd_wfs db" "wd_triggers (insert_version i n y m c db) = wd_triggers db"
  "wd_next (insert_version i n y m c db) = wd_next db + 1" "owner (insert_version i n y m c db) = owner db"
  by (simp_all add: insert_version_def owner_def fun_eq_iff)

lemma tables_update_workflow_row [simp]:
  "wd_versions (update_workflow_row i f db) = wd_versions db" "wd_triggers (update_workflow_row i f db) = wd_triggers db"
  "wd_next (update_workflow_row i f db) = wd_next db"
  by (simp_all add: update_workflow_row_def)

lemma owner_update_workflow_row:
  assumes "\<And>w. wr_id (f w) = wr_id w" and "\<And>w. wr_ws (f w) = wr_ws w"
  shows "owner (update_workflow_row i f db) = owner db"
proof -
  have "map_option wr_ws (List.find (\<lambda>w. wr_id w = k) (map (\<lambda>w. if wr_id w = i then f w else w) ws)) =
        map_option wr_ws (List.find (\<lambda>w. wr_id w = k) ws)" for k ws
    by (induction ws) (auto simp: assms)
  then show ?thesis by (simp add: owner_def update_workflow_row_def fun_eq_iff)
qed

lemma workflow_of_Some:
  "workflow_of ws i db = Some w \<Longrightarrow> w \<in> set (wd_wfs db) \<and> wr_id w = i \<and> wr_ws w = ws"
  by (auto simp: workflow_of_def find_Some_iff)

section \<open>Keys and references\<close>

text \<open>Ids are unique and below the next one, and every version and trigger belongs to a workflow.\<close>

definition keys_ok :: "wf_db \<Rightarrow> bool" where
  "keys_ok db \<longleftrightarrow>
     distinct (map wr_id (wd_wfs db)) \<and> (\<forall>w \<in> set (wd_wfs db). wr_id w < wd_next db) \<and>
     distinct (map wv_id (wd_versions db)) \<and>
     (\<forall>v \<in> set (wd_versions db). wv_id v < wd_next db \<and> wv_wf v \<in> wr_id ` set (wd_wfs db)) \<and>
     distinct (map wt_id (wd_triggers db)) \<and>
     (\<forall>g \<in> set (wd_triggers db). wt_id g < wd_next db \<and> wt_wf g \<in> wr_id ` set (wd_wfs db))"

lemma owner_iff:
  "keys_ok db \<Longrightarrow> owner db i = Some ws \<longleftrightarrow> (\<exists>w \<in> set (wd_wfs db). wr_id w = i \<and> wr_ws w = ws)"
  by (auto simp: owner_def keys_ok_def find_key)

lemma workflow_of_owner: "keys_ok db \<Longrightarrow> workflow_of ws i db = Some w \<Longrightarrow> owner db i = Some ws"
  by (auto simp: owner_iff dest!: workflow_of_Some)

lemma map_update_key: "(\<And>x. k (f x) = k x) \<Longrightarrow> map k (map (\<lambda>x. if p x then f x else x) xs) = map k xs"
  by simp

lemma keys_update_triggers [inv_intros]:
  assumes "keys_ok db" and "\<And>g. wt_id (f g) = wt_id g" and "\<And>g. wt_wf (f g) = wt_wf g"
  shows "keys_ok (update_triggers p f db)"
proof -
  have "map wt_id (map (\<lambda>g. if p g then f g else g) (wd_triggers db)) = map wt_id (wd_triggers db)"
    by (rule map_update_key) (rule assms(2))
  then show ?thesis using assms unfolding keys_ok_def tables_update_triggers by (auto simp del: map_map)
qed

lemma keys_insert_trigger [inv_intros]:
  "keys_ok db \<Longrightarrow> i \<in> wr_id ` set (wd_wfs db) \<Longrightarrow> keys_ok (insert_trigger i ty c n db)"
  unfolding keys_ok_def insert_trigger_def by fastforce

lemma keys_insert_version [inv_intros]:
  "keys_ok db \<Longrightarrow> i \<in> wr_id ` set (wd_wfs db) \<Longrightarrow> keys_ok (insert_version i n y m c db)"
  unfolding keys_ok_def insert_version_def by fastforce

lemma ids_update_workflow_row:
  assumes "\<And>w. wr_id (f w) = wr_id w"
  shows "map wr_id (wd_wfs (update_workflow_row i f db)) = map wr_id (wd_wfs db)"
  by (auto simp: update_workflow_row_def assms)

lemma keys_update_workflow_row [inv_intros]:
  assumes "keys_ok db" and "\<And>w. wr_id (f w) = wr_id w"
  shows "keys_ok (update_workflow_row i f db)"
proof -
  note ids = ids_update_workflow_row [of f i db, OF assms(2)]
  have "wr_id ` set (wd_wfs (update_workflow_row i f db)) = wr_id ` set (wd_wfs db)"
    by (metis ids list.set_map)
  moreover have "\<forall>w \<in> set (wd_wfs (update_workflow_row i f db)). wr_id w < wd_next db"
    using assms by (auto simp: keys_ok_def update_workflow_row_def)
  ultimately show ?thesis using assms(1) unfolding keys_ok_def ids tables_update_workflow_row by simp
qed

lemma keys_mark_versions [inv_intros]:
  assumes "keys_ok db" and "\<And>v. wv_id (f v) = wv_id v" and "\<And>v. wv_wf (f v) = wv_wf v"
  shows "keys_ok (db\<lparr>wd_versions := map f (wd_versions db)\<rparr>)"
proof -
  have "map wv_id (map f (wd_versions db)) = map wv_id (wd_versions db)" using assms(2) by simp
  then show ?thesis using assms unfolding keys_ok_def by (simp del: map_map)
qed

section \<open>Reconciling the triggers\<close>

lemma each_keeps:
  "P s \<Longrightarrow> (\<And>x s. x \<in> set xs \<Longrightarrow> P s \<Longrightarrow> P (snd (f x s))) \<Longrightarrow> P (snd (each_until_error f xs s))"
proof (induction xs arbitrary: s)
  case (Cons x xs)
  have "P (snd (f x s))" using Cons.prems by simp
  then have "P (snd (each_until_error f xs (snd (f x s))))" using Cons by simp
  with \<open>P (snd (f x s))\<close> show ?case by (auto split: prod.splits sum.splits)
qed simp

text \<open>One declared trigger, and all of them, leave the other tables alone.\<close>

lemma ensure_trigger_frame:
  "wd_wfs (snd (ensure_trigger e now ws i slug t db)) = wd_wfs db"
  "wd_versions (snd (ensure_trigger e now ws i slug t db)) = wd_versions db"
  by (auto simp: ensure_trigger_def Let_def split: option.splits)

lemma keys_ensure_trigger [inv_intros]:
  "keys_ok db \<Longrightarrow> i \<in> wr_id ` set (wd_wfs db) \<Longrightarrow> keys_ok (snd (ensure_trigger e now ws i slug t db))"
  by (auto simp: ensure_trigger_def Let_def split: option.splits intro!: inv_intros)

lemma reconcile_frame:
  "wd_wfs (snd (reconcile_triggers e now ws i m slug db)) = wd_wfs db \<and>
   wd_versions (snd (reconcile_triggers e now ws i m slug db)) = wd_versions db"
  unfolding reconcile_triggers_def by (rule each_keeps) (simp_all add: ensure_trigger_frame)

lemma keys_reconcile [inv_intros]:
  assumes "keys_ok db" and "i \<in> wr_id ` set (wd_wfs db)"
  shows "keys_ok (snd (reconcile_triggers e now ws i m slug db))"
proof -
  let ?P = "\<lambda>s. keys_ok s \<and> wd_wfs s = wd_wfs db"
  have "?P (snd (reconcile_triggers e now ws i m slug db))"
    unfolding reconcile_triggers_def
    by (rule each_keeps) (use assms in \<open>auto simp: ensure_trigger_frame intro!: inv_intros\<close>)
  then show ?thesis by simp
qed

section \<open>The requests keep the keys\<close>

lemma keys_append_workflow [inv_intros]:
  assumes "keys_ok db" and "wr_id w = wd_next db"
  shows "keys_ok (db\<lparr>wd_wfs := wd_wfs db @ [w], wd_next := Suc (wd_next db)\<rparr>)"
  using assms unfolding keys_ok_def by fastforce

lemma keys_new_workflow_rows [inv_intros]:
  "keys_ok db \<Longrightarrow> keys_ok (new_workflow_rows ws name s slug yaml m db)"
  unfolding new_workflow_rows_def Let_def by (intro inv_intros) simp_all

lemma new_workflow_rows_ids:
  "wr_id ` set (wd_wfs (new_workflow_rows ws name s slug yaml m db)) = insert (wd_next db) (wr_id ` set (wd_wfs db))"
proof -
  have "map wr_id (wd_wfs (new_workflow_rows ws name s slug yaml m db)) = map wr_id (wd_wfs db) @ [wd_next db]"
    unfolding new_workflow_rows_def Let_def by (subst ids_update_workflow_row) simp_all
  then have "set (map wr_id (wd_wfs (new_workflow_rows ws name s slug yaml m db))) = set (map wr_id (wd_wfs db) @ [wd_next db])"
    by (rule arg_cong)
  then show ?thesis by simp
qed

text \<open>What a creation makes of the tables.\<close>

lemma post_workflow_cases:
  obtains (same) "snd (post_workflow e now ws b db) = db"
  | (created) name s slug yaml m where "slug \<notin> set (taken_slugs ws db)"
      "snd (post_workflow e now ws b db) =
       snd (reconcile_triggers e now ws (wd_next db) m slug (new_workflow_rows ws name s slug yaml m db))"
proof -
  have c: "snd (create_workflow_from_manifest e now ws name s yaml m None db) = db \<or>
      (\<exists>slug. slug \<notin> set (taken_slugs ws db) \<and> snd (create_workflow_from_manifest e now ws name s yaml m None db) =
         snd (reconcile_triggers e now ws (wd_next db) m slug (new_workflow_rows ws name s slug yaml m db)))"
    for name s yaml m
    by (cases "next_free_slug ws (slugify e name) now db \<in> set (taken_slugs ws db)")
      (auto simp: create_workflow_from_manifest_def nonempty_def Let_def split: prod.splits sum.splits)
  have "snd (post_workflow e now ws b db) = db \<or> (\<exists>name s yaml. snd (post_workflow e now ws b db) =
      snd (create_workflow_from_manifest e now ws name s yaml (we_manifest e yaml) None db))"
    by (auto simp: post_workflow_def Let_def split: option.splits prod.splits) (metis snd_conv)+
  with c that show thesis by metis
qed

lemma keys_post_workflow: "keys_ok db \<Longrightarrow> keys_ok (snd (post_workflow e now ws b db))"
  by (rule post_workflow_cases [of e now ws b db]) (auto simp: new_workflow_rows_ids intro!: inv_intros)

lemma put_workflow_cases:
  obtains (same) "snd (put_workflow e now ws i b db) = db"
  | (written) w db1 slug db2 where "workflow_of ws i db = Some w"
      "db1 = db \<or> (\<exists>yaml. db1 = snd (add_draft e i yaml db))"
      "change_slug e now ws (wr_slug w) (ub_slug b) db1 = (slug, db2)"
      "snd (put_workflow e now ws i b db) = db2 \<or>
       (slug = wr_slug w \<or> slug \<notin> set (taken_slugs ws db2)) \<and>
       (\<exists>f. (\<forall>w. wr_id (f w) = wr_id w \<and> wr_ws (f w) = wr_ws w \<and> wr_current (f w) = wr_current w \<and> wr_slug (f w) = slug) \<and>
            snd (put_workflow e now ws i b db) = switch_triggers e i (ub_enabled b) (update_workflow_row i f db2))"
proof (cases "workflow_of ws i db")
  case None
  then show thesis by (intro same) (simp add: put_workflow_def)
next
  case (Some w)
  show thesis
  proof (cases "case text_given (ub_manifest b) of None \<Rightarrow> Inr (None, db)
      | Some yaml \<Rightarrow> (case yaml_refused e yaml of Some err \<Rightarrow> Inl err
                       | None \<Rightarrow> (case add_draft e i yaml db of (v, db1) \<Rightarrow> Inr (Some v, db1)))")
    case (Inl err)
    then show thesis using Some by (intro same) (simp add: put_workflow_def)
  next
    case (Inr r)
    obtain v db1 where r: "r = (v, db1)" by (cases r)
    obtain slug db2 where c: "change_slug e now ws (wr_slug w) (ub_slug b) db1 = (slug, db2)" by fastforce
    have "db1 = db \<or> (\<exists>yaml. db1 = snd (add_draft e i yaml db))"
      using Inr r by (auto split: option.splits prod.splits) (metis snd_conv)
    moreover note put_workflow_def [of e now ws i b db, unfolded Some option.case Inr [unfolded r] sum.case prod.case c Let_def]
    ultimately show thesis
      by (intro written [OF Some _ c])
        (auto intro!: exI [of _ "\<lambda>w. w\<lparr>wr_name := (case nonempty (ub_name b) of Some n \<Rightarrow> n | None \<Rightarrow> wr_name w),
                                   wr_slug := slug,
                                   wr_enabled := (case ub_enabled b of Some f \<Rightarrow> f | None \<Rightarrow> wr_enabled w),
                                   wr_summary := (case ub_summary b of Some s \<Rightarrow> nonempty s | None \<Rightarrow> wr_summary w)\<rparr>"])
  qed
qed

lemma post_version_cases:
  obtains (same) "snd (post_version e ws i m db) = db"
  | (draft) w yaml where "workflow_of ws i db = Some w" "snd (post_version e ws i m db) = snd (add_draft e i yaml db)"
proof -
  have "snd (post_version e ws i m db) = db \<or>
      (\<exists>w yaml. workflow_of ws i db = Some w \<and> snd (post_version e ws i m db) = snd (add_draft e i yaml db))"
    by (auto simp: post_version_def split: option.splits prod.splits) (metis snd_conv)
  with that show thesis by blast
qed

lemma promote_cases:
  obtains (same) "snd (promote e now ws i v db) = db"
  | (promoted) w x where "workflow_of ws i db = Some w" "x \<in> set (wd_versions db)" "wv_id x = v" "wv_wf x = i"
      "snd (promote e now ws i v db) =
       snd (reconcile_triggers e now ws i (wv_manifest x) (wr_slug w) (make_current i v db))"
proof (cases "workflow_of ws i db")
  case None
  then show thesis by (intro same) (simp add: promote_def)
next
  case (Some w)
  show thesis
  proof (cases "List.find (\<lambda>x. wv_id x = v \<and> wv_wf x = i) (wd_versions db)")
    case None
    then show thesis using Some by (intro same) (simp add: promote_def)
  next
    case v: (Some x)
    then have "x \<in> set (wd_versions db)" "wv_id x = v" "wv_wf x = i" by (auto simp: find_Some_iff)
    then show thesis using Some v
      by (intro promoted [of w x]) (auto simp: promote_def split: prod.splits sum.splits)
  qed
qed

lemma post_trigger_cases:
  obtains (same) "snd (post_trigger e now ws i ty c db) = db"
  | (added) w ty' cfg nf where "workflow_of ws i db = Some w"
      "snd (post_trigger e now ws i ty c db) = insert_trigger i ty' cfg nf db"
      "ty' = schedule_type \<or>
       (\<exists>p. ty' = webhook_type \<and> map_of cfg (js ''path'') = Some (JStr p) \<and> \<not> path_taken e ws p db)"
proof (cases "workflow_of ws i db")
  case None
  then show thesis by (intro same) (simp add: post_trigger_def Let_def)
next
  case (Some w)
  let ?c = "case c of Some c \<Rightarrow> c | None \<Rightarrow> []"
  note d = post_trigger_def [of e now ws i ty c db, unfolded Let_def Some]
  consider "ty = Some schedule_type" | "ty = Some webhook_type" | "ty \<noteq> Some schedule_type" "ty \<noteq> Some webhook_type" by blast
  then show thesis
  proof cases
    case 1
    have "snd (post_trigger e now ws i ty c db) = db \<or>
        (\<exists>n. snd (post_trigger e now ws i ty c db) = insert_trigger i schedule_type ?c (Some n) db)"
      unfolding d using 1 by (cases "config_string ?c ''cron''") (auto simp del: js.simps split: option.splits)
    then show thesis using same added [OF Some] by blast
  next
    case 2
    have "snd (post_trigger e now ws i ty c db) = db \<or>
        (\<exists>p. \<not> path_taken e ws p db \<and> snd (post_trigger e now ws i ty c db) =
           insert_trigger i webhook_type (AList.update (js ''path'') (JStr p) ?c) None db)"
      unfolding d using 2 by (cases "config_string ?c ''path''") (auto simp del: js.simps)
    then show thesis
    proof
      assume "\<exists>p. \<not> path_taken e ws p db \<and> snd (post_trigger e now ws i ty c db) =
           insert_trigger i webhook_type (AList.update (js ''path'') (JStr p) ?c) None db"
      then obtain p where "\<not> path_taken e ws p db" and s: "snd (post_trigger e now ws i ty c db) =
           insert_trigger i webhook_type (AList.update (js ''path'') (JStr p) ?c) None db" by blast
      then show thesis by (intro added [OF Some s]) (auto simp del: js.simps)
    qed (rule same)
  next
    case 3
    then show thesis by (intro same) (simp add: d)
  qed
qed

lemma update_triggers_twice:
  "(\<And>g. p (f g) = p g) \<Longrightarrow> update_triggers p h (update_triggers p f db) = update_triggers p (\<lambda>g. h (f g)) db"
  by (auto simp: update_triggers_def)

lemma put_trigger_cases:
  obtains (same) "snd (put_trigger now ws i k en c db) = db"
  | (changed) w g f where "workflow_of ws i db = Some w" "g \<in> set (wd_triggers db)" "wt_id g = k" "wt_wf g = i"
      "snd (put_trigger now ws i k en c db) = update_triggers (\<lambda>g. wt_id g = k) f db"
      "\<And>g. wt_id (f g) = wt_id g" "\<And>g. wt_wf (f g) = wt_wf g" "\<And>g. wt_type (f g) = wt_type g"
      "wt_config (f g) = (case c of Some c \<Rightarrow> merge_config (wt_config g) c | None \<Rightarrow> wt_config g)"
proof (cases "workflow_of ws i db")
  case None
  then show thesis by (intro same) (simp add: put_trigger_def)
next
  case w: (Some w)
  show thesis
  proof (cases "List.find (\<lambda>g. wt_id g = k \<and> wt_wf g = i) (wd_triggers db)")
    case None
    then show thesis using w by (intro same) (simp add: put_trigger_def)
  next
    case (Some g)
    then have g: "g \<in> set (wd_triggers db)" "wt_id g = k" "wt_wf g = i" by (auto simp: find_Some_iff)
    note d = put_trigger_def [of now ws i k en c db, unfolded Let_def w Some]
    let ?keeps = "\<lambda>f. \<forall>g. wt_id (f g) = wt_id g \<and> wt_wf (f g) = wt_wf g \<and> wt_type (f g) = wt_type g"
    let ?cfg = "case c of Some c \<Rightarrow> merge_config (wt_config g) c | None \<Rightarrow> wt_config g"
    let ?en = "case en of None \<Rightarrow> id | Some f \<Rightarrow> \<lambda>g. g\<lparr>wt_enabled := f\<rparr>"
    have en: "(case en of None \<Rightarrow> x | Some f \<Rightarrow> update_triggers (\<lambda>g. wt_id g = k) (\<lambda>g. g\<lparr>wt_enabled := f\<rparr>) x) =
        update_triggers (\<lambda>g. wt_id g = k) ?en x" for x
      by (cases en) (simp_all add: update_triggers_def cong: if_cong)
    have "snd (put_trigger now ws i k en c db) = db \<or>
        (\<exists>f. ?keeps f \<and> wt_config (f g) = ?cfg \<and>
             snd (put_trigger now ws i k en c db) = update_triggers (\<lambda>g. wt_id g = k) f db)"
    proof (cases c)
      case None
      have "snd (put_trigger now ws i k en c db) = update_triggers (\<lambda>g. wt_id g = k) ?en db"
        unfolding d unfolding None option.case en by simp
      moreover have "?keeps ?en" "wt_config (?en g) = wt_config g" by (cases en; simp)+
      ultimately show ?thesis unfolding None option.case by blast
    next
      case c: (Some cc)
      let ?f = "\<lambda>x. ?en (x\<lparr>wt_config := merge_config (wt_config g) cc\<rparr>)"
      have f: "?keeps ?f" "wt_config (?f g) = ?cfg" by (cases en; simp add: c)+
      have w: "update_triggers (\<lambda>g. wt_id g = k) ?en
          (update_triggers (\<lambda>g. wt_id g = k) (\<lambda>g'. g'\<lparr>wt_config := merge_config (wt_config g) cc\<rparr>) db) =
          update_triggers (\<lambda>g. wt_id g = k) ?f db"
        by (rule update_triggers_twice) simp
      have w': "update_triggers (\<lambda>g. wt_id g = k) (\<lambda>g. g\<lparr>wt_next := Some n\<rparr>) (update_triggers (\<lambda>g. wt_id g = k) ?f db) =
          update_triggers (\<lambda>g. wt_id g = k) (\<lambda>x. ?f x\<lparr>wt_next := Some n\<rparr>) db" for n
        by (rule update_triggers_twice) (cases en; simp)
      have n: "?keeps (\<lambda>x. ?f x\<lparr>wt_next := Some n\<rparr>)" "wt_config (?f g\<lparr>wt_next := Some n\<rparr>) = ?cfg" for n
        by (cases en; simp add: c)+
      have "snd (put_trigger now ws i k en c db) = db \<or>
          snd (put_trigger now ws i k en c db) = update_triggers (\<lambda>g. wt_id g = k) ?f db \<or>
          (\<exists>n. snd (put_trigger now ws i k en c db) = update_triggers (\<lambda>g. wt_id g = k) (\<lambda>x. ?f x\<lparr>wt_next := Some n\<rparr>) db)"
        unfolding d unfolding c option.case en w w'
        by (cases "if wt_type g = schedule_type then field_of (merge_config (wt_config g) cc) ''cron'' else None")
          (auto simp del: js.simps split: option.split)
      then show ?thesis
      proof (elim disjE exE)
        assume "snd (put_trigger now ws i k en c db) = update_triggers (\<lambda>g. wt_id g = k) ?f db"
        with f show ?thesis by (intro disjI2 exI [of _ ?f] conjI)
      next
        fix m assume "snd (put_trigger now ws i k en c db) = update_triggers (\<lambda>g. wt_id g = k) (\<lambda>x. ?f x\<lparr>wt_next := Some m\<rparr>) db"
        with n show ?thesis by (intro disjI2 exI [of _ "\<lambda>x. ?f x\<lparr>wt_next := Some m\<rparr>"] conjI)
      qed (rule disjI1)
    qed
    then show thesis
    proof
      assume "\<exists>f. ?keeps f \<and> wt_config (f g) = ?cfg \<and>
             snd (put_trigger now ws i k en c db) = update_triggers (\<lambda>g. wt_id g = k) f db"
      then obtain f where "?keeps f" "wt_config (f g) = ?cfg"
        "snd (put_trigger now ws i k en c db) = update_triggers (\<lambda>g. wt_id g = k) f db" by blast
      then show thesis by (intro changed [OF w g]) simp_all
    qed (rule same)
  qed
qed

lemma delete_trigger_cases:
  obtains (same) "snd (delete_trigger ws i k db) = db"
  | (off) w where "workflow_of ws i db = Some w"
      "snd (delete_trigger ws i k db) = update_triggers (\<lambda>g. wt_id g = k \<and> wt_wf g = i) (\<lambda>g. g\<lparr>wt_enabled := False\<rparr>) db"
proof (cases "workflow_of ws i db")
  case None
  then show thesis by (intro same) (simp add: delete_trigger_def)
next
  case (Some w)
  show thesis
  proof (cases "List.find (\<lambda>g. wt_id g = k \<and> wt_wf g = i) (wd_triggers db)")
    case None
    then show thesis using Some by (intro same) (simp add: delete_trigger_def)
  next
    case (Some g)
    then show thesis using \<open>workflow_of ws i db = Some w\<close> by (intro off) (simp_all add: delete_trigger_def)
  qed
qed

lemma snd_add_draft [simp]:
  "snd (add_draft e i yaml db) = insert_version i (max_version i db + 1) yaml (we_manifest e yaml) False db"
  by (simp add: add_draft_def Let_def)

lemma change_slug_cases:
  assumes "change_slug e now ws old wanted db = (slug, db')"
  shows "db' = db \<or> db' = rename_paths e ws old slug db"
  using assms by (auto simp: change_slug_def Let_def split: option.splits if_splits)

lemma workflow_of_id: "workflow_of ws i db = Some w \<Longrightarrow> i \<in> wr_id ` set (wd_wfs db)"
  by (auto dest: workflow_of_Some)

lemma keys_rename_paths [inv_intros]: "keys_ok db \<Longrightarrow> keys_ok (rename_paths e ws old new db)"
  unfolding rename_paths_def by (rule keys_update_triggers) simp_all

lemma keys_switch_triggers [inv_intros]: "keys_ok db \<Longrightarrow> keys_ok (switch_triggers e i en db)"
  unfolding switch_triggers_def by (auto split: option.split bool.split intro: keys_update_triggers)

lemma keys_make_current [inv_intros]: "keys_ok db \<Longrightarrow> keys_ok (make_current i v db)"
  unfolding make_current_def map_map
  by (intro keys_update_workflow_row keys_mark_versions) simp_all

lemma make_current_ids: "wr_id ` set (wd_wfs (make_current i v db)) = wr_id ` set (wd_wfs db)"
proof -
  have "map wr_id (wd_wfs (make_current i v db)) = map wr_id (wd_wfs db)"
    unfolding make_current_def by (subst ids_update_workflow_row) simp_all
  then show ?thesis by (metis list.set_map)
qed

lemma keys_put_workflow:
  assumes "keys_ok db"
  shows "keys_ok (snd (put_workflow e now ws i b db))"
proof (rule put_workflow_cases [of e now ws i b db])
  fix w db1 slug db2
  assume w: "workflow_of ws i db = Some w" and d: "db1 = db \<or> (\<exists>yaml. db1 = snd (add_draft e i yaml db))"
    and c: "change_slug e now ws (wr_slug w) (ub_slug b) db1 = (slug, db2)"
    and r: "snd (put_workflow e now ws i b db) = db2 \<or>
       (slug = wr_slug w \<or> slug \<notin> set (taken_slugs ws db2)) \<and>
       (\<exists>f. (\<forall>w. wr_id (f w) = wr_id w \<and> wr_ws (f w) = wr_ws w \<and> wr_current (f w) = wr_current w \<and> wr_slug (f w) = slug) \<and>
            snd (put_workflow e now ws i b db) = switch_triggers e i (ub_enabled b) (update_workflow_row i f db2))"
  have "keys_ok db1" using d assms workflow_of_id [OF w] by (auto intro: inv_intros)
  then have "keys_ok db2" using change_slug_cases [OF c] by (auto intro: inv_intros)
  then show ?thesis using r by (auto intro!: inv_intros)
qed (simp add: assms)

lemma keys_wf_exec [inv_intros]: "keys_ok db \<Longrightarrow> keys_ok (wf_exec e ws op db)"
proof (cases op)
  case (PostVersion i m)
  assume "keys_ok db"
  with PostVersion show ?thesis
    by (cases rule: post_version_cases [of e ws i m db]) (auto dest: workflow_of_id intro: inv_intros)
next
  case (Promote now i v)
  assume "keys_ok db"
  with Promote show ?thesis
    by (cases rule: promote_cases [of e now ws i v db])
      (auto simp: make_current_ids dest: workflow_of_id intro!: inv_intros)
next
  case (PostTrigger now i ty c)
  assume "keys_ok db"
  with PostTrigger show ?thesis
    by (cases rule: post_trigger_cases [of e now ws i ty c db]) (auto dest: workflow_of_id intro: inv_intros)
next
  case (PutTrigger now i k en c)
  assume "keys_ok db"
  with PutTrigger show ?thesis
    by (cases rule: put_trigger_cases [of now ws i k en c db]) (auto intro: inv_intros)
next
  case (DeleteTrigger i k)
  assume "keys_ok db"
  with DeleteTrigger show ?thesis
    by (cases rule: delete_trigger_cases [of ws i k db]) (auto intro: inv_intros)
next
  case (DeleteWorkflow i)
  assume "keys_ok db"
  with DeleteWorkflow show ?thesis
    by (auto simp: delete_workflow_def split: option.split intro!: inv_intros)
qed (simp_all add: keys_post_workflow keys_put_workflow)

text \<open>An invariant of the requests is one of the tables.\<close>

lemma wf_run_keeps:
  assumes "P \<lparr>wd_wfs = [], wd_versions = [], wd_triggers = [], wd_next = 0\<rparr>"
    and "\<And>ws op db. (ws, op) \<in> set ops \<Longrightarrow> keys_ok db \<Longrightarrow> P db \<Longrightarrow> P (wf_exec e ws op db)"
  shows "keys_ok (wf_run e ops) \<and> P (wf_run e ops)"
proof -
  have "keys_ok (fold (\<lambda>(ws, op). wf_exec e ws op) os db) \<and> P (fold (\<lambda>(ws, op). wf_exec e ws op) os db)"
    if "keys_ok db" "P db" "set os \<subseteq> set ops" for os db
    using that by (induction os arbitrary: db) (auto intro: inv_intros assms(2))
  from this [of "\<lparr>wd_wfs = [], wd_versions = [], wd_triggers = [], wd_next = 0\<rparr>" ops] show ?thesis
    using assms(1) by (simp add: wf_run_def keys_ok_def)
qed

lemma wf_run_snoc: "wf_run e (ops @ [(ws, op)]) = wf_exec e ws op (wf_run e ops)"
  by (simp add: wf_run_def)

lemma keys_wf_run: "keys_ok (wf_run e ops)"
  using wf_run_keeps [of "\<lambda>_. True"] by simp

end
