(* ===== verification/WorkflowVersions.thy ===== *)
theory WorkflowVersions
  imports WorkflowProps
begin

text \<open>
  Slugs and versions: what the unique constraints and the handlers keep of them, who may change the
  version that runs execute, and that a request leaves the rows of other workspaces alone.
\<close>

section \<open>Versions\<close>

definition slugs_ok :: "wf_db \<Rightarrow> bool" where
  "slugs_ok db \<longleftrightarrow> distinct (map (\<lambda>w. (wr_ws w, wr_slug w)) (wd_wfs db))"

text \<open>The one current version of a workflow, which is also the one its row refers to.\<close>

definition is_current_version :: "wf_version list \<Rightarrow> nat \<Rightarrow> nat option \<Rightarrow> wf_version \<Rightarrow> bool" where
  "is_current_version vs i cur v \<longleftrightarrow>
     v \<in> set vs \<and> wv_wf v = i \<and> wv_current v \<and> cur = Some (wv_id v) \<and>
     (\<forall>u \<in> set vs. wv_wf u = i \<and> wv_current u \<longrightarrow> u = v)"

definition workflow_heads :: "wf_db \<Rightarrow> (nat \<times> nat option) list" where
  "workflow_heads db = map (\<lambda>w. (wr_id w, wr_current w)) (wd_wfs db)"

definition versions_ok :: "wf_db \<Rightarrow> bool" where
  "versions_ok db \<longleftrightarrow>
     distinct (map (\<lambda>v. (wv_wf v, wv_num v)) (wd_versions db)) \<and>
     (\<forall>(i, cur) \<in> set (workflow_heads db). \<exists>v. is_current_version (wd_versions db) i cur v)"

lemma versions_cong:
  "workflow_heads db' = workflow_heads db \<Longrightarrow> wd_versions db' = wd_versions db \<Longrightarrow> versions_ok db' = versions_ok db"
  by (simp add: versions_ok_def)

lemma versions_okD:
  "versions_ok db \<Longrightarrow> (i, cur) \<in> set (workflow_heads db) \<Longrightarrow> \<exists>v. is_current_version (wd_versions db) i cur v"
  by (fastforce simp: versions_ok_def)

lemma max_version_ge: "v \<in> set (wd_versions db) \<Longrightarrow> wv_wf v = i \<Longrightarrow> wv_num v \<le> max_version i db"
proof -
  have "(x :: nat) \<in> set xs \<Longrightarrow> x \<le> fold max xs n" and "n \<le> fold max xs n" for x xs n
    by (induction xs arbitrary: n) (auto, (metis max.bounded_iff max.cobounded2 order_refl)+)
  then show "v \<in> set (wd_versions db) \<Longrightarrow> wv_wf v = i \<Longrightarrow> wv_num v \<le> max_version i db"
    by (auto simp: max_version_def)
qed

lemma is_current_version_append:
  "is_current_version vs i cur u \<Longrightarrow> wv_wf v \<noteq> i \<or> \<not> wv_current v \<Longrightarrow> is_current_version (vs @ [v]) i cur u"
  by (auto simp: is_current_version_def)

lemma versions_add_draft:
  assumes "versions_ok db"
  shows "versions_ok (insert_version i (max_version i db + 1) yaml m False db)"
proof -
  have "(i, max_version i db + 1) \<notin> (\<lambda>v. (wv_wf v, wv_num v)) ` set (wd_versions db)"
    using max_version_ge [of _ db i] by fastforce
  then have "distinct (map (\<lambda>v. (wv_wf v, wv_num v)) (wd_versions (insert_version i (max_version i db + 1) yaml m False db)))"
    using assms by (auto simp: versions_ok_def insert_version_def)
  moreover have "\<exists>v. is_current_version (wd_versions (insert_version i (max_version i db + 1) yaml m False db)) j cur v"
    if h: "(j, cur) \<in> set (workflow_heads db)" for j cur
  proof -
    obtain v where "is_current_version (wd_versions db) j cur v" using versions_okD [OF assms h] ..
    then have "is_current_version (wd_versions (insert_version i (max_version i db + 1) yaml m False db)) j cur v"
      unfolding insert_version_def by (auto intro!: is_current_version_append)
    then show ?thesis ..
  qed
  ultimately show ?thesis by (auto simp: versions_ok_def workflow_heads_def)
qed

lemma versions_new_workflow:
  assumes "versions_ok db" and "keys_ok db"
  shows "versions_ok (new_workflow_rows ws name s slug yaml m db)"
proof -
  let ?i = "wd_next db"
  let ?v = "\<lparr>wv_id = Suc ?i, wv_wf = ?i, wv_num = 1, wv_yaml = yaml, wv_manifest = m, wv_current = True\<rparr>"
  have fresh: "?i \<notin> wr_id ` set (wd_wfs db)" "\<forall>v \<in> set (wd_versions db). wv_wf v \<noteq> ?i"
    using assms(2) by (fastforce simp: keys_ok_def)+
  have "map (\<lambda>w. if wr_id w = ?i then f w else w) (wd_wfs db) = wd_wfs db" for f
    using fresh(1) by (intro map_idI) (auto simp: rev_image_eqI)
  then have "workflow_heads (new_workflow_rows ws name s slug yaml m db) = workflow_heads db @ [(?i, Some (Suc ?i))]"
    and "wd_versions (new_workflow_rows ws name s slug yaml m db) = wd_versions db @ [?v]"
    by (simp_all add: new_workflow_rows_def update_workflow_row_def insert_version_def workflow_heads_def Let_def)
  moreover have "\<exists>v. is_current_version (wd_versions db @ [?v]) j cur v" if h: "(j, cur) \<in> set (workflow_heads db)" for j cur
  proof -
    obtain v where "is_current_version (wd_versions db) j cur v" using versions_okD [OF assms(1) h] ..
    moreover have "j \<noteq> ?i" using h fresh(1) by (auto simp: workflow_heads_def rev_image_eqI)
    ultimately show ?thesis using is_current_version_append [of _ j cur v ?v] by auto
  qed
  moreover have "is_current_version (wd_versions db @ [?v]) ?i (Some (Suc ?i)) ?v"
    using fresh(2) by (auto simp: is_current_version_def)
  moreover have "distinct (map (\<lambda>v. (wv_wf v, wv_num v)) (wd_versions db @ [?v]))"
    using assms(1) fresh(2) by (auto simp: versions_ok_def)
  ultimately show ?thesis unfolding versions_ok_def by auto
qed

text \<open>The three updates of a promotion.\<close>

lemma versions_make_current:
  assumes "versions_ok db" and "keys_ok db" and x: "x \<in> set (wd_versions db)" "wv_id x = v" "wv_wf x = i"
  shows "versions_ok (make_current i v db)"
proof -
  let ?f = "\<lambda>y. if wv_id y = v then y\<lparr>wv_current := True\<rparr> else if wv_wf y = i then y\<lparr>wv_current := False\<rparr> else y"
  have ids: "y = x" if "y \<in> set (wd_versions db)" "wv_id y = v" for y
    using inj_onD [of wv_id "set (wd_versions db)" y x] assms(2) that x(1,2) by (simp add: keys_ok_def distinct_map)
  have vs: "wd_versions (make_current i v db) = map ?f (wd_versions db)"
    by (auto simp: make_current_def update_workflow_row_def)
  have heads: "workflow_heads (make_current i v db) = map (\<lambda>(k, c). (k, if k = i then Some v else c)) (workflow_heads db)"
    by (simp add: make_current_def update_workflow_row_def workflow_heads_def)
  have "map (\<lambda>v. (wv_wf v, wv_num v)) (map ?f (wd_versions db)) = map (\<lambda>v. (wv_wf v, wv_num v)) (wd_versions db)"
    by simp
  then have "distinct (map (\<lambda>v. (wv_wf v, wv_num v)) (wd_versions (make_current i v db)))"
    using assms(1) unfolding vs versions_ok_def by (simp del: map_map)
  moreover have "\<exists>u. is_current_version (map ?f (wd_versions db)) j cur u"
    if "(j, cur) \<in> set (workflow_heads (make_current i v db))" for j cur
  proof (cases "j = i")
    case True
    then have "cur = Some v" using that heads by auto
    then have "is_current_version (map ?f (wd_versions db)) j cur (?f x)"
      using x True by (auto simp: is_current_version_def dest: ids split: if_splits)
    then show ?thesis by blast
  next
    case False
    then have "(j, cur) \<in> set (workflow_heads db)" using that heads by auto
    then obtain u where u: "is_current_version (wd_versions db) j cur u" using versions_okD [OF assms(1)] by blast
    then have "is_current_version (map ?f (wd_versions db)) j cur (?f u)"
      using x(3) False by (auto simp: is_current_version_def dest: ids split: if_splits)
    then show ?thesis by blast
  qed
  ultimately show ?thesis unfolding versions_ok_def vs by auto
qed

section \<open>The requests\<close>

text \<open>Slugs and versions depend on two tables, which the writes to triggers leave alone.\<close>

lemma tables_frame:
  "wd_wfs db' = wd_wfs db \<Longrightarrow> wd_versions db' = wd_versions db \<Longrightarrow>
   slugs_ok db' = slugs_ok db \<and> versions_ok db' = versions_ok db"
  by (simp add: slugs_ok_def versions_ok_def workflow_heads_def)

lemma rename_paths_frame [simp]:
  "wd_wfs (rename_paths e ws old new db) = wd_wfs db" "wd_versions (rename_paths e ws old new db) = wd_versions db"
  "owner (rename_paths e ws old new db) = owner db"
  by (simp_all add: rename_paths_def)

lemma switch_triggers_frame [simp]:
  "wd_wfs (switch_triggers e i en db) = wd_wfs db" "wd_versions (switch_triggers e i en db) = wd_versions db"
  "owner (switch_triggers e i en db) = owner db"
  by (simp_all add: switch_triggers_def split: option.split bool.split)

lemma change_slug_frame:
  assumes "change_slug e now ws old wanted db = (slug, db')"
  shows "wd_wfs db' = wd_wfs db" "wd_versions db' = wd_versions db" "owner db' = owner db"
  using change_slug_cases [OF assms] by auto

lemma heads_update_workflow_row:
  assumes "\<And>w. wr_id (f w) = wr_id w" and "\<And>w. wr_current (f w) = wr_current w"
  shows "workflow_heads (update_workflow_row i f db) = workflow_heads db"
  using assms by (auto simp: workflow_heads_def update_workflow_row_def)

lemma slugs_new_workflow:
  assumes "slugs_ok db" and "slug \<notin> set (taken_slugs ws db)" and "keys_ok db"
  shows "slugs_ok (new_workflow_rows ws name s slug yaml m db)"
proof -
  have "map (\<lambda>w. (wr_ws w, wr_slug w)) (wd_wfs (new_workflow_rows ws name s slug yaml m db)) =
        map (\<lambda>w. (wr_ws w, wr_slug w)) (wd_wfs db) @ [(ws, slug)]"
    by (auto simp: new_workflow_rows_def update_workflow_row_def Let_def)
  then show ?thesis using assms(1,2) by (auto simp: slugs_ok_def taken_slugs_def)
qed

lemma slugs_update_row:
  assumes "slugs_ok db" and "distinct (map wr_id (wd_wfs db))" and w: "workflow_of ws i db = Some w"
    and f: "\<And>w. wr_ws (f w) = wr_ws w" "\<And>w. wr_slug (f w) = slug"
    and free: "slug = wr_slug w \<or> slug \<notin> set (taken_slugs ws db)"
  shows "slugs_ok (update_workflow_row i f db)"
proof -
  from workflow_of_Some [OF w] have w': "w \<in> set (wd_wfs db)" "wr_id w = i" "wr_ws w = ws" by auto
  have only: "x = w" if "x \<in> set (wd_wfs db)" "wr_id x = i" for x
    using inj_onD [of wr_id "set (wd_wfs db)" x w] assms(2) that w'(1,2) by (simp add: distinct_map)
  have inj: "inj_on (\<lambda>w. (wr_ws w, wr_slug w)) (set (wd_wfs db))" and dist: "distinct (wd_wfs db)"
    using assms(1) by (auto simp: slugs_ok_def distinct_map)
  let ?k = "\<lambda>x. (wr_ws x, if wr_id x = i then slug else wr_slug x)"
  have other: "x = w" if "x \<in> set (wd_wfs db)" "wr_ws x = ws" "wr_slug x = slug" for x
    using free that w'(1,3) inj_onD [OF inj, of x w] by (auto simp: taken_slugs_def)
  have "inj_on ?k (set (wd_wfs db))"
  proof (rule inj_onI)
    have same: "y = w" if "y \<in> set (wd_wfs db)" "?k y = (ws, slug)" for y
      using that by (cases "wr_id y = i") (auto intro: only other)
    fix x y assume xy: "x \<in> set (wd_wfs db)" "y \<in> set (wd_wfs db)" "?k x = ?k y"
    consider "wr_id x = i" | "wr_id y = i" | "wr_id x \<noteq> i" "wr_id y \<noteq> i" by blast
    then show "x = y"
    proof cases
      case 1
      then have "?k x = (ws, slug)" using only [OF xy(1)] w'(3) by simp
      then show ?thesis using same [OF xy(1)] same [OF xy(2)] xy(3) by simp
    next
      case 2
      then have "?k y = (ws, slug)" using only [OF xy(2)] w'(3) by simp
      then show ?thesis using same [OF xy(1)] same [OF xy(2)] xy(3) by simp
    next
      case 3
      then show ?thesis using xy inj_onD [OF inj, of x y] by simp
    qed
  qed
  moreover have "map (\<lambda>w. (wr_ws w, wr_slug w)) (wd_wfs (update_workflow_row i f db)) = map ?k (wd_wfs db)"
    using f by (auto simp: update_workflow_row_def)
  ultimately show ?thesis using dist by (simp add: slugs_ok_def distinct_map)
qed

abbreviation rows_ok :: "wf_db \<Rightarrow> bool" where
  "rows_ok db \<equiv> slugs_ok db \<and> versions_ok db"

lemma rows_cong: "wd_wfs db' = wd_wfs db \<Longrightarrow> wd_versions db' = wd_versions db \<Longrightarrow> rows_ok db \<Longrightarrow> rows_ok db'"
  using tables_frame [of db' db] by simp

lemma rows_add_draft: "rows_ok db \<Longrightarrow> rows_ok (insert_version i (max_version i db + 1) yaml m False db)"
  using versions_add_draft [of db i yaml m] by (simp add: slugs_ok_def)

lemma rows_reconcile: "rows_ok db \<Longrightarrow> rows_ok (snd (reconcile_triggers e now ws i m slug db))"
  using reconcile_frame [of e now ws i m slug db] rows_cong [of "snd (reconcile_triggers e now ws i m slug db)" db] by simp

lemma rows_post_workflow:
  assumes "keys_ok db" and "rows_ok db"
  shows "rows_ok (snd (post_workflow e now ws b db))"
proof (rule post_workflow_cases [of e now ws b db])
  fix name s slug yaml m
  assume "slug \<notin> set (taken_slugs ws db)"
    and r: "snd (post_workflow e now ws b db) =
      snd (reconcile_triggers e now ws (wd_next db) m slug (new_workflow_rows ws name s slug yaml m db))"
  then have "rows_ok (new_workflow_rows ws name s slug yaml m db)"
    using assms versions_new_workflow slugs_new_workflow by simp
  then show ?thesis unfolding r by (rule rows_reconcile)
qed (simp add: assms)

lemma taken_slugs_cong: "wd_wfs db' = wd_wfs db \<Longrightarrow> taken_slugs ws db' = taken_slugs ws db"
  by (simp add: taken_slugs_def)

lemma rows_put_workflow:
  assumes "keys_ok db" and "rows_ok db"
  shows "rows_ok (snd (put_workflow e now ws i b db))"
proof (rule put_workflow_cases [of e now ws i b db])
  fix w db1 slug db2
  assume w: "workflow_of ws i db = Some w" and d: "db1 = db \<or> (\<exists>yaml. db1 = snd (add_draft e i yaml db))"
    and c: "change_slug e now ws (wr_slug w) (ub_slug b) db1 = (slug, db2)"
    and r: "snd (put_workflow e now ws i b db) = db2 \<or>
       (slug = wr_slug w \<or> slug \<notin> set (taken_slugs ws db2)) \<and>
       (\<exists>f. (\<forall>w. wr_id (f w) = wr_id w \<and> wr_ws (f w) = wr_ws w \<and> wr_current (f w) = wr_current w \<and> wr_slug (f w) = slug) \<and>
            snd (put_workflow e now ws i b db) = switch_triggers e i (ub_enabled b) (update_workflow_row i f db2))"
  from d have "rows_ok db1" using assms(2) rows_add_draft [of db i] by (elim disjE exE) (simp_all only: snd_add_draft)
  then have r2: "rows_ok db2" by (rule rows_cong [of db2 db1, OF change_slug_frame(1,2) [OF c]])
  have wfs: "wd_wfs db2 = wd_wfs db" using d change_slug_frame [OF c] by auto
  then have k2: "distinct (map wr_id (wd_wfs db2))" and w2: "workflow_of ws i db2 = Some w"
    using assms(1) w by (simp_all add: keys_ok_def workflow_of_def)
  from r show ?thesis
  proof
    assume "(slug = wr_slug w \<or> slug \<notin> set (taken_slugs ws db2)) \<and>
       (\<exists>f. (\<forall>w. wr_id (f w) = wr_id w \<and> wr_ws (f w) = wr_ws w \<and> wr_current (f w) = wr_current w \<and> wr_slug (f w) = slug) \<and>
            snd (put_workflow e now ws i b db) = switch_triggers e i (ub_enabled b) (update_workflow_row i f db2))"
    then obtain f where free: "slug = wr_slug w \<or> slug \<notin> set (taken_slugs ws db2)"
      and f: "\<And>w. wr_id (f w) = wr_id w" "\<And>w. wr_ws (f w) = wr_ws w" "\<And>w. wr_current (f w) = wr_current w"
        "\<And>w. wr_slug (f w) = slug"
      and s: "snd (put_workflow e now ws i b db) = switch_triggers e i (ub_enabled b) (update_workflow_row i f db2)"
      by blast
    have "slugs_ok (update_workflow_row i f db2)"
      using r2 k2 w2 f(2,4) free by (intro slugs_update_row) auto
    moreover have "versions_ok (update_workflow_row i f db2)"
      using versions_cong [OF heads_update_workflow_row [of f i db2, OF f(1,3)]] r2 by simp
    ultimately show ?thesis unfolding s
      using tables_frame [of "switch_triggers e i (ub_enabled b) (update_workflow_row i f db2)" "update_workflow_row i f db2"] by simp
  qed (use r2 in simp)
qed (simp add: assms)

lemma rows_wf_exec:
  assumes "keys_ok db" and "rows_ok db"
  shows "rows_ok (wf_exec e ws op db)"
proof (cases op)
  case (PostVersion i m)
  with assms show ?thesis
    by (cases rule: post_version_cases [of e ws i m db]) (simp_all only: wf_exec.simps snd_add_draft rows_add_draft)
next
  case (Promote now i v)
  show ?thesis
  proof (cases rule: promote_cases [of e now ws i v db])
    case (promoted w x)
    then have "versions_ok (make_current i v db)" using assms by (intro versions_make_current) auto
    moreover have "slugs_ok (make_current i v db)"
    proof -
      have "map (\<lambda>w. (wr_ws w, wr_slug w)) (wd_wfs (make_current i v db)) = map (\<lambda>w. (wr_ws w, wr_slug w)) (wd_wfs db)"
        by (simp add: make_current_def update_workflow_row_def)
      then show ?thesis using assms(2) by (simp add: slugs_ok_def del: map_map)
    qed
    ultimately show ?thesis using promoted rows_reconcile Promote by simp
  qed (simp add: Promote assms)
next
  case (PostTrigger now i ty c)
  have "wd_wfs (snd (post_trigger e now ws i ty c db)) = wd_wfs db \<and> wd_versions (snd (post_trigger e now ws i ty c db)) = wd_versions db"
    by (cases rule: post_trigger_cases [of e now ws i ty c db]) simp_all
  with PostTrigger assms(2) tables_frame [of "snd (post_trigger e now ws i ty c db)" db] show ?thesis by simp
next
  case (PutTrigger now i k en c)
  have "wd_wfs (snd (put_trigger now ws i k en c db)) = wd_wfs db \<and> wd_versions (snd (put_trigger now ws i k en c db)) = wd_versions db"
    by (cases rule: put_trigger_cases [of now ws i k en c db]) simp_all
  with PutTrigger assms(2) tables_frame [of "snd (put_trigger now ws i k en c db)" db] show ?thesis by simp
next
  case (DeleteTrigger i k)
  have "wd_wfs (snd (delete_trigger ws i k db)) = wd_wfs db \<and> wd_versions (snd (delete_trigger ws i k db)) = wd_versions db"
    by (cases rule: delete_trigger_cases [of ws i k db]) simp_all
  with DeleteTrigger assms(2) tables_frame [of "snd (delete_trigger ws i k db)" db] show ?thesis by simp
next
  case (DeleteWorkflow i)
  let ?db = "update_workflow_row i (\<lambda>w. w\<lparr>wr_enabled := False\<rparr>) db"
  have "map (\<lambda>w. (wr_ws w, wr_slug w)) (wd_wfs ?db) = map (\<lambda>w. (wr_ws w, wr_slug w)) (wd_wfs db)"
    by (simp add: update_workflow_row_def)
  then have "slugs_ok ?db" using assms(2) by (simp add: slugs_ok_def del: map_map)
  moreover have "versions_ok ?db" using assms(2) versions_cong [OF heads_update_workflow_row] by simp
  ultimately have "rows_ok ?db" by simp
  then have "rows_ok (snd (delete_workflow ws i db))"
    using assms(2) by (cases "workflow_of ws i db") (simp_all add: delete_workflow_def tables_frame [of "update_triggers p f ?db" ?db for p f] \<open>rows_ok ?db\<close>)
  then show ?thesis using DeleteWorkflow by simp
qed (simp_all add: assms rows_post_workflow rows_put_workflow)

text \<open>
  C13: Whatever the members of the workspaces ask for, the tables stay consistent: ids are unique and
  every reference has its row, a slug is unique in its workspace, the versions of a workflow have
  different numbers, and every workflow has exactly one current version, the one its row refers to.
\<close>

theorem workflow_tables_consistent:
  "keys_ok (wf_run e ops) \<and> slugs_ok (wf_run e ops) \<and> versions_ok (wf_run e ops)"
  by (rule wf_run_keeps) (simp add: slugs_ok_def versions_ok_def workflow_heads_def, rule rows_wf_exec)

section \<open>The rows of other workspaces\<close>

definition ws_view :: "nat \<Rightarrow> wf_db \<Rightarrow> wf_row list \<times> wf_version list \<times> wf_trigger list" where
  "ws_view ws db =
     (filter (\<lambda>w. wr_ws w = ws) (wd_wfs db),
      filter (\<lambda>v. owner db (wv_wf v) = Some ws) (wd_versions db),
      filter (\<lambda>g. owner db (wt_wf g) = Some ws) (wd_triggers db))"

lemma filter_map_outside:
  "(\<And>x. x \<in> set xs \<Longrightarrow> Q (h x) = Q x) \<Longrightarrow> (\<And>x. x \<in> set xs \<Longrightarrow> Q x \<Longrightarrow> h x = x) \<Longrightarrow> filter Q (map h xs) = filter Q xs"
  by (induction xs) auto

lemma owner_known: "keys_ok db \<Longrightarrow> owner db i = Some ws \<Longrightarrow> i \<in> wr_id ` set (wd_wfs db)"
  by (auto simp: owner_iff)

lemma view_update_triggers:
  assumes other: "ws \<noteq> ws'" and "\<And>g. g \<in> set (wd_triggers db) \<Longrightarrow> p g \<Longrightarrow> owner db (wt_wf g) = Some ws" and "\<And>g. wt_wf (f g) = wt_wf g"
  shows "ws_view ws' (update_triggers p f db) = ws_view ws' db"
  unfolding ws_view_def tables_update_triggers
  by (subst filter_map_outside) (use other assms in auto)

lemma view_update_by_id:
  assumes other: "ws \<noteq> ws'" and "keys_ok db" and "g \<in> set (wd_triggers db)" and "owner db (wt_wf g) = Some ws" and "\<And>g. wt_wf (f g) = wt_wf g"
  shows "ws_view ws' (update_triggers (\<lambda>x. wt_id x = wt_id g) f db) = ws_view ws' db"
proof (rule view_update_triggers [OF other _ assms(5)])
  fix x assume "x \<in> set (wd_triggers db)" "wt_id x = wt_id g"
  then have "x = g"
    using inj_onD [of wt_id "set (wd_triggers db)" x g] assms(2,3) by (simp add: keys_ok_def distinct_map)
  with assms(4) show "owner db (wt_wf x) = Some ws" by simp
qed

lemma view_insert_trigger: "ws \<noteq> ws' \<Longrightarrow> owner db i = Some ws \<Longrightarrow> ws_view ws' (insert_trigger i ty c n db) = ws_view ws' db"
  unfolding ws_view_def tables_insert_trigger by (simp add: insert_trigger_def)

lemma view_insert_version: "ws \<noteq> ws' \<Longrightarrow> owner db i = Some ws \<Longrightarrow> ws_view ws' (insert_version i n y m c db) = ws_view ws' db"
  unfolding ws_view_def tables_insert_version by (simp add: insert_version_def)

lemma view_update_row:
  assumes other: "ws \<noteq> ws'" and "keys_ok db" and "owner db i = Some ws" and f: "\<And>w. wr_id (f w) = wr_id w" "\<And>w. wr_ws (f w) = wr_ws w"
  shows "ws_view ws' (update_workflow_row i f db) = ws_view ws' db"
proof -
  obtain w where w: "w \<in> set (wd_wfs db)" "wr_id w = i" "wr_ws w = ws" using assms(2,3) by (auto simp: owner_iff)
  have "x = w" if "x \<in> set (wd_wfs db)" "wr_id x = i" for x
    using inj_onD [of wr_id "set (wd_wfs db)" x w] assms(2) that w(1,2) by (simp add: keys_ok_def distinct_map)
  then have "filter (\<lambda>w. wr_ws w = ws') (map (\<lambda>w. if wr_id w = i then f w else w) (wd_wfs db)) = filter (\<lambda>w. wr_ws w = ws') (wd_wfs db)"
    using other w(3) by (intro filter_map_outside) (auto simp: f(2) split: if_splits)
  then show ?thesis
    unfolding ws_view_def owner_update_workflow_row [of f i db, OF f] tables_update_workflow_row
    by (simp add: update_workflow_row_def)
qed

lemma view_make_current:
  assumes other: "ws \<noteq> ws'" and "keys_ok db" and "owner db i = Some ws" and x: "x \<in> set (wd_versions db)" "wv_id x = v" "wv_wf x = i"
  shows "ws_view ws' (make_current i v db) = ws_view ws' db"
proof -
  let ?f = "(\<lambda>x. if wv_id x = v then x\<lparr>wv_current := True\<rparr> else x) \<circ> (\<lambda>x. if wv_wf x = i then x\<lparr>wv_current := False\<rparr> else x)"
  let ?db = "db\<lparr>wd_versions := map ?f (wd_versions db)\<rparr>"
  have o: "owner ?db = owner db" by (rule owner_cong) simp
  have only: "y = x" if "y \<in> set (wd_versions db)" "wv_id y = v" for y
    using inj_onD [of wv_id "set (wd_versions db)" y x] assms(2) that x(1,2) by (simp add: keys_ok_def distinct_map)
  have "filter (\<lambda>v. owner db (wv_wf v) = Some ws') (map ?f (wd_versions db)) = filter (\<lambda>v. owner db (wv_wf v) = Some ws') (wd_versions db)"
    using other x(3) assms(3) by (intro filter_map_outside) (auto dest: only split: if_splits)
  then have "ws_view ws' ?db = ws_view ws' db" unfolding ws_view_def o by simp
  moreover have "keys_ok ?db" by (rule keys_mark_versions [OF assms(2)]) simp_all
  ultimately show ?thesis
    unfolding make_current_def map_map by (subst view_update_row) (simp_all add: o other assms(3))
qed

lemma view_ensure_trigger:
  assumes other: "ws \<noteq> ws'" and "keys_ok db" and "owner db i = Some ws"
  shows "ws_view ws' (snd (ensure_trigger e now ws i slug t db)) = ws_view ws' db"
proof (cases "decl_next_fire t now")
  case None
  then show ?thesis by (simp add: ensure_trigger_def)
next
  case nf: (Some nf)
  let ?set = "\<lambda>g. g\<lparr>wt_config := stored_config slug t, wt_enabled := True, wt_next := nf\<rparr>"
  show ?thesis
  proof (cases "List.find (matches_trigger e i slug t) (wd_triggers db)")
    case (Some g)
    then have "g \<in> set (wd_triggers db)" "wt_wf g = i" by (auto simp: find_Some_iff matches_trigger_def)
    then have "ws_view ws' (update_triggers (\<lambda>x. wt_id x = wt_id g) ?set db) = ws_view ws' db"
      using assms by (intro view_update_by_id) auto
    with nf Some show ?thesis by (simp add: ensure_trigger_def Let_def)
  next
    case None
    let ?db = "insert_trigger i (decl_type t) (stored_config slug t) nf db"
    let ?g = "\<lparr>wt_id = wd_next db, wt_wf = i, wt_type = decl_type t, wt_config = stored_config slug t, wt_enabled = True, wt_next = nf\<rparr>"
    have "i \<in> wr_id ` set (wd_wfs db)" using owner_known assms by blast
    then have "keys_ok ?db" using assms(2) by (intro keys_insert_trigger)
    moreover have "?g \<in> set (wd_triggers ?db)" by (simp add: insert_trigger_def)
    ultimately have "ws_view ws' (update_triggers (\<lambda>x. wt_id x = wt_id ?g) ?set ?db) = ws_view ws' ?db"
      by (rule view_update_by_id [OF other]) (simp_all add: assms(3))
    then have "ws_view ws' (update_triggers (\<lambda>x. wt_id x = wd_next db) ?set ?db) = ws_view ws' db"
      using view_insert_trigger [OF other assms(3)] by simp
    with nf None show ?thesis by (simp add: ensure_trigger_def Let_def)
  qed
qed

lemma view_reconcile:
  assumes other: "ws \<noteq> ws'" and "keys_ok db" and "owner db i = Some ws"
  shows "ws_view ws' (snd (reconcile_triggers e now ws i m slug db)) = ws_view ws' db"
proof -
  let ?P = "\<lambda>s. keys_ok s \<and> wd_wfs s = wd_wfs db \<and> ws_view ws' s = ws_view ws' db"
  let ?db = "update_triggers (\<lambda>g. wt_wf g = i \<and> \<not> still_there (wm_triggers m) slug g) (\<lambda>g. g\<lparr>wt_enabled := False\<rparr>) db"
  have i: "i \<in> wr_id ` set (wd_wfs db)" using owner_known assms by blast
  have "?P ?db" using assms by (auto intro!: keys_update_triggers view_update_triggers)
  moreover have "?P (snd (ensure_trigger e now ws i slug t s))" if "?P s" for t s
  proof -
    have "owner s i = Some ws" using owner_cong [of s db] that assms(3) by simp
    then show ?thesis using that i other view_ensure_trigger keys_ensure_trigger ensure_trigger_frame by simp
  qed
  ultimately have "?P (snd (reconcile_triggers e now ws i m slug db))"
    unfolding reconcile_triggers_def by (rule each_keeps)
  then show ?thesis by simp
qed

lemma view_new_workflow:
  assumes other: "ws \<noteq> ws'" and "keys_ok db"
  shows "ws_view ws' (new_workflow_rows ws name s slug yaml m db) = ws_view ws' db"
    and "owner (new_workflow_rows ws name s slug yaml m db) (wd_next db) = Some ws"
proof -
  let ?w = "\<lparr>wr_id = wd_next db, wr_ws = ws, wr_name = name, wr_summary = nonempty s, wr_slug = slug, wr_enabled = True, wr_current = None\<rparr>"
  let ?db = "db\<lparr>wd_wfs := wd_wfs db @ [?w], wd_next := Suc (wd_next db)\<rparr>"
  have k: "keys_ok ?db" by (rule keys_append_workflow [OF assms(2)]) simp
  have fresh: "wd_next db \<notin> wr_id ` set (wd_wfs db)" using assms(2) by (fastforce simp: keys_ok_def)
  have old: "owner ?db j = owner db j" if "j \<in> wr_id ` set (wd_wfs db)" for j
    using that owner_iff [OF k, of j] owner_iff [OF assms(2), of j] fresh
    by (cases "owner db j") (auto simp: rev_image_eqI)
  have new: "owner ?db (wd_next db) = Some ws" using owner_iff [OF k] by auto
  have "ws_view ws' ?db = ws_view ws' db"
    using other assms old unfolding ws_view_def keys_ok_def by (auto intro!: filter_cong)
  moreover have "keys_ok (insert_version (wd_next db) 1 yaml m True ?db)" using k by (rule keys_insert_version) simp
  ultimately show "ws_view ws' (new_workflow_rows ws name s slug yaml m db) = ws_view ws' db"
    unfolding new_workflow_rows_def Let_def using new by (subst view_update_row) (simp_all add: other view_insert_version [OF other new, simplified])
  show "owner (new_workflow_rows ws name s slug yaml m db) (wd_next db) = Some ws"
    unfolding new_workflow_rows_def Let_def using new by (subst owner_update_workflow_row) simp_all
qed

lemma find_append_no: "\<not> P x \<Longrightarrow> List.find P (xs @ [x]) = List.find P xs"
  by (induction xs) auto

lemma owner_new_workflow:
  assumes "keys_ok db" and "j \<in> wr_id ` set (wd_wfs db)"
  shows "owner (new_workflow_rows ws name s slug yaml m db) j = owner db j"
proof -
  have "j \<noteq> wd_next db" using assms by (fastforce simp: keys_ok_def)
  then have "List.find (\<lambda>w. wr_id w = j) (wd_wfs db @ [\<lparr>wr_id = wd_next db, wr_ws = ws, wr_name = name,
      wr_summary = nonempty s, wr_slug = slug, wr_enabled = True, wr_current = None\<rparr>]) = List.find (\<lambda>w. wr_id w = j) (wd_wfs db)"
    by (intro find_append_no) simp
  then show ?thesis unfolding new_workflow_rows_def Let_def
    by (subst owner_update_workflow_row) (simp_all add: owner_def)
qed

lemma view_put_workflow:
  assumes other: "ws \<noteq> ws'" and "keys_ok db"
  shows "ws_view ws' (snd (put_workflow e now ws i b db)) = ws_view ws' db"
proof (rule put_workflow_cases [of e now ws i b db])
  fix w db1 slug db2
  assume w: "workflow_of ws i db = Some w" and d: "db1 = db \<or> (\<exists>yaml. db1 = snd (add_draft e i yaml db))"
    and c: "change_slug e now ws (wr_slug w) (ub_slug b) db1 = (slug, db2)"
    and r: "snd (put_workflow e now ws i b db) = db2 \<or>
       (slug = wr_slug w \<or> slug \<notin> set (taken_slugs ws db2)) \<and>
       (\<exists>f. (\<forall>w. wr_id (f w) = wr_id w \<and> wr_ws (f w) = wr_ws w \<and> wr_current (f w) = wr_current w \<and> wr_slug (f w) = slug) \<and>
            snd (put_workflow e now ws i b db) = switch_triggers e i (ub_enabled b) (update_workflow_row i f db2))"
  have o: "owner db i = Some ws" using w assms(2) by (rule workflow_of_owner [rotated])
  have 1: "ws_view ws' db1 = ws_view ws' db \<and> keys_ok db1 \<and> owner db1 = owner db"
    using d assms view_insert_version [OF other o] workflow_of_id [OF w] by (auto intro: keys_insert_version)
  have "ws_view ws' (rename_paths e ws (wr_slug w) slug db1) = ws_view ws' db1"
    unfolding rename_paths_def by (rule view_update_triggers [OF other]) auto
  then have 2: "ws_view ws' db2 = ws_view ws' db \<and> keys_ok db2 \<and> owner db2 = owner db"
    using 1 change_slug_cases [OF c] by (auto intro: keys_rename_paths)
  from r show ?thesis
  proof
    assume "(slug = wr_slug w \<or> slug \<notin> set (taken_slugs ws db2)) \<and>
       (\<exists>f. (\<forall>w. wr_id (f w) = wr_id w \<and> wr_ws (f w) = wr_ws w \<and> wr_current (f w) = wr_current w \<and> wr_slug (f w) = slug) \<and>
            snd (put_workflow e now ws i b db) = switch_triggers e i (ub_enabled b) (update_workflow_row i f db2))"
    then obtain f where f: "\<And>w. wr_id (f w) = wr_id w" "\<And>w. wr_ws (f w) = wr_ws w"
      and s: "snd (put_workflow e now ws i b db) = switch_triggers e i (ub_enabled b) (update_workflow_row i f db2)" by blast
    let ?db = "update_workflow_row i f db2"
    have "ws_view ws' ?db = ws_view ws' db" using view_update_row [OF other _ _ f] 2 o by simp
    moreover have "owner ?db i = Some ws" using owner_update_workflow_row [of f i db2, OF f] 2 o by simp
    then have "ws_view ws' (switch_triggers e i (ub_enabled b) ?db) = ws_view ws' ?db"
      by (auto simp: switch_triggers_def split: option.split bool.split intro!: view_update_triggers [OF other])
    ultimately show ?thesis unfolding s by simp
  qed (use 2 in simp)
qed simp

lemma view_wf_exec:
  assumes other: "ws \<noteq> ws'" and "keys_ok db"
  shows "ws_view ws' (wf_exec e ws op db) = ws_view ws' db"
proof (cases op)
  case (PostWorkflow now b)
  show ?thesis
    by (cases rule: post_workflow_cases [of e now ws b db])
      (use assms view_new_workflow [OF assms] keys_new_workflow_rows in \<open>simp_all add: PostWorkflow view_reconcile\<close>)
next
  case (PostVersion i m)
  show ?thesis
    by (cases rule: post_version_cases [of e ws i m db])
      (simp_all add: PostVersion view_insert_version [OF other] workflow_of_owner assms)
next
  case (Promote now i v)
  show ?thesis
  proof (cases rule: promote_cases [of e now ws i v db])
    case (promoted w x)
    have o: "owner db i = Some ws" by (rule workflow_of_owner [OF assms(2) promoted(1)])
    have "owner (make_current i v db) = owner db"
      unfolding make_current_def by (subst owner_update_workflow_row) (auto intro: owner_cong)
    then have "ws_view ws' (snd (promote e now ws i v db)) = ws_view ws' (make_current i v db)"
      unfolding promoted using o by (intro view_reconcile other keys_make_current assms) simp
    then show ?thesis using view_make_current [OF assms o promoted(2-4)] Promote by simp
  qed (simp add: Promote)
next
  case (PostTrigger now i ty c)
  show ?thesis
    by (cases rule: post_trigger_cases [of e now ws i ty c db])
      (simp_all add: PostTrigger view_insert_trigger [OF other] workflow_of_owner assms)
next
  case (PutTrigger now i k en c)
  show ?thesis
  proof (cases rule: put_trigger_cases [of now ws i k en c db])
    case (changed w g f)
    then show ?thesis using PutTrigger view_update_by_id [OF assms, of g f] workflow_of_owner [OF assms(2)] by simp
  qed (simp add: PutTrigger)
next
  case (DeleteTrigger i k)
  show ?thesis
    by (cases rule: delete_trigger_cases [of ws i k db])
      (auto simp: DeleteTrigger workflow_of_owner assms intro!: view_update_triggers [OF other])
next
  case (DeleteWorkflow i)
  show ?thesis
  proof (cases "workflow_of ws i db")
    case (Some w)
    have o: "owner db i = Some ws" by (rule workflow_of_owner [OF assms(2) Some])
    let ?db = "update_workflow_row i (\<lambda>w. w\<lparr>wr_enabled := False\<rparr>) db"
    have "owner ?db = owner db" by (rule owner_update_workflow_row) simp_all
    then have "ws_view ws' (update_triggers (\<lambda>g. wt_wf g = i) (\<lambda>g. g\<lparr>wt_enabled := False\<rparr>) ?db) = ws_view ws' ?db"
      using o by (intro view_update_triggers [OF other]) auto
    then show ?thesis using view_update_row [OF assms o, of "\<lambda>w. w\<lparr>wr_enabled := False\<rparr>"] Some DeleteWorkflow
      by (simp add: delete_workflow_def)
  qed (simp add: delete_workflow_def DeleteWorkflow)
qed (simp add: view_put_workflow assms)

text \<open>
  C6: No request of the members of one workspace changes a workflow, a version or a trigger of another
  workspace, whatever ids it names.
\<close>

theorem workspace_isolation:
  assumes "ws \<noteq> ws'"
  shows "ws_view ws' (wf_run e (ops @ [(ws, op)])) = ws_view ws' (wf_run e ops)"
  unfolding wf_run_snoc using assms keys_wf_run by (rule view_wf_exec)

section \<open>The version that runs execute\<close>

text \<open>What every start of a run reads: the workflow's current version.\<close>

definition current_of :: "nat \<Rightarrow> wf_db \<Rightarrow> wf_version option" where
  "current_of i db = List.find (\<lambda>v. wv_wf v = i \<and> wv_current v) (wd_versions db)"

lemma current_insert_version:
  "j \<noteq> i \<or> \<not> c \<Longrightarrow> current_of i (insert_version j n y m c db) = current_of i db"
  unfolding current_of_def insert_version_def by (auto intro: find_append_no)

lemma current_frame: "wd_versions db' = wd_versions db \<Longrightarrow> current_of i db' = current_of i db"
  by (simp add: current_of_def)

lemma current_new_workflow:
  "i \<noteq> wd_next db \<Longrightarrow> current_of i (new_workflow_rows ws name s slug yaml m db) = current_of i db"
  unfolding new_workflow_rows_def Let_def
  using current_insert_version [of "wd_next db" i True 1 yaml m] by (simp add: current_of_def)

lemma find_map_outside:
  "(\<And>x. x \<in> set xs \<Longrightarrow> Q (h x) = Q x) \<Longrightarrow> (\<And>x. x \<in> set xs \<Longrightarrow> Q x \<Longrightarrow> h x = x) \<Longrightarrow> List.find Q (map h xs) = List.find Q xs"
  by (induction xs) auto

lemma current_make_current:
  assumes "keys_ok db" and x: "x \<in> set (wd_versions db)" "wv_id x = v" "wv_wf x = j" and "i \<noteq> j"
  shows "current_of i (make_current j v db) = current_of i db"
proof -
  have only: "y = x" if "y \<in> set (wd_versions db)" "wv_id y = v" for y
    using inj_onD [of wv_id "set (wd_versions db)" y x] assms(1) that x(1,2) by (simp add: keys_ok_def distinct_map)
  show ?thesis unfolding current_of_def make_current_def tables_update_workflow_row map_map
    using x(3) assms(5) by (auto intro!: find_map_outside dest: only split: if_splits)
qed

lemma current_wf_exec:
  assumes "keys_ok db" and i: "i \<in> wr_id ` set (wd_wfs db)"
    and not_promoted: "\<not> (owner db i = Some ws \<and> (\<exists>now v. op = Promote now i v))"
  shows "current_of i (wf_exec e ws op db) = current_of i db"
proof (cases op)
  case (PostWorkflow now b)
  have "i \<noteq> wd_next db" using assms(1) i by (auto simp: keys_ok_def)
  then show ?thesis
    by (cases rule: post_workflow_cases [of e now ws b db])
      (simp_all only: PostWorkflow wf_exec.simps current_frame [OF reconcile_frame [THEN conjunct2]] current_new_workflow not_False_eq_True)
next
  case (PutWorkflow now j b)
  show ?thesis
  proof (cases rule: put_workflow_cases [of e now ws j b db])
    case (written w db1 slug db2)
    have "current_of i db1 = current_of i db" using written(2) by (auto simp: current_insert_version)
    moreover have "current_of i db2 = current_of i db1" by (rule current_frame [OF change_slug_frame(2) [OF written(3)]])
    ultimately show ?thesis using written(4) PutWorkflow by (auto simp: current_of_def)
  qed (simp add: PutWorkflow)
next
  case (PostVersion j m)
  show ?thesis
    by (cases rule: post_version_cases [of e ws j m db]) (simp_all add: PostVersion current_insert_version [of j i False])
next
  case (Promote now j v)
  show ?thesis
  proof (cases rule: promote_cases [of e now ws j v db])
    case (promoted w x)
    have "i \<noteq> j" using not_promoted Promote workflow_of_owner [OF assms(1) promoted(1)] by auto
    then have "current_of i (make_current j v db) = current_of i db"
      by (rule current_make_current [OF assms(1) promoted(2-4)])
    then show ?thesis using promoted(5) Promote current_frame [OF reconcile_frame [THEN conjunct2]] by simp
  qed (simp add: Promote)
next
  case (PostTrigger now j ty c)
  have "wd_versions (snd (post_trigger e now ws j ty c db)) = wd_versions db" by (cases rule: post_trigger_cases [of e now ws j ty c db]) simp_all
  then show ?thesis by (simp add: PostTrigger current_of_def)
next
  case (PutTrigger now j k en c)
  have "wd_versions (snd (put_trigger now ws j k en c db)) = wd_versions db" by (cases rule: put_trigger_cases [of now ws j k en c db]) simp_all
  then show ?thesis by (simp add: PutTrigger current_of_def)
next
  case (DeleteTrigger j k)
  have "wd_versions (snd (delete_trigger ws j k db)) = wd_versions db" by (cases rule: delete_trigger_cases [of ws j k db]) simp_all
  then show ?thesis by (simp add: DeleteTrigger current_of_def)
next
  case (DeleteWorkflow j)
  show ?thesis
    by (cases "workflow_of ws j db") (simp_all add: DeleteWorkflow delete_workflow_def current_of_def)
qed

text \<open>
  C24: The version that the runs of a workflow execute changes only by a promotion that its own
  workspace asks for; a draft, a rename, a deletion or another workspace leaves it.
\<close>

theorem only_promotion_changes_current:
  assumes "owner (wf_run e ops) i = Some ws'"
    and "\<not> (ws = ws' \<and> (\<exists>now v. op = Promote now i v))"
  shows "current_of i (wf_run e (ops @ [(ws, op)])) = current_of i (wf_run e ops)"
  unfolding wf_run_snoc
  by (rule current_wf_exec [OF keys_wf_run owner_known [OF keys_wf_run assms(1)]]) (use assms in auto)

section \<open>Readers without a workspace\<close>

lemma current_of_workflow:
  assumes "versions_ok db" and "w \<in> set (wd_wfs db)"
  obtains v where "current_of (wr_id w) db = Some v" "is_current_version (wd_versions db) (wr_id w) (wr_current w) v"
proof -
  have "(wr_id w, wr_current w) \<in> set (workflow_heads db)" using assms(2) by (auto simp: workflow_heads_def)
  then obtain v where v: "is_current_version (wd_versions db) (wr_id w) (wr_current w) v"
    using versions_okD [OF assms(1)] by blast
  then have "List.find (\<lambda>v. wv_wf v = wr_id w \<and> wv_current v) (wd_versions db) \<noteq> None"
    by (auto simp: is_current_version_def find_None_iff)
  then obtain u where u: "current_of (wr_id w) db = Some u" by (auto simp: current_of_def)
  then have "u \<in> set (wd_versions db) \<and> wv_wf u = wr_id w \<and> wv_current u"
    by (auto simp: current_of_def find_Some_iff)
  with v have "u = v" by (auto simp: is_current_version_def)
  with u v that show thesis by simp
qed

text \<open>
  The manifest of every workflow can be read from every workspace: the route answers with the
  current version, whichever workspace the caller belongs to, while the route of the workflow itself
  answers 404.
\<close>

theorem manifest_of_any_workspace:
  assumes "w \<in> set (wd_wfs (wf_run e ops))" and "wr_ws w \<noteq> ws"
  shows "\<exists>v. is_current_version (wd_versions (wf_run e ops)) (wr_id w) (wr_current w) v \<and>
           get_manifest ws (wr_id w) (wf_run e ops) = Inr (wv_yaml v, wv_num v) \<and>
           get_workflow ws (wr_id w) (wf_run e ops) = Inl (404, ''workflow_not_found'')"
proof -
  let ?db = "wf_run e ops"
  obtain v where v: "current_of (wr_id w) ?db = Some v" "is_current_version (wd_versions ?db) (wr_id w) (wr_current w) v"
    using current_of_workflow [OF _ assms(1)] workflow_tables_consistent by blast
  have "workflow_of ws (wr_id w) ?db = None"
  proof (rule ccontr)
    assume "workflow_of ws (wr_id w) ?db \<noteq> None"
    then obtain x where "x \<in> set (wd_wfs ?db)" "wr_id x = wr_id w" "wr_ws x = ws" by (auto dest: workflow_of_Some)
    moreover have "distinct (map wr_id (wd_wfs ?db))" using keys_wf_run by (auto simp: keys_ok_def)
    ultimately have "x = w" using assms(1) by (auto simp: distinct_map dest: inj_onD)
    with \<open>wr_ws x = ws\<close> assms(2) show False by simp
  qed
  with v show ?thesis by (auto simp: get_manifest_def get_workflow_def current_of_def)
qed

section \<open>An example\<close>

text \<open>The text of a manifest is the path of its one webhook.\<close>

definition path_trigger :: "jstr \<Rightarrow> entries" where
  "path_trigger p = [(js ''type'', JStr webhook_type), (js ''path'', JStr p)]"

definition sample_wf_env :: wf_env where
  "sample_wf_env =
     \<lparr>we_outside = \<lparr>yaml_load = (\<lambda>_. Some (JObj [])),
        schema_parse = (\<lambda>_. Inr \<lparr>mf_name = [], mf_inputs = [], mf_triggers = [], mf_steps = []\<rparr>),
        config_issues = (\<lambda>_ _. []), valid_zone = (\<lambda>_. True), lower_case = ascii_lower\<rparr>,
      we_manifest = (\<lambda>y. \<lparr>wm_summary = None, wm_triggers = [path_trigger y]\<rparr>),
      we_text = (\<lambda>_. [])\<rparr>"

definition sample_create :: "string \<Rightarrow> string \<Rightarrow> wf_op" where
  "sample_create name path =
     PostWorkflow 0 \<lparr>cb_name = Some (js name), cb_summary = None, cb_manifest_yaml = None, cb_manifest = Some (js path)\<rparr>"

definition sample_ops :: "(nat \<times> wf_op) list" where
  "sample_ops = [(1, sample_create ''w'' ''a''), (1, PostVersion 0 (Some (js ''b'')))]"

definition sample_tables :: wf_db where
  "sample_tables =
     \<lparr>wd_wfs = [\<lparr>wr_id = 0, wr_ws = 1, wr_name = js ''w'', wr_summary = None, wr_slug = js ''w'', wr_enabled = True, wr_current = Some 1\<rparr>],
      wd_versions =
        [\<lparr>wv_id = 1, wv_wf = 0, wv_num = 1, wv_yaml = js ''a'',
           wv_manifest = \<lparr>wm_summary = None, wm_triggers = [path_trigger (js ''a'')]\<rparr>, wv_current = True\<rparr>,
         \<lparr>wv_id = 3, wv_wf = 0, wv_num = 2, wv_yaml = js ''b'',
           wv_manifest = \<lparr>wm_summary = None, wm_triggers = [path_trigger (js ''b'')]\<rparr>, wv_current = False\<rparr>],
      wd_triggers = [\<lparr>wt_id = 2, wt_wf = 0, wt_type = webhook_type, wt_config = path_trigger (js ''a''), wt_enabled = True, wt_next = None\<rparr>],
      wd_next = 4\<rparr>"

lemma sample_yaml: "yaml_refused sample_wf_env [c] = None"
  by (simp add: yaml_refused_def sample_wf_env_def validate_manifest_def check_manifest_def validate_triggers_def
      validate_required_inputs_def MAX_NESTING_DEPTH_def)

lemma sample_run: "wf_run sample_wf_env sample_ops = sample_tables"
proof -
  let ?empty = "\<lparr>wd_wfs = [], wd_versions = [], wd_triggers = [], wd_next = 0\<rparr>"
  have slug: "slugify sample_wf_env (js ''w'') = js ''w''"
    by (simp add: slugify_def sample_wf_env_def ascii_lower_def lower_unit_def is_upper_def is_digit_def slug_char_def strip_dashes_def)
  have m: "we_manifest sample_wf_env y = \<lparr>wm_summary = None, wm_triggers = [path_trigger y]\<rparr>" for y
    by (simp add: sample_wf_env_def)
  have t: "decl_type (path_trigger y) = webhook_type" "decl_path s (path_trigger y) = y"
    "stored_config s (path_trigger y) = path_trigger y" for y s
    by (simp_all add: path_trigger_def decl_type_def field_of_def decl_path_def stored_config_def)
  have yaml: "yaml_refused sample_wf_env (js ''a'') = None" "yaml_refused sample_wf_env (js ''b'') = None"
    by (simp_all add: sample_yaml)
  let ?t1 = "sample_tables\<lparr>wd_versions := [hd (wd_versions sample_tables)], wd_next := 2, wd_triggers := []\<rparr>"
  let ?t2 = "sample_tables\<lparr>wd_versions := [hd (wd_versions sample_tables)], wd_next := 3\<rparr>"
  have slug': "next_free_slug 1 (js ''w'') 0 ?empty = js ''w''" "taken_slugs 1 ?empty = []"
    by (simp_all add: next_free_slug_def taken_slugs_def)
  have rows: "new_workflow_rows 1 (js ''w'') None (js ''w'') (js ''a'') (we_manifest sample_wf_env (js ''a'')) ?empty = ?t1"
    by (simp add: new_workflow_rows_def update_workflow_row_def insert_version_def sample_tables_def m nonempty_def del: js.simps)
  have "ensure_trigger sample_wf_env 0 1 0 (js ''w'') (path_trigger (js ''a'')) ?t1 = (Inr (), ?t2)"
    by (simp add: ensure_trigger_def decl_next_fire_def t path_taken_def insert_trigger_def update_triggers_def sample_tables_def)
  then have "reconcile_triggers sample_wf_env 0 1 0 (we_manifest sample_wf_env (js ''a'')) (js ''w'') ?t1 = (Inr (), ?t2)"
    by (simp add: reconcile_triggers_def m update_triggers_def del: js.simps)
  then have c: "create_workflow_from_manifest sample_wf_env 0 1 (js ''w'') None (js ''a'') (we_manifest sample_wf_env (js ''a'')) None ?empty =
      (Inr \<lparr>cw_id = 0, cw_version = Suc 0, cw_num = 1, cw_slug = js ''w''\<rparr>, ?t2)"
    using rows slug' slug by (simp add: create_workflow_from_manifest_def nonempty_def del: js.simps)
  have "nonempty (Some (js ''w'')) = Some (js ''w'')" "nonempty (Some (js ''a'')) = Some (js ''a'')" by (simp_all add: nonempty_def)
  then have first: "wf_exec sample_wf_env 1 (sample_create ''w'' ''a'') ?empty = ?t2"
    by (simp add: sample_create_def post_workflow_def yaml c [unfolded m, simplified One_nat_def] m nonempty_def [of None] del: js.simps)
  have "workflow_of 1 0 ?t2 \<noteq> None" by (simp add: workflow_of_def sample_tables_def)
  moreover have "text_given (Some (js ''b'')) = Some (js ''b'')" by (simp add: text_given_def trim_def is_space_def)
  moreover have "max_version 0 ?t2 = 1" by (simp add: max_version_def sample_tables_def)
  ultimately have "wf_exec sample_wf_env 1 (PostVersion 0 (Some (js ''b''))) ?t2 = sample_tables"
    using yaml(2) by (simp add: post_version_def add_draft_def insert_version_def m del: js.simps) (simp add: sample_tables_def)
  with first show ?thesis by (simp add: wf_run_def sample_ops_def)
qed


theorem workspace_isolation_witness:
  "ws_view 1 (wf_run sample_wf_env (sample_ops @ [(2, DeleteWorkflow 0)])) = ws_view 1 (wf_run sample_wf_env sample_ops) \<and>
   ws_view 1 (wf_run sample_wf_env sample_ops) \<noteq> ([], [], [])"
  using workspace_isolation [of 2 1 sample_wf_env sample_ops "DeleteWorkflow 0"]
  by (simp add: sample_run) (simp add: ws_view_def sample_tables_def)

lemma sample_owner: "owner sample_tables 0 = Some 1" "owner sample_tables 0 = Some (Suc 0)"
  by (simp_all add: owner_def sample_tables_def)

theorem only_promotion_changes_current_witness:
  "current_of 0 (wf_run sample_wf_env (sample_ops @ [(2, Promote 0 0 3)])) = current_of 0 (wf_run sample_wf_env sample_ops)"
  by (rule only_promotion_changes_current [where ws' = 1]) (simp_all add: sample_run sample_owner)

theorem manifest_of_any_workspace_witness:
  "\<exists>v :: wf_version. get_manifest 2 0 (wf_run sample_wf_env sample_ops) = Inr (wv_yaml v, wv_num v) \<and>
       get_workflow 2 0 (wf_run sample_wf_env sample_ops) = Inl (404, ''workflow_not_found'')"
proof -
  let ?w = "hd (wd_wfs sample_tables)"
  have i: "wr_id ?w = 0" and w: "?w \<in> set (wd_wfs (wf_run sample_wf_env sample_ops))" "wr_ws ?w \<noteq> 2"
    by (simp_all add: sample_run sample_tables_def)
  from manifest_of_any_workspace [OF w, unfolded i] show ?thesis by blast
qed

end
