(* ===== verification/WorkflowTriggers.thy ===== *)
theory WorkflowTriggers
  imports WorkflowVersions RunProps
begin

text \<open>
  Triggers: what a promotion installs, who owns a webhook path, what becomes of several schedules of one
  manifest and of a trigger that a promotion removed, and what the scheduler does about the triggers of
  a disabled workflow.
\<close>

section \<open>What reconciling installs\<close>

text \<open>A declared trigger has an enabled row.\<close>

definition served :: "wf_env \<Rightarrow> jstr \<Rightarrow> nat \<Rightarrow> entries \<Rightarrow> wf_db \<Rightarrow> bool" where
  "served e slug i t db \<longleftrightarrow>
     (\<exists>g \<in> set (wd_triggers db). wt_wf g = i \<and> wt_enabled g \<and> wt_type g = decl_type t \<and>
        (decl_type t = webhook_type \<longrightarrow> config_text e (wt_config g) ''path'' = Some (decl_path slug t)))"

text \<open>An enabled row is one that the manifest declares.\<close>

definition declared_only :: "jstr \<Rightarrow> nat \<Rightarrow> entries list \<Rightarrow> wf_db \<Rightarrow> bool" where
  "declared_only slug i ts db \<longleftrightarrow>
     (\<forall>g \<in> set (wd_triggers db). wt_wf g = i \<and> wt_enabled g \<longrightarrow> still_there ts slug g)"

lemma stored_config_path:
  "decl_type t = webhook_type \<Longrightarrow> map_of (stored_config slug t) (js ''path'') = Some (JStr (decl_path slug t))"
  by (simp add: stored_config_def del: js.simps)

lemma stored_config_text:
  "decl_type t = webhook_type \<Longrightarrow> config_text e (stored_config slug t) ''path'' = Some (decl_path slug t)"
  using stored_config_path by (simp add: config_text_def del: js.simps)

lemma stored_still_there:
  "t \<in> set ts \<Longrightarrow> wt_type g = decl_type t \<Longrightarrow> wt_config g = stored_config slug t \<Longrightarrow> still_there ts slug g"
  using stored_config_path [of t slug] by (auto simp: still_there_def simp del: js.simps)

text \<open>The row a declared trigger is written to: a matching one, or a new one.\<close>

definition write_row :: "jstr \<Rightarrow> entries \<Rightarrow> int option \<Rightarrow> wf_trigger \<Rightarrow> wf_trigger" where
  "write_row slug t nf g = g\<lparr>wt_config := stored_config slug t, wt_enabled := True, wt_next := nf\<rparr>"

lemma write_row_simps [simp]:
  "wt_id (write_row slug t nf g) = wt_id g" "wt_wf (write_row slug t nf g) = wt_wf g"
  "wt_type (write_row slug t nf g) = wt_type g" "wt_config (write_row slug t nf g) = stored_config slug t"
  "wt_enabled (write_row slug t nf g)"
  by (simp_all add: write_row_def)

lemma ensure_trigger_cases:
  assumes "keys_ok db"
  obtains (failed) err where "ensure_trigger e now ws i slug t db = (Inl err, db)"
  | (matched) g nf where "g \<in> set (wd_triggers db)" "matches_trigger e i slug t g"
      "ensure_trigger e now ws i slug t db =
       (Inr (), update_triggers (\<lambda>x. wt_id x = wt_id g) (write_row slug t nf) db)"
  | (inserted) nf where "\<forall>g \<in> set (wd_triggers db). \<not> matches_trigger e i slug t g"
      "decl_type t = webhook_type \<Longrightarrow> \<not> path_taken e ws (decl_path slug t) db"
      "ensure_trigger e now ws i slug t db = (Inr (), insert_trigger i (decl_type t) (stored_config slug t) nf db)"
proof (cases "decl_next_fire t now")
  case None
  then show thesis by (intro failed) (simp add: ensure_trigger_def)
next
  case nf: (Some nf)
  show thesis
  proof (cases "List.find (matches_trigger e i slug t) (wd_triggers db)")
    case (Some g)
    then have "g \<in> set (wd_triggers db)" "matches_trigger e i slug t g" by (auto simp: find_Some_iff)
    then show thesis using nf Some
      by (intro matched [of g nf]) (simp_all add: ensure_trigger_def write_row_def [abs_def] Let_def)
  next
    case None
    then have none: "\<forall>g \<in> set (wd_triggers db). \<not> matches_trigger e i slug t g" by (auto simp: find_None_iff)
    show thesis
    proof (cases "decl_type t = webhook_type \<and> path_taken e ws (decl_path slug t) db")
      case True
      with nf None show thesis by (intro failed) (simp add: ensure_trigger_def Let_def)
    next
      case False
      let ?f = "\<lambda>g. g\<lparr>wt_config := stored_config slug t, wt_enabled := True, wt_next := nf\<rparr>"
      have "map (\<lambda>g. if wt_id g = wd_next db then ?f g else g) (wd_triggers db) = wd_triggers db"
        using assms by (intro map_idI) (auto simp: keys_ok_def)
      then have "update_triggers (\<lambda>g. wt_id g = wd_next db) ?f (insert_trigger i (decl_type t) (stored_config slug t) nf db) =
          insert_trigger i (decl_type t) (stored_config slug t) nf db"
        by (simp add: update_triggers_def insert_trigger_def)
      with nf None False show thesis by (intro inserted [OF none, of nf]) (auto simp: ensure_trigger_def Let_def)
    qed
  qed
qed

lemma ensure_succeeds:
  assumes "decl_next_fire t now = Some nf" and "decl_type t = webhook_type \<longrightarrow> \<not> path_taken e ws (decl_path slug t) db"
  shows "\<exists>db'. ensure_trigger e now ws i slug t db = (Inr (), db')"
  using assms by (auto simp: ensure_trigger_def Let_def split: option.split simp del: js.simps)

lemma trigger_by_id: "keys_ok db \<Longrightarrow> g \<in> set (wd_triggers db) \<Longrightarrow> x \<in> set (wd_triggers db) \<Longrightarrow> wt_id x = wt_id g \<Longrightarrow> x = g"
  using inj_onD [of wt_id "set (wd_triggers db)" x g] by (simp add: keys_ok_def distinct_map)

lemma declared_only_ensure:
  assumes "keys_ok db" and "t \<in> set ts" and "declared_only slug i ts db"
  shows "declared_only slug i ts (snd (ensure_trigger e now ws i slug t db))"
using assms(1)
proof (cases rule: ensure_trigger_cases [of db e now ws i slug t])
  case (failed err)
  then show ?thesis using assms(3) by simp
next
  case (matched g nf)
  have "still_there ts slug (write_row slug t nf g)"
    using matched(2) by (intro stored_still_there [OF assms(2)]) (auto simp: matches_trigger_def)
  then show ?thesis using matched assms(3) trigger_by_id [OF assms(1) matched(1)]
    by (auto simp: declared_only_def)
next
  case (inserted nf)
  then show ?thesis using assms(3) stored_still_there [OF assms(2)]
    by (auto simp: declared_only_def insert_trigger_def)
qed

lemma served_ensure:
  assumes "keys_ok db" and "served e slug i u db \<or> u = t" and "ensure_trigger e now ws i slug t db = (Inr x, db')"
  shows "served e slug i u db'"
using assms(1)
proof (cases rule: ensure_trigger_cases [of db e now ws i slug t])
  case (failed err)
  then show ?thesis using assms(3) by simp
next
  case (matched g nf)
  let ?g = "write_row slug t nf g"
  have db': "db' = update_triggers (\<lambda>x. wt_id x = wt_id g) (write_row slug t nf) db" using matched assms(3) by simp
  have g': "?g \<in> set (wd_triggers db')" unfolding db' using matched(1) by auto
  have m: "wt_wf g = i" "wt_type g = decl_type t" "config_text e (wt_config g) ''path'' = match_key slug t"
    using matched(2) by (auto simp: matches_trigger_def)
  have t: "served e slug i t db'"
    unfolding served_def using m stored_config_text by (intro bexI [OF _ g']) auto
  show ?thesis
  proof (cases "u = t")
    case False
    with assms(2) obtain h where h: "h \<in> set (wd_triggers db)" "wt_wf h = i" "wt_enabled h" "wt_type h = decl_type u"
      "decl_type u = webhook_type \<longrightarrow> config_text e (wt_config h) ''path'' = Some (decl_path slug u)"
      by (auto simp: served_def)
    show ?thesis
    proof (cases "wt_id h = wt_id g")
      case True
      then have "h = g" using trigger_by_id [OF assms(1) matched(1) h(1)] by simp
      then have "decl_type u = decl_type t" "decl_type u = webhook_type \<longrightarrow> decl_path slug u = decl_path slug t"
        using h m by (auto simp: match_key_def)
      then show ?thesis using t by (auto simp: served_def)
    next
      case False
      then have "h \<in> set (wd_triggers db')" unfolding db' using h(1) by force
      then show ?thesis using h unfolding served_def by blast
    qed
  qed (use t in simp)
next
  case (inserted nf)
  then have "db' = insert_trigger i (decl_type t) (stored_config slug t) nf db" using assms(3) by simp
  then show ?thesis using assms(2) stored_config_text [of t e slug] unfolding served_def insert_trigger_def by fastforce
qed

lemma each_serves:
  assumes "keys_ok db" and "i \<in> wr_id ` set (wd_wfs db)" and "each_until_error (ensure_trigger e now ws i slug) ts db = (Inr x, db')"
    and "\<forall>u \<in> A. served e slug i u db"
  shows "\<forall>u \<in> A \<union> set ts. served e slug i u db'"
  using assms
proof (induction ts arbitrary: db A)
  case (Cons t ts)
  then obtain y db1 where t: "ensure_trigger e now ws i slug t db = (Inr y, db1)"
    and r: "each_until_error (ensure_trigger e now ws i slug) ts db1 = (Inr x, db')"
    by (auto split: prod.splits sum.splits)
  have db1: "db1 = snd (ensure_trigger e now ws i slug t db)" using t by simp
  have "\<forall>u \<in> insert t A. served e slug i u db1" using served_ensure [OF Cons.prems(1) _ t] Cons.prems(4) by blast
  moreover have "keys_ok db1" "i \<in> wr_id ` set (wd_wfs db1)"
    using Cons.prems(1,2) unfolding db1 by (simp_all add: ensure_trigger_frame keys_ensure_trigger)
  ultimately have "\<forall>u \<in> insert t A \<union> set ts. served e slug i u db'" using Cons.IH [OF _ _ r] by blast
  then show ?case by auto
qed simp

lemma reconcile_installs:
  assumes "keys_ok db" and "i \<in> wr_id ` set (wd_wfs db)" and "reconcile_triggers e now ws i m slug db = (Inr x, db')"
  shows "declared_only slug i (wm_triggers m) db' \<and> (\<forall>t \<in> set (wm_triggers m). served e slug i t db')"
proof -
  let ?ts = "wm_triggers m"
  let ?db = "update_triggers (\<lambda>g. wt_wf g = i \<and> \<not> still_there ?ts slug g) (\<lambda>g. g\<lparr>wt_enabled := False\<rparr>) db"
  let ?P = "\<lambda>s. keys_ok s \<and> i \<in> wr_id ` set (wd_wfs s) \<and> declared_only slug i ?ts s"
  have k: "keys_ok ?db" "i \<in> wr_id ` set (wd_wfs ?db)"
    by (rule keys_update_triggers [OF assms(1)]; simp) (simp only: tables_update_triggers assms(2))
  have "declared_only slug i ?ts ?db" unfolding declared_only_def
  proof (intro ballI impI)
    fix g assume "g \<in> set (wd_triggers ?db)" and on: "wt_wf g = i \<and> wt_enabled g"
    then obtain h where "h \<in> set (wd_triggers db)"
      "g = (if wt_wf h = i \<and> \<not> still_there ?ts slug h then h\<lparr>wt_enabled := False\<rparr> else h)"
      unfolding tables_update_triggers set_map by blast
    then show "still_there ?ts slug g" using on
      by (cases "wt_wf h = i \<and> \<not> still_there ?ts slug h") simp_all
  qed
  then have "?P ?db" using k by blast
  moreover have "?P (snd (ensure_trigger e now ws i slug t s))" if "t \<in> set ?ts" "?P s" for t s
    using that by (intro conjI keys_ensure_trigger declared_only_ensure) (auto simp only: ensure_trigger_frame)
  ultimately have "?P (snd (each_until_error (ensure_trigger e now ws i slug) ?ts ?db))" by (rule each_keeps)
  moreover have r: "each_until_error (ensure_trigger e now ws i slug) ?ts ?db = (Inr x, db')"
    using assms(3) by (simp only: reconcile_triggers_def)
  moreover have "\<forall>u \<in> {} \<union> set ?ts. served e slug i u db'" by (rule each_serves [OF k r]) simp
  ultimately show ?thesis by simp
qed

lemma current_of_unique:
  assumes "x \<in> set (wd_versions db)" and "wv_wf x = i" and "wv_current x"
    and "\<And>y. y \<in> set (wd_versions db) \<Longrightarrow> wv_wf y = i \<Longrightarrow> wv_current y \<Longrightarrow> y = x"
  shows "current_of i db = Some x"
proof -
  have "List.find (\<lambda>v. wv_wf v = i \<and> wv_current v) (wd_versions db) \<noteq> None"
    using assms(1-3) by (auto simp: find_None_iff)
  then obtain u where u: "current_of i db = Some u" by (auto simp: current_of_def)
  then have "u \<in> set (wd_versions db) \<and> wv_wf u = i \<and> wv_current u" by (auto simp: current_of_def find_Some_iff)
  with assms(4) u show ?thesis by simp
qed


section \<open>Webhook paths\<close>

text \<open>The paths of the webhook triggers of a workspace.\<close>

definition webhook_paths :: "wf_env \<Rightarrow> nat \<Rightarrow> wf_db \<Rightarrow> jstr option list" where
  "webhook_paths e ws db =
     map (\<lambda>g. config_text e (wt_config g) ''path'')
       (filter (\<lambda>g. owner db (wt_wf g) = Some ws \<and> wt_type g = webhook_type) (wd_triggers db))"

definition paths_unique :: "wf_env \<Rightarrow> wf_db \<Rightarrow> bool" where
  "paths_unique e db \<longleftrightarrow> (\<forall>ws. distinct (webhook_paths e ws db))"

text \<open>The requests that do not rename: no slug for a workflow and no path in the configuration of a trigger.\<close>

fun keeps_paths :: "wf_op \<Rightarrow> bool" where
  "keeps_paths (PutWorkflow now i b) = (text_given (ub_slug b) = None)"
| "keeps_paths (PutTrigger now i k en c) = (case c of None \<Rightarrow> True | Some c \<Rightarrow> js ''path'' \<notin> fst ` set c)"
| "keeps_paths _ = True"

lemma path_taken_iff: "path_taken e ws p db \<longleftrightarrow> Some p \<in> set (webhook_paths e ws db)"
  by (auto simp: path_taken_def webhook_paths_def list_ex_iff image_iff eq_commute [of "Some p"] simp del: js.simps)

lemma paths_frame: "owner db' = owner db \<Longrightarrow> wd_triggers db' = wd_triggers db \<Longrightarrow> paths_unique e db \<Longrightarrow> paths_unique e db'"
  by (simp add: paths_unique_def webhook_paths_def)

lemma map_filter_same:
  "(\<And>x. x \<in> set xs \<Longrightarrow> Q (h x) = Q x \<and> (Q x \<longrightarrow> k (h x) = k x)) \<Longrightarrow> map k (filter Q (map h xs)) = map k (filter Q xs)"
  by (induction xs) auto

lemma paths_update_triggers:
  assumes "paths_unique e db" and f: "\<And>g. wt_wf (f g) = wt_wf g" "\<And>g. wt_type (f g) = wt_type g"
    and path: "\<And>g. g \<in> set (wd_triggers db) \<Longrightarrow> p g \<Longrightarrow> wt_type g = webhook_type \<Longrightarrow>
      config_text e (wt_config (f g)) ''path'' = config_text e (wt_config g) ''path''"
  shows "paths_unique e (update_triggers p f db)"
proof -
  have "webhook_paths e ws (update_triggers p f db) = webhook_paths e ws db" for ws
    unfolding webhook_paths_def tables_update_triggers
    by (rule map_filter_same) (use f path in \<open>auto simp del: js.simps\<close>)
  then show ?thesis using assms(1) by (simp add: paths_unique_def)
qed

lemma paths_insert_trigger:
  assumes "paths_unique e db" and "owner db i = Some ws"
    and "ty = webhook_type \<Longrightarrow> \<exists>p. config_text e cfg ''path'' = Some p \<and> \<not> path_taken e ws p db"
  shows "paths_unique e (insert_trigger i ty cfg nf db)"
proof -
  have "webhook_paths e w (insert_trigger i ty cfg nf db) =
      webhook_paths e w db @ (if w = ws \<and> ty = webhook_type then [config_text e cfg ''path''] else [])" for w
    using assms(2) unfolding webhook_paths_def tables_insert_trigger by (auto simp: insert_trigger_def simp del: js.simps)
  then show ?thesis using assms(1,3) by (auto simp: paths_unique_def path_taken_iff simp del: js.simps)
qed

lemma paths_ensure_trigger:
  assumes "keys_ok db" and "owner db i = Some ws" and "paths_unique e db"
  shows "paths_unique e (snd (ensure_trigger e now ws i slug t db))"
  using assms(1)
proof (cases rule: ensure_trigger_cases [of db e now ws i slug t])
  case (matched g nf)
  have "paths_unique e (update_triggers (\<lambda>x. wt_id x = wt_id g) (write_row slug t nf) db)"
  proof (rule paths_update_triggers [OF assms(3)])
    fix h assume h: "h \<in> set (wd_triggers db)" "wt_id h = wt_id g" "wt_type h = webhook_type"
    then have hg: "h = g" using trigger_by_id [OF assms(1) matched(1)] by blast
    have m: "wt_type g = decl_type t" "config_text e (wt_config g) ''path'' = match_key slug t"
      using matched(2) by (simp_all only: matches_trigger_def)
    then have w: "decl_type t = webhook_type" using h(3) hg by metis
    show "config_text e (wt_config (write_row slug t nf h)) ''path'' = config_text e (wt_config h) ''path''"
      using stored_config_text [OF w, of e slug] m w unfolding hg by (simp add: match_key_def del: js.simps)
  qed simp_all
  then show ?thesis unfolding matched(3) by simp
next
  case (inserted nf)
  have "paths_unique e (insert_trigger i (decl_type t) (stored_config slug t) nf db)"
    using stored_config_text [of t e slug] inserted(2) by (intro paths_insert_trigger [OF assms(3,2)]) blast
  then show ?thesis unfolding inserted(3) by simp
qed (use assms(3) in simp)

lemma paths_reconcile:
  assumes "keys_ok db" and "owner db i = Some ws" and "paths_unique e db"
  shows "paths_unique e (snd (reconcile_triggers e now ws i m slug db))"
proof -
  let ?P = "\<lambda>s. keys_ok s \<and> wd_wfs s = wd_wfs db \<and> paths_unique e s"
  let ?db = "update_triggers (\<lambda>g. wt_wf g = i \<and> \<not> still_there (wm_triggers m) slug g) (\<lambda>g. g\<lparr>wt_enabled := False\<rparr>) db"
  have "?P ?db"
    by (intro conjI keys_update_triggers [OF assms(1)] paths_update_triggers [OF assms(3)]) simp_all
  moreover have "?P (snd (ensure_trigger e now ws i slug t s))" if "?P s" for t s
  proof -
    have o: "owner s i = Some ws" using owner_cong [of s db] that assms(2) by simp
    then show ?thesis
      using that by (intro conjI keys_ensure_trigger paths_ensure_trigger owner_known [OF _ o]) (simp_all only: ensure_trigger_frame)
  qed
  ultimately have "?P (snd (reconcile_triggers e now ws i m slug db))"
    unfolding reconcile_triggers_def by (rule each_keeps)
  then show ?thesis by simp
qed

lemma map_of_merge_config: "k \<notin> fst ` set c \<Longrightarrow> map_of (merge_config s c) k = map_of s k"
  unfolding merge_config_def by (induction c arbitrary: s) (auto split: prod.splits)

lemma paths_put_workflow:
  assumes "keys_ok db" and "paths_unique e db" and "text_given (ub_slug b) = None"
  shows "paths_unique e (snd (put_workflow e now ws i b db))"
proof (cases rule: put_workflow_cases [of e now ws i b db])
  case (written w db1 slug db2)
  have "paths_unique e db1" using written(2) assms(2) by (auto intro: paths_frame [of _ db])
  moreover have "db2 = db1" using written(3) assms(3) by (simp add: change_slug_def)
  ultimately have 2: "paths_unique e db2" by simp
  from written(4) show ?thesis
  proof
    assume "(slug = wr_slug w \<or> slug \<notin> set (taken_slugs ws db2)) \<and>
       (\<exists>f. (\<forall>w. wr_id (f w) = wr_id w \<and> wr_ws (f w) = wr_ws w \<and> wr_current (f w) = wr_current w \<and> wr_slug (f w) = slug) \<and>
            snd (put_workflow e now ws i b db) = switch_triggers e i (ub_enabled b) (update_workflow_row i f db2))"
    then obtain f where f: "\<And>w. wr_id (f w) = wr_id w" "\<And>w. wr_ws (f w) = wr_ws w"
      and s: "snd (put_workflow e now ws i b db) = switch_triggers e i (ub_enabled b) (update_workflow_row i f db2)" by blast
    have "paths_unique e (update_workflow_row i f db2)"
      by (rule paths_frame [OF owner_update_workflow_row [of f i db2, OF f] _ 2]) simp
    then show ?thesis unfolding s switch_triggers_def
      by (auto split: option.split bool.split intro!: paths_update_triggers simp del: js.simps)
  qed (use 2 in simp)
qed (simp add: assms(2))

lemma paths_wf_exec:
  assumes "keys_ok db" and "paths_unique e db" and "keeps_paths op"
  shows "paths_unique e (wf_exec e ws op db)"
proof (cases op)
  case (PostWorkflow now b)
  show ?thesis
  proof (cases rule: post_workflow_cases [of e now ws b db])
    case (created name s slug yaml m)
    let ?db = "new_workflow_rows ws name s slug yaml m db"
    have "webhook_paths e w ?db = webhook_paths e w db" for w
    proof -
      have tr: "wd_triggers ?db = wd_triggers db" by (simp add: new_workflow_rows_def Let_def)
      have "owner ?db (wt_wf g) = owner db (wt_wf g)" if "g \<in> set (wd_triggers db)" for g
        using assms(1) that by (intro owner_new_workflow) (auto simp: keys_ok_def)
      then show ?thesis unfolding webhook_paths_def tr by (intro arg_cong [of _ _ "map _"] filter_cong) simp_all
    qed
    then have "paths_unique e ?db" using assms(2) by (simp add: paths_unique_def)
    then have "paths_unique e (snd (reconcile_triggers e now ws (wd_next db) m slug ?db))"
      using assms(1) by (intro paths_reconcile keys_new_workflow_rows view_new_workflow(2) [of ws "Suc ws"]) simp_all
    then show ?thesis using PostWorkflow created(2) by simp
  qed (simp add: PostWorkflow assms(2))
next
  case (PutWorkflow now i b)
  then show ?thesis using assms by (simp add: paths_put_workflow)
next
  case (PostVersion i m)
  have "owner (snd (post_version e ws i m db)) = owner db \<and> wd_triggers (snd (post_version e ws i m db)) = wd_triggers db"
    by (cases rule: post_version_cases [of e ws i m db]) simp_all
  then show ?thesis using PostVersion paths_frame [OF _ _ assms(2)] by simp
next
  case (Promote now i v)
  show ?thesis
  proof (cases rule: promote_cases [of e now ws i v db])
    case (promoted w x)
    have o: "owner (make_current i v db) = owner db"
      unfolding make_current_def by (subst owner_update_workflow_row) (auto intro: owner_cong)
    have "paths_unique e (make_current i v db)"
      by (rule paths_frame [OF o _ assms(2)]) (simp add: make_current_def)
    then have "paths_unique e (snd (promote e now ws i v db))" unfolding promoted(5)
      using workflow_of_owner [OF assms(1) promoted(1)] by (intro paths_reconcile keys_make_current assms(1)) (simp_all only: o)
    then show ?thesis using Promote by simp
  qed (simp add: Promote assms(2))
next
  case (PostTrigger now i ty c)
  show ?thesis
  proof (cases rule: post_trigger_cases [of e now ws i ty c db])
    case (added w ty' cfg nf)
    have "\<exists>p. config_text e cfg ''path'' = Some p \<and> \<not> path_taken e ws p db" if "ty' = webhook_type"
    proof -
      have "ty' \<noteq> schedule_type" using that by simp
      then obtain p where "map_of cfg (js ''path'') = Some (JStr p)" "\<not> path_taken e ws p db" using added(3) by blast
      then show ?thesis by (auto simp: config_text_def simp del: js.simps)
    qed
    then have "paths_unique e (insert_trigger i ty' cfg nf db)"
      by (intro paths_insert_trigger [OF assms(2) workflow_of_owner [OF assms(1) added(1)]])
    then show ?thesis using PostTrigger added(2) by simp
  qed (simp add: PostTrigger assms(2))
next
  case (PutTrigger now i k en c)
  show ?thesis
  proof (cases rule: put_trigger_cases [of now ws i k en c db])
    case (changed w g f)
    have "config_text e (wt_config (f h)) ''path'' = config_text e (wt_config h) ''path''"
      if "h \<in> set (wd_triggers db)" "wt_id h = k" for h
    proof -
      have "h = g" using trigger_by_id [OF assms(1) changed(2) that(1)] that(2) changed(3) by simp
      moreover have "map_of (wt_config (f g)) (js ''path'') = map_of (wt_config g) (js ''path'')"
        unfolding changed(9) using assms(3) PutTrigger by (cases c) (simp_all add: map_of_merge_config del: js.simps)
      ultimately show ?thesis by (simp add: config_text_def del: js.simps)
    qed
    then have "paths_unique e (update_triggers (\<lambda>g. wt_id g = k) f db)"
      by (intro paths_update_triggers [OF assms(2) changed(7,8)])
    then show ?thesis using PutTrigger changed(5) by simp
  qed (simp add: PutTrigger assms(2))
next
  case (DeleteTrigger i k)
  show ?thesis
  proof (cases rule: delete_trigger_cases [of ws i k db])
    case (off w)
    have "paths_unique e (update_triggers (\<lambda>g. wt_id g = k \<and> wt_wf g = i) (\<lambda>g. g\<lparr>wt_enabled := False\<rparr>) db)"
      by (rule paths_update_triggers [OF assms(2)]) simp_all
    then show ?thesis using DeleteTrigger off(2) by simp
  qed (simp add: DeleteTrigger assms(2))
next
  case (DeleteWorkflow i)
  let ?db = "update_workflow_row i (\<lambda>w. w\<lparr>wr_enabled := False\<rparr>) db"
  have "owner ?db = owner db" by (rule owner_update_workflow_row) simp_all
  then have "paths_unique e ?db" by (rule paths_frame [OF _ _ assms(2)]) simp
  then have "paths_unique e (update_triggers (\<lambda>g. wt_wf g = i) (\<lambda>g. g\<lparr>wt_enabled := False\<rparr>) ?db)"
    by (rule paths_update_triggers) simp_all
  then show ?thesis using assms(2) DeleteWorkflow by (cases "workflow_of ws i db") (simp_all add: delete_workflow_def)
qed

text \<open>
  C23: As long as no request renames a workflow or puts a path into a trigger's configuration, the
  webhook triggers of a workspace have different paths, enabled or not.
\<close>

theorem webhook_paths_unique:
  assumes "list_all (\<lambda>(ws, op). keeps_paths op) ops"
  shows "distinct (webhook_paths e ws (wf_run e ops))"
proof -
  have "keys_ok (wf_run e ops) \<and> paths_unique e (wf_run e ops)"
    by (rule wf_run_keeps)
      (simp add: paths_unique_def webhook_paths_def, use assms in \<open>auto simp: list_all_iff intro!: paths_wf_exec\<close>)
  then show ?thesis by (simp add: paths_unique_def)
qed

section \<open>Several schedules of one manifest\<close>

definition rows_of :: "nat \<Rightarrow> wf_db \<Rightarrow> wf_trigger list" where
  "rows_of i db = filter (\<lambda>g. wt_wf g = i) (wd_triggers db)"

text \<open>A schedule as the schema has it: no path.\<close>

definition plain_schedule :: "entries \<Rightarrow> bool" where
  "plain_schedule t \<longleftrightarrow> decl_type t = schedule_type \<and> map_of t (js ''path'') = None"

lemma plain_schedule_simps:
  "plain_schedule t \<Longrightarrow> stored_config slug t = t \<and> match_key slug t = None \<and> config_text e t ''path'' = None \<and> decl_type t = schedule_type"
  by (simp add: plain_schedule_def stored_config_def match_key_def config_text_def)

lemma filter_map_commute: "(\<And>x. Q (h x) = Q x) \<Longrightarrow> filter Q (map h xs) = map h (filter Q xs)"
  by (induction xs) auto

lemma ensure_schedule:
  assumes "keys_ok db" and t: "plain_schedule t" and "ensure_trigger e now ws i slug t db = (Inr x, db')"
    and rows: "rows_of i db = [] \<or> (\<exists>g. rows_of i db = [g] \<and> wt_type g = schedule_type \<and> config_text e (wt_config g) ''path'' = None)"
  shows "\<exists>g. rows_of i db' = [g] \<and> wt_type g = schedule_type \<and> wt_config g = t \<and> wt_enabled g"
  using assms(1)
proof (cases rule: ensure_trigger_cases [of db e now ws i slug t])
  case (failed err)
  then show ?thesis using assms(3) by simp
next
  case (matched g nf)
  have g: "g \<in> set (rows_of i db)" using matched(1,2) by (simp add: rows_of_def matches_trigger_def)
  then have "rows_of i db = [g]" "wt_type g = schedule_type" using rows by auto
  moreover have "rows_of i db' = map (\<lambda>x. if wt_id x = wt_id g then write_row slug t nf x else x) (rows_of i db)"
    using matched(3) assms(3) unfolding rows_of_def by (subst filter_map_commute [symmetric]) auto
  ultimately show ?thesis using plain_schedule_simps [OF t, of slug e] by simp
next
  case (inserted nf)
  have db': "db' = insert_trigger i (decl_type t) (stored_config slug t) nf db" using inserted(3) assms(3) by simp
  have "rows_of i db = []"
  proof (rule ccontr)
    assume "rows_of i db \<noteq> []"
    then obtain g where g: "rows_of i db = [g]" "wt_type g = schedule_type" "config_text e (wt_config g) ''path'' = None"
      using rows by blast
    then have "g \<in> set (wd_triggers db)" "wt_wf g = i" by (auto simp: rows_of_def filter_eq_Cons_iff)
    then show False using inserted(1) g plain_schedule_simps [OF t, of slug e] by (auto simp: matches_trigger_def)
  qed
  then show ?thesis unfolding db' using plain_schedule_simps [OF t, of slug e] by (simp add: rows_of_def insert_trigger_def)
qed

lemma each_schedule:
  assumes "keys_ok db" and "i \<in> wr_id ` set (wd_wfs db)" and "list_all plain_schedule ts"
    and "each_until_error (ensure_trigger e now ws i slug) ts db = (Inr x, db')"
    and "rows_of i db = [g]" and "wt_type g = schedule_type" and "wt_config g = t" and "plain_schedule t" and "wt_enabled g"
  shows "\<exists>g. rows_of i db' = [g] \<and> wt_enabled g \<and> wt_config g = last (t # ts)"
  using assms
proof (induction ts arbitrary: db g t)
  case (Cons u ts)
  obtain y db1 where u: "ensure_trigger e now ws i slug u db = (Inr y, db1)"
    and r: "each_until_error (ensure_trigger e now ws i slug) ts db1 = (Inr x, db')"
    using Cons.prems(4) by (auto split: prod.splits sum.splits)
  have pu: "plain_schedule u" using Cons.prems(3) by simp
  have "config_text e (wt_config g) ''path'' = None" using plain_schedule_simps [OF Cons.prems(8)] Cons.prems(7) by simp
  then obtain h where h: "rows_of i db1 = [h]" "wt_type h = schedule_type" "wt_config h = u" "wt_enabled h"
    using ensure_schedule [OF Cons.prems(1) pu u] Cons.prems(5,6) by blast
  have db1: "db1 = snd (ensure_trigger e now ws i slug u db)" using u by simp
  have "keys_ok db1" "i \<in> wr_id ` set (wd_wfs db1)"
    using Cons.prems(1,2) unfolding db1 by (simp_all only: ensure_trigger_frame keys_ensure_trigger)
  then show ?case using Cons.IH [OF _ _ _ r h(1-3) pu h(4)] Cons.prems(3) by simp
qed auto


section \<open>Disabling and enabling\<close>

text \<open>The body that only switches a workflow.\<close>

definition switch_body :: "bool \<Rightarrow> update_body" where
  "switch_body f = \<lparr>ub_name = None, ub_summary = None, ub_enabled = Some f, ub_slug = None, ub_manifest = None\<rparr>"

lemma put_switch:
  assumes "workflow_of ws i db = Some w"
  shows "wd_triggers (snd (put_workflow e now ws i (switch_body f) db)) =
      map (\<lambda>g. if wt_wf g = i \<and> (f \<longrightarrow> config_text e (wt_config g) ''type'' \<noteq> None) then g\<lparr>wt_enabled := f\<rparr> else g) (wd_triggers db)"
    and "\<exists>w'. workflow_of ws i (snd (put_workflow e now ws i (switch_body f) db)) = Some w'"
proof -
  let ?f = "\<lambda>x. x\<lparr>wr_name := wr_name x, wr_slug := wr_slug w, wr_enabled := f, wr_summary := wr_summary x\<rparr>"
  have s: "snd (put_workflow e now ws i (switch_body f) db) = switch_triggers e i (Some f) (update_workflow_row i ?f db)"
    using assms by (simp add: put_workflow_def switch_body_def text_given_def change_slug_def nonempty_def Let_def)
  show "wd_triggers (snd (put_workflow e now ws i (switch_body f) db)) =
      map (\<lambda>g. if wt_wf g = i \<and> (f \<longrightarrow> config_text e (wt_config g) ''type'' \<noteq> None) then g\<lparr>wt_enabled := f\<rparr> else g) (wd_triggers db)"
    unfolding s by (cases f) (simp_all add: switch_triggers_def del: not_None_eq)
  have "w \<in> set (wd_wfs db)" "wr_id w = i" "wr_ws w = ws" using workflow_of_Some [OF assms] by auto
  then have "?f w \<in> set (wd_wfs (update_workflow_row i ?f db)) \<and> wr_id (?f w) = i \<and> wr_ws (?f w) = ws"
    by (auto simp: update_workflow_row_def image_iff intro!: bexI [of _ w])
  then have "workflow_of ws i (update_workflow_row i ?f db) \<noteq> None"
    unfolding workflow_of_def find_None_iff by blast
  then show "\<exists>w'. workflow_of ws i (snd (put_workflow e now ws i (switch_body f) db)) = Some w'"
    unfolding s workflow_of_def by simp
qed

text \<open>A webhook row whose path the manifest does not declare is switched off and left alone.\<close>

lemma reconcile_drops:
  assumes "keys_ok db" and "i \<in> wr_id ` set (wd_wfs db)" and g: "g \<in> set (wd_triggers db)" "wt_wf g = i" "wt_type g = webhook_type"
    and p: "map_of (wt_config g) (js ''path'') = Some (JStr p)" and gone: "\<not> still_there (wm_triggers m) slug g"
  shows "g\<lparr>wt_enabled := False\<rparr> \<in> set (wd_triggers (snd (reconcile_triggers e now ws i m slug db)))"
proof -
  let ?ts = "wm_triggers m"
  let ?g = "g\<lparr>wt_enabled := False\<rparr>"
  let ?start = "update_triggers (\<lambda>g. wt_wf g = i \<and> \<not> still_there ?ts slug g) (\<lambda>g. g\<lparr>wt_enabled := False\<rparr>) db"
  let ?P = "\<lambda>s. keys_ok s \<and> i \<in> wr_id ` set (wd_wfs s) \<and> ?g \<in> set (wd_triggers s)"
  have path_text: "config_text e (wt_config ?g) ''path'' = Some p" using p by (simp add: config_text_def)
  have no: "\<not> matches_trigger e i slug t ?g" if "t \<in> set ?ts" for t
  proof
    assume "matches_trigger e i slug t ?g"
    then have "decl_type t = webhook_type" "decl_path slug t = p"
      using g(3) path_text unfolding matches_trigger_def match_key_def by (auto split: if_splits simp del: js.simps)
    then have "still_there ?ts slug g"
      using that g(3) p unfolding still_there_def by (auto simp: image_iff simp del: js.simps intro!: bexI [of _ t])
    with gone show False ..
  qed
  have "keys_ok ?start" by (rule keys_update_triggers [OF assms(1)]) simp_all
  moreover have "?g \<in> set (wd_triggers ?start)"
    unfolding tables_update_triggers set_map by (rule image_eqI [OF _ g(1)]) (simp add: g(2) gone)
  ultimately have "?P ?start" using assms(2) by simp
  moreover have "?P (snd (ensure_trigger e now ws i slug t s))" if t: "t \<in> set ?ts" and s: "?P s" for t s
  proof -
    from s have ks: "keys_ok s" and gs: "?g \<in> set (wd_triggers s)" by auto
    have "?g \<in> set (wd_triggers (snd (ensure_trigger e now ws i slug t s)))"
      using ks
    proof (cases rule: ensure_trigger_cases [of s e now ws i slug t])
      case (matched h nf)
      have "wt_id ?g \<noteq> wt_id h" using trigger_by_id [OF ks matched(1) gs] no [OF t] matched(2) by auto
      then show ?thesis unfolding matched(3) snd_conv tables_update_triggers set_map
        by (intro image_eqI [OF _ gs]) simp
    qed (use gs in \<open>simp_all add: insert_trigger_def\<close>)
    then show ?thesis using s by (simp only: ensure_trigger_frame keys_ensure_trigger)
  qed
  ultimately have "?P (snd (each_until_error (ensure_trigger e now ws i slug) ?ts ?start))" by (rule each_keeps)
  then show ?thesis by (simp only: reconcile_triggers_def)
qed

text \<open>
  A webhook that a promotion removed comes back when the workflow is disabled and enabled: the
  promotion leaves its row disabled, the two requests leave it enabled with the path it had, although
  the current version does not declare it.
\<close>

theorem removed_trigger_revived:
  assumes "promote e now ws i v (wf_run e ops) = (Inr n, db)"
    and "workflow_of ws i (wf_run e ops) = Some w" and "x \<in> set (wd_versions (wf_run e ops))" and "wv_id x = v"
    and "g \<in> set (wd_triggers (wf_run e ops))" and "wt_wf g = i" and "wt_type g = webhook_type"
    and "map_of (wt_config g) (js ''path'') = Some (JStr p)" and "config_text e (wt_config g) ''type'' \<noteq> None"
    and "\<not> still_there (wm_triggers (wv_manifest x)) (wr_slug w) g"
  shows "g\<lparr>wt_enabled := False\<rparr> \<in> set (wd_triggers db) \<and>
     g\<lparr>wt_enabled := True\<rparr> \<in> set (wd_triggers
       (wf_exec e ws (PutWorkflow t2 i (switch_body True)) (wf_exec e ws (PutWorkflow t1 i (switch_body False)) db)))"
proof -
  let ?db = "wf_run e ops"
  let ?g = "g\<lparr>wt_enabled := False\<rparr>"
  let ?new = "make_current i v ?db"
  obtain y where y: "y \<in> set (wd_versions ?db)" "wv_id y = v"
    and r: "reconcile_triggers e now ws i (wv_manifest y) (wr_slug w) ?new = (Inr (), db)"
    using assms(1,2) by (auto simp: promote_def dest!: find_SomeD split: option.splits prod.splits sum.splits)
  have "y = x"
    using inj_onD [of wv_id "set (wd_versions ?db)" y x] keys_wf_run [of e ops] y assms(3,4) by (simp add: keys_ok_def distinct_map)
  have i: "i \<in> wr_id ` set (wd_wfs ?new)" using workflow_of_id [OF assms(2)] by (simp only: make_current_ids)
  have "g \<in> set (wd_triggers ?new)" using assms(5) by (simp add: make_current_def)
  from reconcile_drops [OF keys_make_current [OF keys_wf_run] i this assms(6-8,10), of e now ws]
  have g: "?g \<in> set (wd_triggers db)" using r \<open>y = x\<close> by simp
  have "wd_wfs db = wd_wfs ?new" using reconcile_frame [of e now ws i "wv_manifest y" "wr_slug w" ?new] r by simp
  then have "map (\<lambda>w. (wr_id w, wr_ws w)) (wd_wfs db) = map (\<lambda>w. (wr_id w, wr_ws w)) (wd_wfs ?db)"
    by (simp add: make_current_def update_workflow_row_def)
  then have "(i, ws) \<in> (\<lambda>w. (wr_id w, wr_ws w)) ` set (wd_wfs db)"
    using workflow_of_Some [OF assms(2)] by (metis (mono_tags, lifting) image_eqI list.set_map)
  then obtain w1 where w1: "workflow_of ws i db = Some w1"
    by (cases "workflow_of ws i db") (auto simp: workflow_of_def find_None_iff)
  let ?off = "snd (put_workflow e t1 ws i (switch_body False) db)"
  obtain w2 where w2: "workflow_of ws i ?off = Some w2" using put_switch(2) [OF w1] by blast
  have "?g \<in> set (wd_triggers ?off)"
    unfolding put_switch(1) [OF w1] set_map by (rule image_eqI [OF _ g]) simp
  then have "g\<lparr>wt_enabled := True\<rparr> \<in> set (wd_triggers (snd (put_workflow e t2 ws i (switch_body True) ?off)))"
    unfolding put_switch(1) [OF w2] set_map by (rule image_eqI [rotated]) (use assms(6,9) in simp)
  with g show ?thesis by simp
qed

section \<open>A path put into a configuration\<close>

text \<open>
  The route that updates a trigger does not look whether its new path is taken: it answers with
  success and leaves two webhooks of the workspace with one path.
\<close>

theorem updated_path_collides:
  assumes "workflow_of ws (wt_wf g) (wf_run e ops) = Some w"
    and "g \<in> set (wd_triggers (wf_run e ops))" and "h \<in> set (wd_triggers (wf_run e ops))" and "wt_id g \<noteq> wt_id h"
    and "wt_type g = webhook_type" and "wt_type h = webhook_type" and "owner (wf_run e ops) (wt_wf h) = Some ws"
    and "config_text e (wt_config h) ''path'' = Some p"
  shows "put_trigger now ws (wt_wf g) (wt_id g) None (Some [(js ''path'', JStr p)]) (wf_run e ops) =
      (Inr (), wf_exec e ws (PutTrigger now (wt_wf g) (wt_id g) None (Some [(js ''path'', JStr p)])) (wf_run e ops)) \<and>
    \<not> distinct (webhook_paths e ws
        (wf_exec e ws (PutTrigger now (wt_wf g) (wt_id g) None (Some [(js ''path'', JStr p)])) (wf_run e ops)))"
proof -
  let ?db = "wf_run e ops"
  let ?cfg = "AList.update (js ''path'') (JStr p) (wt_config g)"
  let ?new = "update_triggers (\<lambda>x. wt_id x = wt_id g) (\<lambda>x. x\<lparr>wt_config := ?cfg\<rparr>) ?db"
  have f: "List.find (\<lambda>x. wt_id x = wt_id g \<and> wt_wf x = wt_wf g) (wd_triggers ?db) = Some g"
  proof -
    have "List.find (\<lambda>x. wt_id x = wt_id g \<and> wt_wf x = wt_wf g) (wd_triggers ?db) \<noteq> None"
      using assms(2) by (auto simp: find_None_iff)
    then obtain x where x: "List.find (\<lambda>x. wt_id x = wt_id g \<and> wt_wf x = wt_wf g) (wd_triggers ?db) = Some x" by blast
    from find_SomeD [OF this] trigger_by_id [OF keys_wf_run assms(2)] have "x = g" by blast
    with x show ?thesis by simp
  qed
  have "webhook_type \<noteq> schedule_type" by simp
  then have put: "put_trigger now ws (wt_wf g) (wt_id g) None (Some [(js ''path'', JStr p)]) ?db = (Inr (), ?new)"
    unfolding put_trigger_def assms(1) f by (simp add: assms(5) merge_config_def Let_def del: js.simps)
  have o: "owner ?db (wt_wf g) = Some ws" by (rule workflow_of_owner [OF keys_wf_run assms(1)])
  let ?k = "\<lambda>x. config_text e (wt_config x) ''path''"
  let ?rows = "filter (\<lambda>x. owner ?db (wt_wf x) = Some ws \<and> wt_type x = webhook_type) (wd_triggers ?new)"
  have "g\<lparr>wt_config := ?cfg\<rparr> \<in> set (wd_triggers ?new)"
    unfolding tables_update_triggers set_map by (rule image_eqI [OF _ assms(2)]) simp
  then have g: "g\<lparr>wt_config := ?cfg\<rparr> \<in> set ?rows" using o assms(5) by (simp del: js.simps)
  have "h \<in> set (wd_triggers ?new)"
    unfolding tables_update_triggers set_map by (rule image_eqI [OF _ assms(3)]) (use assms(4) in simp)
  then have h: "h \<in> set ?rows" using assms(6,7) by (simp del: js.simps)
  have "?k (g\<lparr>wt_config := ?cfg\<rparr>) = ?k h" using assms(8) by (simp add: config_text_def del: js.simps)
  moreover have "g\<lparr>wt_config := ?cfg\<rparr> \<noteq> h" using assms(4) by auto
  ultimately have "\<not> inj_on ?k (set ?rows)" using inj_onD [OF _ _ g h] by blast
  then have "\<not> distinct (webhook_paths e ws ?new)"
    by (auto simp: webhook_paths_def distinct_map simp del: js.simps)
  with put show ?thesis by (simp del: js.simps)
qed

section \<open>Triggers of disabled workflows\<close>

definition stale_trigger :: "int \<Rightarrow> store \<Rightarrow> trigger_row \<Rightarrow> bool" where
  "stale_trigger now db g \<longleftrightarrow> tg_enabled g \<and> tg_next g \<le> now \<and>
     (case List.find (\<lambda>w. wf_id w = tg_wf g) (db_wfs db) of None \<Rightarrow> False | Some w \<Rightarrow> \<not> wf_enabled w)"


section \<open>Witnesses\<close>

lemma sample_promotion: "\<exists>db. promote sample_wf_env 0 1 0 3 (wf_run sample_wf_env sample_ops) = (Inr 2, db)"
proof -
  have t: "decl_type (path_trigger y) = webhook_type" "decl_path s (path_trigger y) = y" for y s
    by (simp_all add: path_trigger_def decl_type_def field_of_def decl_path_def)
  let ?start = "update_triggers (\<lambda>g. wt_wf g = 0 \<and> \<not> still_there [path_trigger (js ''b'')] (js ''w'') g)
    (\<lambda>g. g\<lparr>wt_enabled := False\<rparr>) (make_current 0 3 sample_tables)"
  have "\<not> path_taken sample_wf_env 1 (js ''b'') ?start"
    by (simp add: path_taken_def make_current_def sample_tables_def config_text_def path_trigger_def)
  then obtain db where "ensure_trigger sample_wf_env 0 1 0 (js ''w'') (path_trigger (js ''b'')) ?start = (Inr (), db)"
    using ensure_succeeds [where t = "path_trigger (js ''b'')" and now = 0 and nf = None and slug = "js ''w''" and e = sample_wf_env and ws = 1 and db = ?start and i = 0] by (auto simp: t decl_next_fire_def)
  then have r: "reconcile_triggers sample_wf_env 0 1 0 \<lparr>wm_summary = None, wm_triggers = [path_trigger (js ''b'')]\<rparr> (js ''w'')
      (make_current 0 3 sample_tables) = (Inr (), db)"
    by (simp add: reconcile_triggers_def del: js.simps One_nat_def)
  have w: "workflow_of 1 0 sample_tables = Some (hd (wd_wfs sample_tables))" "wr_slug (hd (wd_wfs sample_tables)) = js ''w''"
    by (simp_all add: workflow_of_def sample_tables_def)
  have v: "List.find (\<lambda>x. wv_id x = 3 \<and> wv_wf x = 0) (wd_versions sample_tables) = Some (wd_versions sample_tables ! 1)"
    "wv_manifest (wd_versions sample_tables ! 1) = \<lparr>wm_summary = None, wm_triggers = [path_trigger (js ''b'')]\<rparr>"
    "wv_num (wd_versions sample_tables ! 1) = 2"
    by (simp_all add: sample_tables_def)
  show ?thesis unfolding sample_run promote_def w(1) v(1) option.case w(2) v(2,3) r by simp
qed


theorem webhook_paths_unique_witness:
  "distinct (webhook_paths sample_wf_env 1 (wf_run sample_wf_env sample_ops))"
  by (rule webhook_paths_unique) (simp add: sample_ops_def sample_create_def)

theorem removed_trigger_revived_witness:
  "\<exists>db g. promote sample_wf_env 0 1 0 3 (wf_run sample_wf_env sample_ops) = (Inr 2, db) \<and>
     g\<lparr>wt_enabled := False\<rparr> \<in> set (wd_triggers db) \<and>
     g\<lparr>wt_enabled := True\<rparr> \<in> set (wd_triggers (wf_exec sample_wf_env 1 (PutWorkflow 2 0 (switch_body True))
       (wf_exec sample_wf_env 1 (PutWorkflow 1 0 (switch_body False)) db)))"
proof -
  obtain db where db: "promote sample_wf_env 0 1 0 3 (wf_run sample_wf_env sample_ops) = (Inr 2, db)" using sample_promotion ..
  let ?g = "hd (wd_triggers sample_tables)"
  have "\<not> still_there [path_trigger (js ''b'')] (js ''w'') ?g"
    by (simp add: still_there_def sample_tables_def path_trigger_def decl_path_def field_of_def decl_type_def)
  then have "?g\<lparr>wt_enabled := False\<rparr> \<in> set (wd_triggers db) \<and>
     ?g\<lparr>wt_enabled := True\<rparr> \<in> set (wd_triggers (wf_exec sample_wf_env 1 (PutWorkflow 2 0 (switch_body True))
       (wf_exec sample_wf_env 1 (PutWorkflow 1 0 (switch_body False)) db)))"
    by (intro removed_trigger_revived [OF db, where w = "hd (wd_wfs sample_tables)" and x = "wd_versions sample_tables ! 1" and p = "js ''a''"])
      (simp_all add: sample_run sample_tables_def workflow_of_def path_trigger_def config_text_def)
  with db show ?thesis by blast
qed

text \<open>A second webhook, added by its own route.\<close>

lemma sample_second: "wf_run sample_wf_env (sample_ops @ [(1, PostTrigger 0 0 (Some webhook_type) (Some [(js ''path'', JStr (js ''c''))]))]) =
    insert_trigger 0 webhook_type [(js ''path'', JStr (js ''c''))] None sample_tables"
proof -
  have "\<not> path_taken sample_wf_env 1 (js ''c'') sample_tables"
    by (simp add: path_taken_def sample_tables_def config_text_def path_trigger_def)
  moreover have "workflow_of 1 0 sample_tables \<noteq> None" by (simp add: workflow_of_def sample_tables_def)
  moreover have "trim (js ''c'') = js ''c''" "js ''c'' \<noteq> []" "webhook_type \<noteq> schedule_type" by (simp_all add: trim_def is_space_def)
  ultimately show ?thesis unfolding wf_run_snoc sample_run
    by (simp add: post_trigger_def config_string_def get_member_def nullish_def Let_def del: js.simps One_nat_def not_None_eq)
qed

theorem updated_path_collides_witness:
  "\<not> distinct (webhook_paths sample_wf_env 1 (wf_exec sample_wf_env 1 (PutTrigger 0 0 4 None (Some [(js ''path'', JStr (js ''a''))]))
      (wf_run sample_wf_env (sample_ops @ [(1, PostTrigger 0 0 (Some webhook_type) (Some [(js ''path'', JStr (js ''c''))]))]))))"
proof -
  let ?g = "\<lparr>wt_id = 4, wt_wf = 0, wt_type = webhook_type, wt_config = [(js ''path'', JStr (js ''c''))], wt_enabled = True, wt_next = None\<rparr>"
  let ?h = "hd (wd_triggers sample_tables)"
  have n: "wd_next sample_tables = 4" by (simp add: sample_tables_def)
  have h: "?h \<in> set (wd_triggers sample_tables)" "wt_id ?h = 2" "wt_wf ?h = 0" "wt_type ?h = webhook_type"
    "config_text sample_wf_env (wt_config ?h) ''path'' = Some (js ''a'')"
    by (simp_all add: sample_tables_def config_text_def path_trigger_def)
  have w: "workflow_of 1 0 (insert_trigger 0 webhook_type [(js ''path'', JStr (js ''c''))] None sample_tables) = Some (hd (wd_wfs sample_tables))"
    unfolding workflow_of_def tables_insert_trigger by (simp add: sample_tables_def)
  have "?g \<in> set (wd_triggers (insert_trigger 0 webhook_type [(js ''path'', JStr (js ''c''))] None sample_tables))"
    and "?h \<in> set (wd_triggers (insert_trigger 0 webhook_type [(js ''path'', JStr (js ''c''))] None sample_tables))"
    using h(1) by (simp_all add: insert_trigger_def n)
  from updated_path_collides [where ws = 1 and g = ?g and h = ?h and w = "hd (wd_wfs sample_tables)" and p = "js ''a''" and now = 0
      and e = sample_wf_env and ops = "sample_ops @ [(1, PostTrigger 0 0 (Some webhook_type) (Some [(js ''path'', JStr (js ''c''))]))]",
      unfolded sample_second, OF _ this] w h sample_owner
  show ?thesis unfolding sample_second by (simp del: js.simps One_nat_def)
qed

text \<open>Two schedules that differ in the time zone.\<close>

definition sample_schedule :: "string \<Rightarrow> entries" where
  "sample_schedule zone = [(js ''type'', JStr schedule_type), (js ''cron'', JStr (js ''1 0 * * *'')), (js ''timezone'', JStr (js zone))]"


definition stale_store :: store where
  "stale_store = ex_store\<lparr>
     db_wfs := db_wfs ex_store @ [\<lparr>wf_id = 2, wf_ws = 2, wf_enabled = False, wf_version = Some 2, wf_concurrent = False\<rparr>],
     db_trigs := map (\<lambda>i. \<lparr>tg_id = i, tg_wf = 2, tg_cron = None, tg_enabled = True, tg_next = 0\<rparr>) [1..<21] @
                 [\<lparr>tg_id = 21, tg_wf = 1, tg_cron = None, tg_enabled = True, tg_next = 0\<rparr>]\<rparr>"


end
