(* ===== verification/Oidc.thy ===== *)
theory Oidc
  imports Access Plans Egress Validator ExprOps
begin

text \<open>
  Single sign-on: the id token (\<open>apps/server/src/auth/oidc.ts\<close>), the providers and the login flow
  (\<open>routes/oidc.ts\<close>), and the identity provider the server brings along (\<open>routes/mock-idp.ts\<close>).

  The configuration, the coding and signature functions of the platform, its URL parser and the answers
  of a provider's endpoints are the record \<open>oidc_env\<close>; in \<open>oe_token\<close>, \<open>oe_userinfo\<close> and \<open>oe_jwks\<close> a
  request that fails is \<open>None\<close>.  The store of the states is one list of entries with their expiry, and
  \<open>redis_ok\<close> says whether it answers.  Fresh ids and tokens are arguments; the names of users, the
  sealed client secret, which nothing reads, and audit events are left out.
\<close>

record oidc_provider =
  op_id :: nat
  op_ws :: nat
  op_name :: jstr
  op_issuer :: jstr
  op_client :: jstr
  op_enabled :: bool

record oidc_db =
  od_id :: iddb
  od_providers :: "oidc_provider list"
  od_identities :: "((jstr \<times> jstr) \<times> nat) list"
  od_states :: "(jstr \<times> jstr \<times> int) list"
  od_next :: nat

record oidc_env =
  oe_crypto :: crypto
  oe_lower :: "jstr \<Rightarrow> jstr"
  oe_app_url :: "jstr option"
  oe_signing :: "jstr option"
  oe_utf8 :: "jstr \<Rightarrow> nat list"
  oe_base64 :: "jstr \<Rightarrow> nat list"
  oe_url_encode :: "nat list \<Rightarrow> jstr"
  oe_url_bytes :: "jstr \<Rightarrow> nat list"
  oe_text :: "nat list \<Rightarrow> jstr"
  oe_hmac :: "nat list \<Rightarrow> jstr \<Rightarrow> nat list"
  oe_json :: "jstr \<Rightarrow> jsval option"
  oe_jwks :: "jstr \<Rightarrow> jsval \<Rightarrow> jstr option option"
  oe_check :: "string \<Rightarrow> jstr \<Rightarrow> jstr \<Rightarrow> nat list \<Rightarrow> bool"
  oe_url :: "jstr \<Rightarrow> (jstr \<times> jstr) option"
  oe_resolve :: "jstr \<Rightarrow> jstr \<Rightarrow> jstr option"
  oe_token :: "jstr \<Rightarrow> jstr \<Rightarrow> jstr \<Rightarrow> jstr \<Rightarrow> (bool \<times> jsval) option"
  oe_userinfo :: "jstr \<Rightarrow> jsval \<Rightarrow> (bool \<times> jsval) option"
  oe_column :: "jsval \<Rightarrow> jstr"

section \<open>The id token\<close>

text \<open>\<open>signingKeyBytes\<close>: 64 hex digits, else base64 of at least 32 bytes, else the text itself, repeated.\<close>

definition hex_value :: "code_unit \<Rightarrow> nat option" where
  "hex_value c =
     (if is_digit c then Some (c - 48)
      else if 97 \<le> c \<and> c \<le> 102 then Some (c - 87)
      else if 65 \<le> c \<and> c \<le> 70 then Some (c - 55) else None)"

fun hex_bytes :: "jstr \<Rightarrow> nat list" where
  "hex_bytes (a # b # s) =
     (case (hex_value a, hex_value b) of (Some x, Some y) \<Rightarrow> (16 * x + y) # hex_bytes s | _ \<Rightarrow> [])"
| "hex_bytes _ = []"

definition signing_key_bytes :: "oidc_env \<Rightarrow> nat list option" where
  "signing_key_bytes e =
     (case nonempty (oe_signing e) of
        None \<Rightarrow> None
      | Some raw \<Rightarrow>
         if length raw = 64 \<and> list_all (\<lambda>c. hex_value c \<noteq> None) raw then Some (hex_bytes raw)
         else if 32 \<le> length (oe_base64 e raw) then Some (take 32 (oe_base64 e raw))
         else Some (take 32 (concat (replicate 32 (oe_utf8 e raw)))))"

definition encode_text :: "oidc_env \<Rightarrow> jstr \<Rightarrow> jstr" where
  "encode_text e s = oe_url_encode e (oe_utf8 e s)"

definition id_token_header :: jsval where
  "id_token_header = JObj [(js ''alg'', JStr (js ''HS256'')), (js ''typ'', JStr (js ''JWT''))]"

definition sign_id_token_hs256 :: "oidc_env \<Rightarrow> jsval \<Rightarrow> jstr option" where
  "sign_id_token_hs256 e claims =
     (let signing_input = encode_text e (json_text id_token_header) @ [46] @ encode_text e (json_text claims)
      in case signing_key_bytes e of
           None \<Rightarrow> None
         | Some key \<Rightarrow> Some (signing_input @ [46] @ oe_url_encode e (oe_hmac e key signing_input)))"

datatype token_error =
    NotJwt | NotJson | BadSignature | NoKey | BadAlg jstr | BadIss | BadAud | TokenExpired | BadNonce | TokenThrown

record token_options =
  vo_issuer :: jstr
  vo_audience :: jstr
  vo_nonce :: jstr

text \<open>The signature, by the algorithm the header names.\<close>

definition check_signature :: "oidc_env \<Rightarrow> jstr \<Rightarrow> jsval \<Rightarrow> jsval \<Rightarrow> jstr \<Rightarrow> nat list \<Rightarrow> token_error option" where
  "check_signature e issuer alg kid signing_input sig =
     (if alg = JStr (js ''HS256'') then
        (case signing_key_bytes e of
           None \<Rightarrow> Some TokenThrown
         | Some key \<Rightarrow> if sig = oe_hmac e key signing_input then None else Some BadSignature)
      else if alg = JStr (js ''RS256'') \<or> alg = JStr (js ''ES256'') then
        (case oe_jwks e issuer kid of
           None \<Rightarrow> Some TokenThrown
         | Some None \<Rightarrow> Some NoKey
         | Some (Some pem) \<Rightarrow>
             if oe_check e (if alg = JStr (js ''RS256'') then ''RSA-SHA256'' else ''sha256'') pem signing_input sig
             then None else Some BadSignature)
      else (case to_jstr alg of None \<Rightarrow> Some TokenThrown | Some s \<Rightarrow> Some (BadAlg s)))"

definition audiences :: "jsval \<Rightarrow> jsval list" where
  "audiences aud = (case aud of JArr vs \<Rightarrow> vs | v \<Rightarrow> [v])"

definition check_claims :: "token_options \<Rightarrow> int \<Rightarrow> jsval \<Rightarrow> token_error option" where
  "check_claims opts now claims =
     (case (prop_of claims ''iss'', prop_of claims ''aud'', prop_of claims ''exp'', prop_of claims ''nonce'') of
        (Inr iss, Inr aud, Inr until, Inr nonce) \<Rightarrow>
          if iss = JStr [] \<or> iss \<noteq> JStr (vo_issuer opts) then Some BadIss
          else if JStr (vo_audience opts) \<notin> set (audiences aud) then Some BadAud
          else if (case until of JNum n \<Rightarrow> js_less (js_add n (Num 60)) (Num (of_int (now div 1000))) | _ \<Rightarrow> True) then Some TokenExpired
          else if vo_nonce opts \<noteq> [] \<and> nonce \<noteq> JStr (vo_nonce opts) then Some BadNonce
          else None
      | _ \<Rightarrow> Some TokenThrown)"

definition verify_id_token :: "oidc_env \<Rightarrow> token_options \<Rightarrow> int \<Rightarrow> jstr \<Rightarrow> token_error + jsval" where
  "verify_id_token e opts now tkn =
     (case str_split tkn (js ''.'') of
        [h, c, s] \<Rightarrow>
          (case (oe_json e (oe_text e (oe_url_bytes e h)), oe_json e (oe_text e (oe_url_bytes e c))) of
             (Some header, Some claims) \<Rightarrow>
               (case (prop_of header ''alg'', prop_of header ''kid'') of
                  (Inr alg, Inr kid) \<Rightarrow>
                    (case check_signature e (vo_issuer opts) alg kid (h @ [46] @ c) (oe_url_bytes e s) of
                       Some err \<Rightarrow> Inl err
                     | None \<Rightarrow> (case check_claims opts now claims of Some err \<Rightarrow> Inl err | None \<Rightarrow> Inr claims))
                | _ \<Rightarrow> Inl TokenThrown)
           | _ \<Rightarrow> Inl NotJson)
      | _ \<Rightarrow> Inl NotJwt)"

section \<open>Providers\<close>

definition normalize_issuer :: "jstr \<Rightarrow> jstr" where
  "normalize_issuer s = rev (dropWhile (\<lambda>c. c = 47) (rev s))"

definition app_base_url :: "oidc_env \<Rightarrow> jstr option" where
  "app_base_url e = map_option normalize_issuer (nonempty (oe_app_url e))"

definition mock_issuer_url :: "oidc_env \<Rightarrow> jstr" where
  "mock_issuer_url e =
     normalize_issuer (case nonempty (oe_app_url e) of Some s \<Rightarrow> s | None \<Rightarrow> js ''http://localhost:8080'') @ js ''/mock-idp''"

definition is_mock_provider :: "oidc_env \<Rightarrow> jstr \<Rightarrow> bool" where
  "is_mock_provider e issuer_url =
     (case (oe_url e (normalize_issuer issuer_url), app_base_url e, oe_url e (mock_issuer_url e)) of
        (Some (ih, ip), Some base, Some (mh, mp)) \<Rightarrow>
          (case oe_url e base of
             None \<Rightarrow> False
           | Some (ah, ap) \<Rightarrow> ih = ah \<and> (ip = mp \<or> str_includes ip (js ''/mock-idp'')))
      | _ \<Rightarrow> False)"

definition list_providers :: "nat \<Rightarrow> oidc_db \<Rightarrow> oidc_provider list" where
  "list_providers ws db = filter (\<lambda>p. op_ws p = ws) (od_providers db)"

text \<open>\<open>secret\<close> is the client secret of the body; a workspace has one provider of a name.\<close>

definition post_provider ::
  "nat \<Rightarrow> string option \<Rightarrow> jstr option \<Rightarrow> jstr option \<Rightarrow> jstr option \<Rightarrow> jstr option \<Rightarrow> oidc_db \<Rightarrow> (refusal + nat) \<times> oidc_db" where
  "post_provider ws plan name issuer client secret db =
     (if (case get_plan_definition (case plan of Some p \<Rightarrow> p | None \<Rightarrow> ''free'') of None \<Rightarrow> True | Some p \<Rightarrow> plan_id p \<noteq> ''studio'')
      then (Inl (403, ''plan_feature_required''), db)
      else case (nonempty name, nonempty issuer, nonempty client, nonempty secret) of
        (Some n, Some i, Some c, Some _) \<Rightarrow>
          if \<exists>p \<in> set (od_providers db). op_ws p = ws \<and> op_name p = n then (Inl (409, ''conflict''), db)
          else (Inr (od_next db),
                db\<lparr>od_providers := od_providers db @ [\<lparr>op_id = od_next db, op_ws = ws, op_name = n, op_issuer = i, op_client = c, op_enabled = True\<rparr>],
                   od_next := od_next db + 1\<rparr>)
      | _ \<Rightarrow> (Inl (400, ''validation_error''), db))"

definition delete_provider :: "nat \<Rightarrow> nat \<Rightarrow> oidc_db \<Rightarrow> (refusal + unit) \<times> oidc_db" where
  "delete_provider ws i db =
     (if \<exists>p \<in> set (od_providers db). op_id p = i \<and> op_ws p = ws
      then (Inr (), db\<lparr>od_providers := filter (\<lambda>p. \<not> (op_id p = i \<and> op_ws p = ws)) (od_providers db)\<rparr>)
      else (Inl (404, ''not_found''), db))"

text \<open>The oldest enabled provider of the name, in whichever workspace.\<close>

definition resolve_login_provider :: "jstr \<Rightarrow> oidc_db \<Rightarrow> oidc_provider option" where
  "resolve_login_provider name db = List.find (\<lambda>p. op_name p = name \<and> op_enabled p) (od_providers db)"

section \<open>The login flow\<close>

datatype oidc_answer =
    OidcError nat string
  | OidcAuthorize jstr jstr jstr jstr jstr
  | OidcSignedIn nat
  | OidcRedirect jstr

definition OIDC_STATE_TTL_S :: int where "OIDC_STATE_TTL_S = 600"

definition callback_url :: "jstr \<Rightarrow> jstr \<Rightarrow> jstr" where
  "callback_url base provider = base @ js ''/api/v1/auth/oidc/'' @ provider @ js ''/callback''"

text \<open>\<open>OidcAuthorize\<close> has the endpoint, the client, the redirect, the state and the nonce.\<close>

definition oidc_login :: "oidc_env \<Rightarrow> bool \<Rightarrow> int \<Rightarrow> jstr \<Rightarrow> jstr \<Rightarrow> jstr \<Rightarrow> oidc_db \<Rightarrow> oidc_answer \<times> oidc_db" where
  "oidc_login e redis_ok now state nonce provider db =
     (case resolve_login_provider provider db of
        None \<Rightarrow> (OidcError 404 ''not_found'', db)
      | Some row \<Rightarrow>
         if \<not> redis_ok then (OidcError 503 ''internal_error'', db)
         else
           let db1 = db\<lparr>od_states := (state, nonce, now + OIDC_STATE_TTL_S * 1000) # od_states db\<rparr> in
           case app_base_url e of
             None \<Rightarrow> (OidcError 500 ''internal_error'', db1)
           | Some base \<Rightarrow>
              (case oe_resolve e (js ''/authorize'')
                      (if is_mock_provider e (op_issuer row) then normalize_issuer (op_issuer row)
                       else normalize_issuer (op_issuer row) @ js ''/'') of
                 None \<Rightarrow> (OidcError 500 ''internal_error'', db1)
               | Some url \<Rightarrow> (OidcAuthorize url (op_client row) (callback_url base provider) state nonce, db1)))"

text \<open>\<open>GETDEL\<close>.\<close>

definition take_state :: "bool \<Rightarrow> int \<Rightarrow> jstr \<Rightarrow> oidc_db \<Rightarrow> jstr option \<times> oidc_db" where
  "take_state redis_ok now state db =
     (if \<not> redis_ok then (None, db)
      else (case List.find (\<lambda>(s, n, t). s = state) (od_states db) of
              Some (_, n, t) \<Rightarrow> if now < t then Some n else None
            | None \<Rightarrow> None,
            db\<lparr>od_states := filter (\<lambda>(s, n, t). s \<noteq> state) (od_states db)\<rparr>))"

text \<open>The address and the name of the claims, completed by the userinfo endpoint; \<open>a || b || ''\<close>.\<close>

definition or_else :: "jsval \<Rightarrow> jsval \<Rightarrow> jsval" where
  "or_else v w = (if js_truthy v then v else if js_truthy w then w else JStr [])"

definition claimed_email :: "oidc_env \<Rightarrow> jstr \<Rightarrow> jsval \<Rightarrow> jsval \<Rightarrow> jsval" where
  "claimed_email e issuer access claims =
     (let email = nullish (opt_prop claims ''email'') (JStr []); name = nullish (opt_prop claims ''name'') (JStr []) in
      if js_truthy access \<and> (\<not> js_truthy email \<or> \<not> js_truthy name)
      then (case oe_userinfo e (issuer @ js ''/userinfo'') access of
              Some (True, info) \<Rightarrow> (case prop_of info ''email'' of Inr v \<Rightarrow> or_else email v | Inl _ \<Rightarrow> email)
            | _ \<Rightarrow> email)
      else email)"

definition subject_text :: "oidc_env \<Rightarrow> jsval \<Rightarrow> jstr option" where
  "subject_text e v = (case v of Undefined \<Rightarrow> None | Null \<Rightarrow> None | JStr s \<Rightarrow> Some s | w \<Rightarrow> Some (oe_column e w))"

definition identity_of :: "jstr \<Rightarrow> jstr option \<Rightarrow> oidc_db \<Rightarrow> nat option" where
  "identity_of provider sub db = (case sub of None \<Rightarrow> None | Some s \<Rightarrow> map_of (od_identities db) (provider, s))"

text \<open>The account of the identity: linked before, else the one of the address, else a new one.\<close>

definition oidc_user :: "oidc_env \<Rightarrow> jstr \<Rightarrow> jstr \<Rightarrow> jstr option \<Rightarrow> jsval \<Rightarrow> oidc_db \<Rightarrow> nat option \<times> oidc_db" where
  "oidc_user e pwhash provider sub email db =
     (case identity_of provider sub db of
        Some uid \<Rightarrow> (Some uid, db)
      | None \<Rightarrow>
         (case email of
            JStr addr \<Rightarrow>
              let addr' = oe_lower e addr;
                  known = first_row (\<lambda>u. u_email u = addr') (users (od_id db));
                  link = (\<lambda>uid db. case sub of None \<Rightarrow> (None, db)
                            | Some s \<Rightarrow> (Some uid, db\<lparr>od_identities := od_identities db @ [((provider, s), uid)]\<rparr>))
              in (case known of
                    Some u \<Rightarrow> if addr \<noteq> [] then link (u_id u) db else (None, db)
                  | None \<Rightarrow> link (od_next db)
                      (db\<lparr>od_id := (od_id db)\<lparr>users := users (od_id db) @ [\<lparr>u_id = od_next db, u_email = addr', u_hash = pwhash\<rparr>]\<rparr>,
                          od_next := od_next db + 1\<rparr>))
          | _ \<Rightarrow> (None, db)))"

text \<open>The session, which is in the workspace of a member of exactly one.\<close>

definition oidc_session :: "oidc_env \<Rightarrow> int \<Rightarrow> jstr \<Rightarrow> nat \<Rightarrow> oidc_db \<Rightarrow> oidc_db" where
  "oidc_session e now tkn uid db =
     (let sid = od_next db;
          idb = create_session (oe_crypto e) now sid tkn uid None (od_id db);
          idb1 = (case filter (\<lambda>m. m_user m = uid) (members idb) of
                    [m] \<Rightarrow> idb\<lparr>sessions := update_rows (\<lambda>s. s_id s = sid) (\<lambda>s. s\<lparr>s_ws := Some (m_ws m)\<rparr>) (sessions idb)\<rparr>
                  | _ \<Rightarrow> idb)
      in db\<lparr>od_id := idb1, od_next := sid + 1\<rparr>)"

definition token_error_code :: "token_error \<Rightarrow> string" where
  "token_error_code err =
     (case err of BadNonce \<Rightarrow> ''invalid_nonce''
      | BadAlg s \<Rightarrow> if str_includes s (js ''nonce'') then ''invalid_nonce'' else ''invalid_signature''
      | _ \<Rightarrow> ''invalid_signature'')"

text \<open>From the answer of the token endpoint to the claims.\<close>

definition exchange_code :: "oidc_env \<Rightarrow> int \<Rightarrow> jstr \<Rightarrow> jstr \<Rightarrow> jstr \<Rightarrow> oidc_provider \<Rightarrow> (nat \<times> string) + jsval \<times> jsval" where
  "exchange_code e now provider code nonce row =
     (case app_base_url e of
        None \<Rightarrow> Inl (502, ''internal_error'')
      | Some base \<Rightarrow>
         (let issuer = normalize_issuer (op_issuer row) in
          case oe_token e (issuer @ js ''/token'') code (op_client row) (callback_url base provider) of
            None \<Rightarrow> Inl (502, ''internal_error'')
          | Some (ok, body) \<Rightarrow>
              if \<not> ok then Inl (401, ''invalid_signature'')
              else (case prop_of body ''id_token'' of
                Inl _ \<Rightarrow> Inl (500, ''internal_error'')
              | Inr tkn \<Rightarrow>
                  if \<not> js_truthy tkn then Inl (401, ''invalid_signature'')
                  else (case tkn of
                    JStr t \<Rightarrow>
                      (case verify_id_token e \<lparr>vo_issuer = issuer, vo_audience = op_client row, vo_nonce = nonce\<rparr> now t of
                         Inl err \<Rightarrow> Inl (401, token_error_code err)
                       | Inr claims \<Rightarrow> Inr (claims, opt_prop body ''access_token''))
                  | _ \<Rightarrow> Inl (401, ''invalid_signature'')))))"

definition oidc_callback ::
  "oidc_env \<Rightarrow> bool \<Rightarrow> int \<Rightarrow> jstr \<Rightarrow> jstr \<Rightarrow> jstr \<Rightarrow> jstr option \<Rightarrow> jstr option \<Rightarrow> oidc_db \<Rightarrow> oidc_answer \<times> oidc_db" where
  "oidc_callback e redis_ok now tkn pwhash provider code state db =
     (case (nonempty code, nonempty state) of
        (Some c, Some s) \<Rightarrow>
          (case take_state redis_ok now s db of
             (None, db1) \<Rightarrow> (OidcError 400 ''invalid_state'', db1)
           | (Some nonce, db1) \<Rightarrow>
              (case resolve_login_provider provider db1 of
                 None \<Rightarrow> (OidcError 404 ''not_found'', db1)
               | Some row \<Rightarrow>
                  (case exchange_code e now provider c nonce row of
                     Inl (st, err) \<Rightarrow> (OidcError st err, db1)
                   | Inr (claims, access) \<Rightarrow>
                      (case oidc_user e pwhash provider (subject_text e (opt_prop claims ''sub''))
                              (claimed_email e (normalize_issuer (op_issuer row)) access claims) db1 of
                         (None, db2) \<Rightarrow> (OidcError 500 ''internal_error'', db2)
                       | (Some uid, db2) \<Rightarrow> (OidcSignedIn uid, oidc_session e now tkn uid db2)))))
      | _ \<Rightarrow> (OidcError 400 ''validation_error'', db))"

definition oidc_logout :: "oidc_env \<Rightarrow> jstr option \<Rightarrow> jstr \<Rightarrow> oidc_db \<Rightarrow> oidc_answer \<times> oidc_db" where
  "oidc_logout e tkn provider db =
     (let db1 = (case nonempty tkn of
                   None \<Rightarrow> db
                 | Some t \<Rightarrow> db\<lparr>od_id := revoke_session (oe_crypto e) t (od_id db)\<rparr>)
      in case resolve_login_provider provider db1 of
           Some row \<Rightarrow> if is_mock_provider e (op_issuer row)
                      then (OidcRedirect (normalize_issuer (op_issuer row) @ js ''/logout''), db1)
                      else (OidcRedirect (js ''/''), db1)
         | None \<Rightarrow> (OidcRedirect (js ''/''), db1))"

section \<open>The built-in identity provider\<close>

record auth_code =
  ac_email :: jstr
  ac_name :: jstr
  ac_nonce :: "jstr option"
  ac_client :: jstr
  ac_expires :: int

record mock_db =
  md_codes :: "(jstr \<times> auth_code) list"
  md_access :: "(jstr \<times> auth_code) list"

definition CODE_TTL_MS :: int where "CODE_TTL_MS = 10 * 60 * 1000"

definition word_char :: "code_unit \<Rightarrow> bool" where
  "word_char c \<longleftrightarrow> c \<noteq> 64 \<and> \<not> is_space c"

text \<open>\<open>/^[^@\s]+@[^@\s]+\.[^@\s]+$/\<close>: one at sign, and a dot inside what follows it.\<close>

definition is_email :: "jstr \<Rightarrow> bool" where
  "is_email s =
     (case str_split s (js ''@'') of
        [a, b] \<Rightarrow> a \<noteq> [] \<and> list_all word_char a \<and> list_all word_char b \<and> 46 \<in> set (butlast (drop 1 b))
      | _ \<Rightarrow> False)"

text \<open>\<open>email.split('@')[0].replace(/[._-]+/g, ' ')\<close>.\<close>

fun spaced :: "jstr \<Rightarrow> jstr" where
  "spaced [] = []"
| "spaced (c # cs) = (if c \<in> {46, 95, 45} then 32 # spaced (dropWhile (\<lambda>c. c \<in> {46, 95, 45}) cs) else c # spaced cs)"

definition own_host :: "oidc_env \<Rightarrow> jstr \<Rightarrow> bool" where
  "own_host e host \<longleftrightarrow>
     host \<in> {js ''localhost'', js ''127.0.0.1'', js ''[::1]''} \<or>
     (case nonempty (oe_app_url e) of
        None \<Rightarrow> False
      | Some s \<Rightarrow> (case oe_url e s of None \<Rightarrow> False | Some (h, p) \<Rightarrow> h \<noteq> [] \<and> host = h))"

record authorize_form =
  af_state :: jstr
  af_nonce :: jstr
  af_client :: jstr
  af_redirect :: jstr
  af_email :: jstr

text \<open>The redirect's parameters are the code and the state.\<close>

definition mock_authorize ::
  "oidc_env \<Rightarrow> int \<Rightarrow> jstr \<Rightarrow> authorize_form \<Rightarrow> mock_db \<Rightarrow> (refusal + jstr \<times> jstr \<times> jstr) \<times> mock_db" where
  "mock_authorize e now code f db =
     (if af_client f = [] \<or> af_redirect f = [] then (Inl (400, ''invalid_request''), db)
      else if \<not> is_email (af_email f) then (Inl (400, ''invalid_request''), db)
      else case oe_url e (af_redirect f) of
        None \<Rightarrow> (Inl (500, ''internal_error''), db)
      | Some (host, _) \<Rightarrow>
         if \<not> own_host e host then (Inl (400, ''invalid_request''), db)
         else (Inr (af_redirect f, code, af_state f),
               db\<lparr>md_codes := AList.update code
                    \<lparr>ac_email = af_email f, ac_name = spaced (hd (str_split (af_email f) (js ''@''))), ac_nonce = nonempty (Some (af_nonce f)),
                     ac_client = af_client f, ac_expires = now + CODE_TTL_MS\<rparr> (md_codes db)\<rparr>))"

definition mock_claims :: "oidc_env \<Rightarrow> int \<Rightarrow> auth_code \<Rightarrow> jsval" where
  "mock_claims e now c = JObj (
     [(js ''iss'', JStr (mock_issuer_url e)), (js ''sub'', JStr (ac_email c)), (js ''aud'', JStr (ac_client c)),
      (js ''exp'', JNum (Num (of_int (now div 1000 + 600)))), (js ''iat'', JNum (Num (of_int (now div 1000))))] @
     (case ac_nonce c of None \<Rightarrow> [] | Some n \<Rightarrow> [(js ''nonce'', JStr n)]) @
     [(js ''email'', JStr (ac_email c)), (js ''name'', JStr (ac_name c)), (js ''email_verified'', JBool True)])"

text \<open>\<open>access\<close> is the new access token; the answer is the body.\<close>

definition mock_token ::
  "oidc_env \<Rightarrow> int \<Rightarrow> jstr \<Rightarrow> jstr option \<Rightarrow> jstr \<Rightarrow> jstr option \<Rightarrow> mock_db \<Rightarrow> (refusal + jsval) \<times> mock_db" where
  "mock_token e now access grant code client db =
     (if grant \<noteq> Some (js ''authorization_code'') then (Inl (400, ''unsupported_grant_type''), db)
      else case map_of (md_codes db) code of
        None \<Rightarrow> (Inl (400, ''invalid_grant''), db)
      | Some c \<Rightarrow>
         if ac_expires c < now \<or> (case nonempty client of None \<Rightarrow> False | Some cl \<Rightarrow> ac_client c \<noteq> cl)
         then (Inl (400, ''invalid_grant''), db)
         else let db1 = db\<lparr>md_codes := AList.delete code (md_codes db), md_access := AList.update access c (md_access db)\<rparr>
              in case sign_id_token_hs256 e (mock_claims e now c) of
                   None \<Rightarrow> (Inl (500, ''internal_error''), db1)
                 | Some t \<Rightarrow> (Inr (JObj [(js ''access_token'', JStr access), (js ''token_type'', JStr (js ''Bearer'')),
                                       (js ''expires_in'', JNum (Num 600)), (js ''id_token'', JStr t)]), db1))"

definition mock_userinfo :: "jstr option \<Rightarrow> mock_db \<Rightarrow> refusal + jsval" where
  "mock_userinfo authorization db =
     (let header = (case authorization of Some h \<Rightarrow> h | None \<Rightarrow> []);
          tkn = (if starts_with header (js ''Bearer '') then drop 7 header else [])
      in case map_of (md_access db) tkn of
           None \<Rightarrow> Inl (401, ''invalid_token'')
         | Some c \<Rightarrow> Inr (JObj [(js ''sub'', JStr (ac_email c)), (js ''email'', JStr (ac_email c)),
                              (js ''name'', JStr (ac_name c)), (js ''email_verified'', JBool True)]))"

end
