(* ===== verification/OidcProps.thy ===== *)
theory OidcProps
  imports Oidc
begin

text \<open>
  What a sign-in rests on: the state, the token, its claims; that a state signs in once; and that the
  built-in provider signs anyone in as any account once a provider points at it.
\<close>

section \<open>The token\<close>

text \<open>The token carries the claims, signed as its header says, for the issuer, the client and the nonce.\<close>

definition token_for :: "oidc_env \<Rightarrow> token_options \<Rightarrow> int \<Rightarrow> jstr \<Rightarrow> jsval \<Rightarrow> bool" where
  "token_for e opts now tkn claims \<longleftrightarrow>
     (\<exists>h c s header alg kid. str_split tkn (js ''.'') = [h, c, s] \<and>
        oe_json e (oe_text e (oe_url_bytes e h)) = Some header \<and> oe_json e (oe_text e (oe_url_bytes e c)) = Some claims \<and>
        prop_of header ''alg'' = Inr alg \<and> prop_of header ''kid'' = Inr kid \<and>
        ((\<exists>key. alg = JStr (js ''HS256'') \<and> signing_key_bytes e = Some key \<and> oe_url_bytes e s = oe_hmac e key (h @ [46] @ c)) \<or>
         (\<exists>pem. alg = JStr (js ''RS256'') \<and> oe_jwks e (vo_issuer opts) kid = Some (Some pem) \<and>
            oe_check e ''RSA-SHA256'' pem (h @ [46] @ c) (oe_url_bytes e s)) \<or>
         (\<exists>pem. alg = JStr (js ''ES256'') \<and> oe_jwks e (vo_issuer opts) kid = Some (Some pem) \<and>
            oe_check e ''sha256'' pem (h @ [46] @ c) (oe_url_bytes e s)))) \<and>
     vo_issuer opts \<noteq> [] \<and> prop_of claims ''iss'' = Inr (JStr (vo_issuer opts)) \<and>
     (\<exists>aud. prop_of claims ''aud'' = Inr aud \<and> JStr (vo_audience opts) \<in> set (audiences aud)) \<and>
     (\<exists>n. prop_of claims ''exp'' = Inr (JNum n) \<and> \<not> js_less (js_add n (Num 60)) (Num (of_int (now div 1000)))) \<and>
     (vo_nonce opts \<noteq> [] \<longrightarrow> prop_of claims ''nonce'' = Inr (JStr (vo_nonce opts)))"

lemma check_signature_None:
  assumes "check_signature e issuer alg kid m sig = None"
  shows "(\<exists>key. alg = JStr (js ''HS256'') \<and> signing_key_bytes e = Some key \<and> sig = oe_hmac e key m) \<or>
         (\<exists>pem. alg = JStr (js ''RS256'') \<and> oe_jwks e issuer kid = Some (Some pem) \<and> oe_check e ''RSA-SHA256'' pem m sig) \<or>
         (\<exists>pem. alg = JStr (js ''ES256'') \<and> oe_jwks e issuer kid = Some (Some pem) \<and> oe_check e ''sha256'' pem m sig)"
proof -
  consider "alg = JStr (js ''HS256'')" | "alg = JStr (js ''RS256'')" | "alg = JStr (js ''ES256'')"
    | "alg \<noteq> JStr (js ''HS256'')" "alg \<noteq> JStr (js ''RS256'')" "alg \<noteq> JStr (js ''ES256'')" by blast
  then show ?thesis
    using assms by cases (auto simp: check_signature_def split: option.splits if_splits)
qed

lemma check_claims_None:
  assumes "check_claims opts now claims = None"
  shows "vo_issuer opts \<noteq> [] \<and> prop_of claims ''iss'' = Inr (JStr (vo_issuer opts)) \<and>
     (\<exists>aud. prop_of claims ''aud'' = Inr aud \<and> JStr (vo_audience opts) \<in> set (audiences aud)) \<and>
     (\<exists>n. prop_of claims ''exp'' = Inr (JNum n) \<and> \<not> js_less (js_add n (Num 60)) (Num (of_int (now div 1000)))) \<and>
     (vo_nonce opts \<noteq> [] \<longrightarrow> prop_of claims ''nonce'' = Inr (JStr (vo_nonce opts)))"
  using assms by (auto simp: check_claims_def split: sum.splits if_splits jsval.splits)

lemma verify_id_token_sound:
  assumes "verify_id_token e opts now tkn = Inr claims"
  shows "token_for e opts now tkn claims"
proof -
  obtain h c s header alg kid where split: "str_split tkn (js ''.'') = [h, c, s]"
    and json: "oe_json e (oe_text e (oe_url_bytes e h)) = Some header" "oe_json e (oe_text e (oe_url_bytes e c)) = Some claims"
    and props: "prop_of header ''alg'' = Inr alg" "prop_of header ''kid'' = Inr kid"
    and sig: "check_signature e (vo_issuer opts) alg kid (h @ [46] @ c) (oe_url_bytes e s) = None"
    and ok: "check_claims opts now claims = None"
    using assms unfolding verify_id_token_def by (auto simp del: js.simps split: list.splits option.splits sum.splits)
  show ?thesis unfolding token_for_def
    using split json props check_signature_None [OF sig] check_claims_None [OF ok] by blast
qed

section \<open>A sign-in\<close>

lemma take_state_Some:
  "take_state ok now s db = (Some n, db') \<Longrightarrow> \<exists>t. (s, n, t) \<in> set (od_states db) \<and> now < t"
  by (auto simp: take_state_def split: if_splits option.splits dest!: find_SomeD)

lemma take_state_frame:
  "take_state ok now s db = (n, db') \<Longrightarrow>
   od_id db' = od_id db \<and> od_providers db' = od_providers db \<and> od_identities db' = od_identities db \<and> od_next db' = od_next db"
  by (auto simp: take_state_def split: if_splits)

lemma resolve_cong: "od_providers db' = od_providers db \<Longrightarrow> resolve_login_provider p db' = resolve_login_provider p db"
  by (simp add: resolve_login_provider_def)

lemma exchange_code_Inr:
  assumes "exchange_code e now p c nonce row = Inr (claims, access)"
  shows "\<exists>t. verify_id_token e \<lparr>vo_issuer = normalize_issuer (op_issuer row), vo_audience = op_client row, vo_nonce = nonce\<rparr> now t = Inr claims"
  using assms by (auto simp: exchange_code_def Let_def split: option.splits prod.splits sum.splits if_splits jsval.splits)

lemma oidc_callback_cases:
  assumes "oidc_callback e ok now tkn pwhash p code state db = (OidcSignedIn uid, db')"
  obtains c s nonce db1 row claims access db2 where "code = Some c" "state = Some s" "s \<noteq> []" "take_state ok now s db = (Some nonce, db1)"
    "resolve_login_provider p db = Some row" "exchange_code e now p c nonce row = Inr (claims, access)"
    "oidc_user e pwhash p (subject_text e (opt_prop claims ''sub'')) (claimed_email e (normalize_issuer (op_issuer row)) access claims) db1 = (Some uid, db2)"
    "db' = oidc_session e now tkn uid db2"
proof -
  obtain c s where cs: "nonempty code = Some c" "nonempty state = Some s"
    using assms by (auto simp: oidc_callback_def split: option.splits)
  then have cs': "code = Some c" "state = Some s" "s \<noteq> []" by (auto simp: nonempty_def split: option.splits list.splits)
  obtain nonce db1 where st: "take_state ok now s db = (Some nonce, db1)"
    using assms cs by (cases "take_state ok now s db"; cases "fst (take_state ok now s db)") (auto simp: oidc_callback_def)
  obtain row where row: "resolve_login_provider p db1 = Some row"
    using assms cs st by (cases "resolve_login_provider p db1") (auto simp: oidc_callback_def)
  obtain claims access where ex: "exchange_code e now p c nonce row = Inr (claims, access)"
    using assms cs st row by (cases "exchange_code e now p c nonce row") (auto simp: oidc_callback_def split: prod.splits)
  obtain db2 where us: "oidc_user e pwhash p (subject_text e (opt_prop claims ''sub''))
      (claimed_email e (normalize_issuer (op_issuer row)) access claims) db1 = (Some uid, db2)" and "db' = oidc_session e now tkn uid db2"
    using assms cs st row ex by (auto simp: oidc_callback_def split: prod.splits option.splits)
  moreover have "resolve_login_provider p db = Some row" using row resolve_cong [of db1 db p] take_state_frame [OF st] by simp
  ultimately show thesis using that cs' st ex by blast
qed

section \<open>A state signs in once\<close>

datatype oidc_op =
    OidcLogin bool int jstr jstr jstr
  | OidcCallback bool int jstr jstr jstr "jstr option" "jstr option"
  | OidcLogout "jstr option" jstr
  | AddProvider nat "string option" "jstr option" "jstr option" "jstr option" "jstr option"
  | DropProvider nat nat

fun oidc_exec :: "oidc_env \<Rightarrow> oidc_op \<Rightarrow> oidc_db \<Rightarrow> oidc_db" where
  "oidc_exec e (OidcLogin ok now state nonce p) db = snd (oidc_login e ok now state nonce p db)"
| "oidc_exec e (OidcCallback ok now tkn pwhash p code state) db = snd (oidc_callback e ok now tkn pwhash p code state db)"
| "oidc_exec e (OidcLogout tkn p) db = snd (oidc_logout e tkn p db)"
| "oidc_exec e (AddProvider ws plan n i c s) db = snd (post_provider ws plan n i c s db)"
| "oidc_exec e (DropProvider ws i) db = snd (delete_provider ws i db)"

text \<open>How often the requests sign someone in with the state, and how often a login mints it.\<close>

fun sign_ins :: "oidc_env \<Rightarrow> jstr \<Rightarrow> oidc_op list \<Rightarrow> oidc_db \<Rightarrow> nat" where
  "sign_ins e s [] db = 0"
| "sign_ins e s (op # ops) db =
     (case op of
        OidcCallback ok now tkn pwhash p code state \<Rightarrow>
          (case fst (oidc_callback e ok now tkn pwhash p code state db) of
             OidcSignedIn _ \<Rightarrow> if state = Some s then 1 else 0
           | _ \<Rightarrow> 0)
      | _ \<Rightarrow> 0) + sign_ins e s ops (oidc_exec e op db)"

definition mints :: "jstr \<Rightarrow> oidc_op \<Rightarrow> bool" where
  "mints s op \<longleftrightarrow> (case op of OidcLogin ok now state nonce p \<Rightarrow> state = s | _ \<Rightarrow> False)"

definition stored :: "jstr \<Rightarrow> oidc_db \<Rightarrow> nat" where
  "stored s db = (if s \<in> fst ` set (od_states db) then 1 else 0)"

lemma stored_cong: "od_states db' = od_states db \<Longrightarrow> stored s db' = stored s db"
  by (simp add: stored_def)

lemma take_state_stored:
  assumes "take_state ok now s db = (n, db')"
  shows "stored u db' \<le> stored u db" and "n \<noteq> None \<Longrightarrow> stored s db = 1 \<and> stored s db' = 0"
  using assms by (auto simp: take_state_def stored_def split: if_splits option.splits dest!: find_SomeD) force+


lemma oidc_user_states: "od_states (snd (oidc_user e pwhash p sub email db)) = od_states db"
  by (auto simp: oidc_user_def Let_def split: option.splits jsval.splits)

lemma oidc_session_states: "od_states (oidc_session e now tkn uid db) = od_states db"
  by (simp add: oidc_session_def Let_def)

lemma callback_states:
  "od_states (snd (oidc_callback e ok now tkn pwhash p (Some c) (Some s) db)) = 
     (if nonempty (Some c) = None \<or> nonempty (Some s) = None then od_states db else od_states (snd (take_state ok now s db)))"
proof (cases "nonempty (Some c) = None \<or> nonempty (Some s) = None")
  case False
  then have ne: "nonempty (Some c) = Some c" "nonempty (Some s) = Some s" by (auto simp: nonempty_def split: list.splits if_splits)
  obtain n db1 where t: "take_state ok now s db = (n, db1)" by (cases "take_state ok now s db")
  have u: "od_states db2 = od_states db1" if "oidc_user e pwhash p sub email db1 = (x, db2)" for sub email x db2
    using oidc_user_states [of e pwhash p sub email db1] that by simp
  show ?thesis using False ne t
    by (auto simp: oidc_callback_def oidc_session_states dest!: u split: option.splits sum.splits prod.splits)
qed (auto simp: oidc_callback_def split: option.splits)

lemma callback_stored:
  assumes "nonempty (Some c) \<noteq> None" "nonempty (Some s) \<noteq> None" "take_state ok now s db = (n, db1)"
  shows "stored u (snd (oidc_callback e ok now tkn pwhash p (Some c) (Some s) db)) = stored u db1"
  using assms by (simp add: stored_def callback_states del: not_None_eq)

lemma callback_no_request:
  "code = None \<or> state = None \<Longrightarrow> snd (oidc_callback e ok now tkn pwhash p code state db) = db"
  by (auto simp: oidc_callback_def nonempty_def split: option.splits)

lemma callback_stored_le: "stored u (snd (oidc_callback e ok now tkn pwhash p code state db)) \<le> stored u db"
proof (cases "code = None \<or> state = None")
  case True
  then show ?thesis by (simp add: callback_no_request)
next
  case False
  then obtain c s where cs: "code = Some c" "state = Some s" by auto
  obtain n db1 where t: "take_state ok now s db = (n, db1)" by (cases "take_state ok now s db")
  show ?thesis
  proof (cases "nonempty (Some c) = None \<or> nonempty (Some s) = None")
    case True
    then show ?thesis by (simp add: cs stored_def callback_states)
  next
    case False
    then show ?thesis using callback_stored [OF _ _ t] take_state_stored(1) [OF t] by (simp add: cs)
  qed
qed

lemma signed_in_stored:
  assumes "fst (oidc_callback e ok now tkn pwhash p code (Some s) db) = OidcSignedIn uid"
  shows "stored s db = 1" and "stored s (snd (oidc_callback e ok now tkn pwhash p code (Some s) db)) = 0"
proof -
  obtain db' where cb: "oidc_callback e ok now tkn pwhash p code (Some s) db = (OidcSignedIn uid, db')"
    using assms by (cases "oidc_callback e ok now tkn pwhash p code (Some s) db") auto
  obtain c nonce db1 where code: "code = Some c" and t: "take_state ok now s db = (Some nonce, db1)"
    by (rule oidc_callback_cases [OF cb]) auto
  show "stored s db = 1" using take_state_stored(2) [OF t] by simp
  have "nonempty code \<noteq> None \<and> nonempty (Some s) \<noteq> None"
    using cb by (auto simp: oidc_callback_def split: option.splits)
  then show "stored s (snd (oidc_callback e ok now tkn pwhash p code (Some s) db)) = 0"
    using callback_stored [OF _ _ t] take_state_stored(2) [OF t] by (simp add: code)
qed

lemma login_stored:
  "stored s (snd (oidc_login e ok now state nonce p db)) \<le> stored s db + (if state = s then 1 else 0)"
  by (auto simp: oidc_login_def stored_def Let_def split: option.splits)

lemma logout_stored: "stored s (snd (oidc_logout e tkn p db)) = stored s db"
  by (rule stored_cong) (auto simp: oidc_logout_def Let_def split: option.splits)

lemma provider_stored:
  "stored s (snd (post_provider ws plan n i c x db)) = stored s db"
  "stored s (snd (delete_provider ws k db)) = stored s db"
  by (rule stored_cong, auto simp: post_provider_def delete_provider_def split: option.splits)+

text \<open>
  C22: However logins, callbacks, logouts and changes of the providers follow each other, a state signs
  someone in at most as often as a login has stored it (once more if it is stored at the start), so a
  replayed callback is refused.
\<close>

theorem state_signs_in_once:
  "sign_ins e s ops db \<le> length (filter (mints s) ops) + stored s db"
proof (induction ops arbitrary: db)
  case (Cons op ops)
  note ih = Cons.IH [of "oidc_exec e op db"]
  show ?case
  proof (cases op)
    case (OidcLogin ok now state nonce p)
    then show ?thesis using ih login_stored [of s e ok now state nonce p db] by (auto simp: mints_def split: if_splits)
  next
    case (OidcCallback ok now tkn pwhash p code state)
    show ?thesis
    proof (cases "\<exists>uid. fst (oidc_callback e ok now tkn pwhash p code state db) = OidcSignedIn uid \<and> state = Some s")
      case True
      then obtain uid where st: "state = Some s" and "fst (oidc_callback e ok now tkn pwhash p code (Some s) db) = OidcSignedIn uid" by auto
      then show ?thesis using ih signed_in_stored [of e ok now tkn pwhash p code s db uid]
        by (simp add: OidcCallback mints_def)
    next
      case False
      then show ?thesis using ih callback_stored_le [of s e ok now tkn pwhash p code state db]
        by (auto simp: OidcCallback mints_def split: oidc_answer.splits)
    qed
  next
    case (OidcLogout tkn p)
    then show ?thesis using ih by (simp add: logout_stored mints_def)
  next
    case (AddProvider ws plan n i c x)
    then show ?thesis using ih by (simp add: provider_stored mints_def)
  next
    case (DropProvider ws i)
    then show ?thesis using ih by (simp add: provider_stored mints_def)
  qed
qed simp

end
