(* ===== verification/OidcMock.thy ===== *)
theory OidcMock
  imports OidcProps
begin

text \<open>
  The server as its own identity provider: a token it signs verifies, so whoever walks through the login
  of a provider that points at it signs in as the owner of any address.
\<close>

section \<open>A token the server signs\<close>

text \<open>What is relied on of the platform's coding functions: base64url, UTF-8 and JSON undo themselves.\<close>

definition coded_faithfully :: "oidc_env \<Rightarrow> jsval \<Rightarrow> bool" where
  "coded_faithfully e v \<longleftrightarrow>
     oe_json e (oe_text e (oe_url_bytes e (encode_text e (json_text v)))) = Some v \<and> 46 \<notin> set (encode_text e (json_text v))"

definition digests_coded_faithfully :: "oidc_env \<Rightarrow> bool" where
  "digests_coded_faithfully e \<longleftrightarrow>
     (\<forall>key m. oe_url_bytes e (oe_url_encode e (oe_hmac e key m)) = oe_hmac e key m \<and> 46 \<notin> set (oe_url_encode e (oe_hmac e key m)))"

lemma split_token:
  assumes "46 \<notin> set h" "46 \<notin> set c" "46 \<notin> set s"
  shows "str_split (h @ [46] @ c @ [46] @ s) (js ''.'') = [h, c, s]"
  using str_split_join [of "[h, c, s]" 46] assms by simp

lemma own_token_verifies:
  assumes signed: "sign_id_token_hs256 e claims = Some t"
    and coding: "coded_faithfully e id_token_header" "coded_faithfully e claims" "digests_coded_faithfully e"
    and ok: "check_claims opts now claims = None"
  shows "verify_id_token e opts now t = Inr claims"
proof -
  let ?h = "encode_text e (json_text id_token_header)"
  let ?c = "encode_text e (json_text claims)"
  obtain key where key: "signing_key_bytes e = Some key"
    and t: "t = ?h @ [46] @ ?c @ [46] @ oe_url_encode e (oe_hmac e key (?h @ [46] @ ?c))"
    using signed by (auto simp: sign_id_token_hs256_def Let_def split: option.splits)
  have "prop_of id_token_header ''alg'' = Inr (JStr (js ''HS256''))" "prop_of id_token_header ''kid'' = Inr Undefined"
    by (simp_all add: id_token_header_def get_member_def inherited_def inherited_names_def proto_name_def)
  moreover have "str_split t (js ''.'') = [?h, ?c, oe_url_encode e (oe_hmac e key (?h @ [46] @ ?c))]"
    unfolding t using coding by (intro split_token) (auto simp: coded_faithfully_def digests_coded_faithfully_def)
  ultimately show ?thesis
    using coding key ok
    by (simp add: verify_id_token_def check_signature_def coded_faithfully_def digests_coded_faithfully_def del: js.simps)
qed

lemma mock_claims_check:
  assumes "\<bar>now div 1000 + 660\<bar> < 2 ^ 53" and "\<bar>now div 1000 + 600\<bar> < 2 ^ 53" and "ac_nonce c = Some n" and "ac_client c = client"
  shows "check_claims \<lparr>vo_issuer = mock_issuer_url e, vo_audience = client, vo_nonce = n\<rparr> now (mock_claims e now c) = None"
proof -
  have "js_add (Num (of_int (now div 1000 + 600))) (Num 60) = Num (of_int (now div 1000 + 660))"
    using js_add_int [of "now div 1000 + 600" 60] assms(1) by simp
  then show ?thesis
    using assms by (simp add: check_claims_def mock_claims_def get_member_def mock_issuer_url_def audiences_def)
qed


section \<open>Signing in through it\<close>

text \<open>The token endpoint of the provider is the server's own; the client posts what the callback sends.\<close>

definition own_token_endpoint ::
  "oidc_env \<Rightarrow> int \<Rightarrow> jstr \<Rightarrow> mock_db \<Rightarrow> jstr \<Rightarrow> jstr \<Rightarrow> jstr \<Rightarrow> jstr \<Rightarrow> (bool \<times> jsval) option" where
  "own_token_endpoint e now access m url code client redirect =
     (if url \<noteq> mock_issuer_url e @ js ''/token'' then None
      else case fst (mock_token e now access (Some (js ''authorization_code'')) code (Some client) m) of
             Inr body \<Rightarrow> Some (True, body)
           | Inl (status, err) \<Rightarrow> Some (False, JObj [(js ''error'', JStr (js err))]))"

text \<open>The requests of a browser that asks to be \<open>addr\<close>: the login, the form, the callback.\<close>

definition sign_in_as ::
  "oidc_env \<Rightarrow> int \<Rightarrow> jstr \<Rightarrow> jstr \<Rightarrow> jstr \<Rightarrow> jstr \<Rightarrow> jstr \<Rightarrow> jstr \<Rightarrow> jstr \<Rightarrow> jstr \<Rightarrow> oidc_db \<Rightarrow> mock_db \<Rightarrow> oidc_answer" where
  "sign_in_as e now provider addr state nonce code access tkn pwhash db m =
     (case oidc_login e True now state nonce provider db of
        (OidcAuthorize url client redirect st n, db1) \<Rightarrow>
          (case mock_authorize e now code \<lparr>af_state = st, af_nonce = n, af_client = client, af_redirect = redirect, af_email = addr\<rparr> m of
             (Inr (to, c, st'), m1) \<Rightarrow>
               fst (oidc_callback (e\<lparr>oe_token := own_token_endpoint e now access m1\<rparr>) True now tkn pwhash provider (Some c) (Some st') db1)
           | (Inl (status, err), m1) \<Rightarrow> OidcError status err)
      | (answer, db1) \<Rightarrow> answer)"

text \<open>The code the form leaves behind.\<close>

definition issued_code :: "int \<Rightarrow> jstr \<Rightarrow> jstr \<Rightarrow> jstr \<Rightarrow> auth_code" where
  "issued_code now client nonce addr =
     \<lparr>ac_email = addr, ac_name = spaced (hd (str_split addr (js ''@''))), ac_nonce = Some nonce,
      ac_client = client, ac_expires = now + CODE_TTL_MS\<rparr>"

lemma nonempty_given [simp]: "s \<noteq> [] \<Longrightarrow> nonempty (Some s) = Some s"
  by (cases s) (simp_all add: nonempty_def)

lemma own_endpoint_body:
  assumes "mock_token e now access (Some (js ''authorization_code'')) code (Some client) m = (Inr body, m')"
  shows "own_token_endpoint e now access m (mock_issuer_url e @ js ''/token'') code client redirect = Some (True, body)"
  using assms by (simp add: own_token_endpoint_def)

lemma own_token_issued:
  assumes "client \<noteq> []" and "sign_id_token_hs256 e (mock_claims e now (issued_code now client nonce addr)) = Some t"
  shows "fst (mock_token e now access (Some (js ''authorization_code'')) code (Some client)
      (m\<lparr>md_codes := AList.update code (issued_code now client nonce addr) (md_codes m)\<rparr>)) =
    Inr (JObj [(js ''access_token'', JStr access), (js ''token_type'', JStr (js ''Bearer'')),
               (js ''expires_in'', JNum (Num 600)), (js ''id_token'', JStr t)])"
  using assms by (simp add: mock_token_def AList.update_conv' issued_code_def CODE_TTL_MS_def Let_def)

text \<open>The answers of the token endpoint are not part of what a token is checked against.\<close>

lemma signing_key_bytes_token [simp]: "signing_key_bytes (e\<lparr>oe_token := f\<rparr>) = signing_key_bytes e"
  by (simp add: signing_key_bytes_def split: option.split)

lemma check_signature_token [simp]: "check_signature (e\<lparr>oe_token := f\<rparr>) = check_signature e"
  by (intro ext) (simp add: check_signature_def del: js.simps cong del: option.case_cong_weak)

lemma verify_id_token_token [simp]: "verify_id_token (e\<lparr>oe_token := f\<rparr>) = verify_id_token e"
  by (intro ext) (simp add: verify_id_token_def del: js.simps cong del: option.case_cong_weak list.case_cong_weak sum.case_cong_weak prod.case_cong_weak)

lemma app_base_url_token [simp]: "app_base_url (e\<lparr>oe_token := f\<rparr>) = app_base_url e"
  by (simp add: app_base_url_def)

lemma exchange_own_token:
  assumes base: "app_base_url e = Some base" and issuer: "normalize_issuer (op_issuer row) = mock_issuer_url e"
    and client: "op_client row \<noteq> []" and nonce: "nonce \<noteq> []"
    and now: "0 \<le> now" "now < 2 ^ 52"
    and signed: "sign_id_token_hs256 e (mock_claims e now (issued_code now (op_client row) nonce addr)) = Some t"
    and coding: "coded_faithfully e id_token_header"
      "coded_faithfully e (mock_claims e now (issued_code now (op_client row) nonce addr))" "digests_coded_faithfully e"
    and m1: "m1 = m\<lparr>md_codes := AList.update code (issued_code now (op_client row) nonce addr) (md_codes m)\<rparr>"
  shows "exchange_code (e\<lparr>oe_token := own_token_endpoint e now access m1\<rparr>) now provider code nonce row =
    Inr (mock_claims e now (issued_code now (op_client row) nonce addr), JStr access)"
proof -
  let ?claims = "mock_claims e now (issued_code now (op_client row) nonce addr)"
  let ?body = "JObj [(js ''access_token'', JStr access), (js ''token_type'', JStr (js ''Bearer'')),
               (js ''expires_in'', JNum (Num 600)), (js ''id_token'', JStr t)]"
  have "check_claims \<lparr>vo_issuer = mock_issuer_url e, vo_audience = op_client row, vo_nonce = nonce\<rparr> now ?claims = None"
    using now by (intro mock_claims_check) (auto simp: issued_code_def)
  then have v: "verify_id_token e \<lparr>vo_issuer = mock_issuer_url e, vo_audience = op_client row, vo_nonce = nonce\<rparr> now t = Inr ?claims"
    using own_token_verifies [OF signed coding] by simp
  have "own_token_endpoint e now access m1 (mock_issuer_url e @ js ''/token'') code (op_client row) redirect = Some (True, ?body)" for redirect
    using own_token_issued [OF client signed, of access code m] unfolding m1 own_token_endpoint_def by (simp del: js.simps)
  moreover have "prop_of ?body ''id_token'' = Inr (JStr t)" "opt_prop ?body ''access_token'' = JStr access"
    by (simp_all add: opt_prop_def get_member_def)
  moreover have "t \<noteq> []" using signed by (auto simp: sign_id_token_hs256_def Let_def split: option.splits)
  ultimately show ?thesis
    using base issuer v by (simp add: exchange_code_def js_truthy_def del: js.simps)
qed

lemma mock_claims_members:
  "prop_of (mock_claims e now c) ''sub'' = Inr (JStr (ac_email c))"
  "prop_of (mock_claims e now c) ''email'' = Inr (JStr (ac_email c))"
  by (auto simp: mock_claims_def get_member_def proto_name_def split: option.splits)

lemma mock_claims_identity:
  "subject_text e (opt_prop (mock_claims e0 now c) ''sub'') = Some (ac_email c)"
  "ac_email c \<noteq> [] \<Longrightarrow> claimed_email e iss access (mock_claims e0 now c) = JStr (ac_email c)"
  using mock_claims_members [of e0 now c]
  by (auto simp: subject_text_def claimed_email_def or_else_def opt_prop_def js_truthy_def nullish_def Let_def
      split: option.splits sum.splits bool.splits)

text \<open>The three answers of the flow.\<close>

lemma login_answer:
  assumes "resolve_login_provider p db = Some row" "app_base_url e = Some base"
    and "oe_resolve e (js ''/authorize'')
           (if is_mock_provider e (op_issuer row) then normalize_issuer (op_issuer row) else normalize_issuer (op_issuer row) @ js ''/'') = Some url"
  shows "oidc_login e True now state nonce p db =
    (OidcAuthorize url (op_client row) (callback_url base p) state nonce,
     db\<lparr>od_states := (state, nonce, now + 600000) # od_states db\<rparr>)"
  using assms by (simp add: oidc_login_def OIDC_STATE_TTL_S_def Let_def del: js.simps)

lemma form_answer:
  assumes "client \<noteq> []" "is_email addr" "nonce \<noteq> []" "oe_url e (callback_url base p) = Some (h, path)" "own_host e h"
  shows "mock_authorize e now code
      \<lparr>af_state = state, af_nonce = nonce, af_client = client, af_redirect = callback_url base p, af_email = addr\<rparr> m =
    (Inr (callback_url base p, code, state), m\<lparr>md_codes := AList.update code (issued_code now client nonce addr) (md_codes m)\<rparr>)"
proof -
  have "callback_url base p \<noteq> []" by (simp add: callback_url_def)
  then show ?thesis using assms by (simp add: mock_authorize_def issued_code_def)
qed

lemma callback_answer:
  assumes "code \<noteq> []" "state \<noteq> []" "resolve_login_provider p db = Some row"
    and "exchange_code e now p code nonce row = Inr (claims, access)"
    and "subject_text e (opt_prop claims ''sub'') = Some addr" "addr \<noteq> []"
    and "claimed_email e (normalize_issuer (op_issuer row)) access claims = JStr addr"
    and "first_row (\<lambda>u. u_email u = oe_lower e addr) (users (od_id db)) = Some u" "identity_of p (Some addr) db = None"
  shows "fst (oidc_callback e True now tkn pwhash p (Some code) (Some state)
    (db\<lparr>od_states := (state, nonce, now + 600000) # od_states db\<rparr>)) = OidcSignedIn (u_id u)"
  using assms by (simp add: oidc_callback_def take_state_def resolve_login_provider_def oidc_user_def identity_of_def)

text \<open>
  C14: Where a provider's issuer is the server itself, anyone who walks through its login and types a
  user's address into the form of the built-in identity provider is signed in as that user, whatever
  password the account has: the form asks for none, the callback trusts the address of the token, and the
  provider is mounted on every deployment.
\<close>

theorem mock_idp_takeover:
  assumes row: "resolve_login_provider p db = Some row" "normalize_issuer (op_issuer row) = mock_issuer_url e" "op_client row \<noteq> []"
    and deployed: "app_base_url e = Some base" "oe_url e (callback_url base p) = Some (h, path)" "own_host e h"
      "oe_resolve e (js ''/authorize'')
         (if is_mock_provider e (op_issuer row) then normalize_issuer (op_issuer row) else normalize_issuer (op_issuer row) @ js ''/'') = Some url"
      "signing_key_bytes e \<noteq> None"
    and victim: "is_email addr" "first_row (\<lambda>u. u_email u = oe_lower e addr) (users (od_id db)) = Some u" "identity_of p (Some addr) db = None"
    and fresh: "state \<noteq> []" "nonce \<noteq> []" "code \<noteq> []" "0 \<le> now" "now < 2 ^ 52"
    and coding: "coded_faithfully e id_token_header"
      "coded_faithfully e (mock_claims e now (issued_code now (op_client row) nonce addr))" "digests_coded_faithfully e"
  shows "sign_in_as e now p addr state nonce code access tkn pwhash db m = OidcSignedIn (u_id u)"
proof -
  let ?m = "m\<lparr>md_codes := AList.update code (issued_code now (op_client row) nonce addr) (md_codes m)\<rparr>"
  obtain t where t: "sign_id_token_hs256 e (mock_claims e now (issued_code now (op_client row) nonce addr)) = Some t"
    using deployed(5) by (auto simp: sign_id_token_hs256_def Let_def)
  have addr: "addr \<noteq> []" using victim(1) by (auto simp: is_email_def str_split_def)
  have "fst (oidc_callback (e\<lparr>oe_token := own_token_endpoint e now access ?m\<rparr>) True now tkn pwhash p (Some code) (Some state)
      (db\<lparr>od_states := (state, nonce, now + 600000) # od_states db\<rparr>)) = OidcSignedIn (u_id u)"
    by (rule callback_answer [OF fresh(3,1) row(1) exchange_own_token [OF deployed(1) row(2,3) fresh(2,4,5) t coding refl]])
      (use addr victim in \<open>simp_all add: mock_claims_identity issued_code_def\<close>)
  then show ?thesis
    by (simp add: sign_in_as_def login_answer [OF row(1) deployed(1,4)] form_answer [OF row(3) victim(1) fresh(2) deployed(2,3)])
qed

section \<open>A deployment\<close>

definition sample_oidc_base :: oidc_env where
  "sample_oidc_base =
     \<lparr>oe_crypto = \<lparr>sha256 = (\<lambda>s. s), csrf_of = (\<lambda>s. s), verify_password = (\<lambda>h s. False)\<rparr>, oe_lower = (\<lambda>s. s),
      oe_app_url = Some (js ''http://ff.io''), oe_signing = Some (js ''k''), oe_utf8 = (\<lambda>s. s), oe_base64 = (\<lambda>s. []),
      oe_url_encode = map (\<lambda>n. n + 128), oe_url_bytes = map (\<lambda>n. n - 128), oe_text = (\<lambda>s. s), oe_hmac = (\<lambda>k m. k),
      oe_json = (\<lambda>s. None), oe_jwks = (\<lambda>i k. None), oe_check = (\<lambda>a p m s. False), oe_url = (\<lambda>s. Some (js ''ff.io'', [])),
      oe_resolve = (\<lambda>path b. Some (b @ path)), oe_token = (\<lambda>u c cl r. None), oe_userinfo = (\<lambda>u a. None), oe_column = (\<lambda>v. [])\<rparr>"

definition sample_id_claims :: jsval where
  "sample_id_claims = mock_claims sample_oidc_base 1000 (issued_code 1000 (js ''app'') (js ''n'') (js ''a@b.c''))"

definition sample_oidc_env :: oidc_env where
  "sample_oidc_env = sample_oidc_base\<lparr>oe_json := (\<lambda>s. List.find (\<lambda>v. json_text v = s) [id_token_header, sample_id_claims])\<rparr>"

definition sample_provider :: oidc_provider where
  "sample_provider = \<lparr>op_id = 1, op_ws = 1, op_name = js ''sso'', op_issuer = js ''http://ff.io/mock-idp/'', op_client = js ''app'', op_enabled = True\<rparr>"

definition sample_oidc_db :: oidc_db where
  "sample_oidc_db =
     \<lparr>od_id = \<lparr>users = [\<lparr>u_id = 7, u_email = js ''a@b.c'', u_hash = js ''h''\<rparr>], workspaces = [], sessions = [], api_tokens = [], members = [],
        invites = [], attempts = []\<rparr>, od_providers = [sample_provider], od_identities = [], od_states = [], od_next = 8\<rparr>"

lemma json_text_head:
  assumes "own_entries kvs = (k, JStr v) # rest"
  shows "\<exists>t. json_text (JObj kvs) = js ''{'' @ json_str k @ js '':'' @ t"
proof -
  have head: "\<exists>t. join (x # xs) sep = x @ t" for x sep :: jstr and xs by (cases xs) auto
  have ne: "json_str v \<noteq> []" and data: "is_data (JStr v)" by (simp_all add: json_str_def is_data_def)
  obtain xs where "json_text (JObj kvs) = js ''{'' @ join ((json_str k @ js '':'' @ json_str v) # xs) (js '','') @ js ''}''"
    unfolding json_text.simps assms using ne data by (simp del: join.simps js.simps)
  moreover obtain t where "join ((json_str k @ js '':'' @ json_str v) # xs) (js '','') = (json_str k @ js '':'' @ json_str v) @ t"
    using head by blast
  ultimately have "json_text (JObj kvs) = js ''{'' @ json_str k @ js '':'' @ (json_str v @ t @ js ''}'')"
    by (simp only: append.assoc)
  then show ?thesis by blast
qed

lemma sample_texts_differ: "json_text id_token_header \<noteq> json_text sample_id_claims"
proof -
  have "own_entries [(js ''alg'', JStr (js ''HS256'')), (js ''typ'', JStr (js ''JWT''))] = [(js ''alg'', JStr (js ''HS256'')), (js ''typ'', JStr (js ''JWT''))]"
    by (simp add: own_entries_def is_index_key_def is_digit_def)
  then obtain t where t: "json_text id_token_header = js ''{'' @ json_str (js ''alg'') @ js '':'' @ t"
    unfolding id_token_header_def using json_text_head by blast
  obtain kvs where kvs: "sample_id_claims = JObj kvs" by (simp add: sample_id_claims_def mock_claims_def)
  then have "\<exists>v rest. own_entries kvs = (js ''iss'', JStr v) # rest"
    by (auto simp: sample_id_claims_def mock_claims_def issued_code_def own_entries_def is_index_key_def is_digit_def)
  then obtain t' where "json_text sample_id_claims = js ''{'' @ json_str (js ''iss'') @ js '':'' @ t'"
    unfolding kvs using json_text_head by blast
  with t show ?thesis by (simp add: json_str_def)
qed

lemma sample_coding:
  "coded_faithfully sample_oidc_env id_token_header" "coded_faithfully sample_oidc_env sample_id_claims"
  "digests_coded_faithfully sample_oidc_env"
  using sample_texts_differ
  by (auto simp: coded_faithfully_def digests_coded_faithfully_def encode_text_def sample_oidc_env_def sample_oidc_base_def comp_def)

lemma sample_claims_env: "mock_claims sample_oidc_env now c = mock_claims sample_oidc_base now c"
  by (simp add: mock_claims_def mock_issuer_url_def sample_oidc_env_def)

lemma sample_provider_issuer: "normalize_issuer (op_issuer sample_provider) = mock_issuer_url sample_oidc_env"
  by (simp add: normalize_issuer_def mock_issuer_url_def sample_provider_def sample_oidc_env_def sample_oidc_base_def)

lemma sample_resolves: "resolve_login_provider (js ''sso'') sample_oidc_db = Some sample_provider"
  by (simp add: resolve_login_provider_def sample_oidc_db_def sample_provider_def)

lemma sample_base: "app_base_url sample_oidc_env = Some (js ''http://ff.io'')"
  by (simp add: app_base_url_def normalize_issuer_def sample_oidc_env_def sample_oidc_base_def)

lemma sample_signs: "signing_key_bytes sample_oidc_env \<noteq> None"
  by (simp add: signing_key_bytes_def sample_oidc_env_def sample_oidc_base_def)

lemma sample_known:
  "first_row (\<lambda>u. u_email u = oe_lower sample_oidc_env (js ''a@b.c'')) (users (od_id sample_oidc_db)) =
     Some \<lparr>u_id = 7, u_email = js ''a@b.c'', u_hash = js ''h''\<rparr>"
  "identity_of (js ''sso'') (Some (js ''a@b.c'')) sample_oidc_db = None"
  by (simp_all add: first_row_def identity_of_def sample_oidc_db_def sample_oidc_env_def sample_oidc_base_def)

lemma sample_issued:
  "mock_claims sample_oidc_env 1000 (issued_code 1000 (op_client sample_provider) (js ''n'') (js ''a@b.c'')) = sample_id_claims"
  by (simp add: sample_claims_env sample_id_claims_def sample_provider_def)

lemma sample_urls:
  "oe_url sample_oidc_env s = Some (js ''ff.io'', [])" "own_host sample_oidc_env (js ''ff.io'')"
  "oe_resolve sample_oidc_env path b = Some (b @ path)"
  by (simp_all add: own_host_def sample_oidc_env_def sample_oidc_base_def)

lemma sample_address: "is_email (js ''a@b.c'')"
  by (simp add: is_email_def str_split_def word_char_def is_space_def starts_with_def)

lemma sample_client: "op_client sample_provider \<noteq> []"
  by (simp add: sample_provider_def)

theorem mock_idp_takeover_witness:
  "sign_in_as sample_oidc_env 1000 (js ''sso'') (js ''a@b.c'') (js ''s'') (js ''n'') (js ''c'') (js ''a'') (js ''t'') (js ''p'')
     sample_oidc_db \<lparr>md_codes = [], md_access = []\<rparr> = OidcSignedIn 7"
proof -
  have "sign_in_as sample_oidc_env 1000 (js ''sso'') (js ''a@b.c'') (js ''s'') (js ''n'') (js ''c'') (js ''a'') (js ''t'') (js ''p'')
     sample_oidc_db \<lparr>md_codes = [], md_access = []\<rparr> = OidcSignedIn (u_id \<lparr>u_id = 7, u_email = js ''a@b.c'', u_hash = js ''h''\<rparr>)"
    by (rule mock_idp_takeover [OF sample_resolves sample_provider_issuer sample_client sample_base sample_urls(1,2,3) sample_signs
          sample_address sample_known _ _ _ _ _ sample_coding(1) _ sample_coding(3)]) (simp_all only: sample_issued sample_coding, simp_all)
  then show ?thesis by simp
qed

text \<open>
  C7: A callback signs someone in only with a state that a login has stored and that has not expired,
  and with a token of the resolved provider: signed by its key (or the server's own, in HS256), issued
  by its issuer for its client, not expired, and carrying the nonce stored with the state.
\<close>

theorem oidc_sign_in_verified:
  assumes "oidc_callback e ok now tkn pwhash p code state db = (OidcSignedIn uid, db')"
  shows "\<exists>s nonce t row tok claims. state = Some s \<and> (s, nonce, t) \<in> set (od_states db) \<and> now < t \<and>
     resolve_login_provider p db = Some row \<and>
     token_for e \<lparr>vo_issuer = normalize_issuer (op_issuer row), vo_audience = op_client row, vo_nonce = nonce\<rparr> now tok claims"
proof (rule oidc_callback_cases [OF assms])
  fix c s nonce db1 row claims access db2
  assume a: "state = Some s" "take_state ok now s db = (Some nonce, db1)" "resolve_login_provider p db = Some row"
    "exchange_code e now p c nonce row = Inr (claims, access)"
  obtain tok where "verify_id_token e \<lparr>vo_issuer = normalize_issuer (op_issuer row), vo_audience = op_client row, vo_nonce = nonce\<rparr> now tok = Inr claims"
    using exchange_code_Inr [OF a(4)] by blast
  with a take_state_Some [OF a(2)] verify_id_token_sound show ?thesis by blast
qed

definition sample_live_env :: oidc_env where
  "sample_live_env = sample_oidc_env\<lparr>oe_token := own_token_endpoint sample_oidc_env 1000 (js ''a'')
     \<lparr>md_codes = [(js ''c'', issued_code 1000 (js ''app'') (js ''n'') (js ''a@b.c''))], md_access = []\<rparr>\<rparr>"

lemma sample_exchange:
  "exchange_code sample_live_env 1000 p (js ''c'') (js ''n'') sample_provider = Inr (sample_id_claims, JStr (js ''a''))"
proof -
  obtain t where t: "sign_id_token_hs256 sample_oidc_env (mock_claims sample_oidc_env 1000
      (issued_code 1000 (op_client sample_provider) (js ''n'') (js ''a@b.c''))) = Some t"
    using sample_signs by (auto simp: sign_id_token_hs256_def Let_def)
  have m: "\<lparr>md_codes = [(js ''c'', issued_code 1000 (js ''app'') (js ''n'') (js ''a@b.c''))], md_access = []\<rparr> =
      \<lparr>md_codes = [], md_access = []\<rparr>\<lparr>md_codes := AList.update (js ''c'')
         (issued_code 1000 (op_client sample_provider) (js ''n'') (js ''a@b.c'')) (md_codes \<lparr>md_codes = [], md_access = []\<rparr>)\<rparr>"
    by (simp add: sample_provider_def)
  show ?thesis unfolding sample_live_env_def
    using exchange_own_token [OF sample_base sample_provider_issuer sample_client _ _ _ t sample_coding(1) _ sample_coding(3) m]
    by (simp only: sample_issued sample_coding) simp
qed

lemma sample_identity:
  "subject_text e (opt_prop sample_id_claims ''sub'') = Some (js ''a@b.c'')"
  "claimed_email e iss access sample_id_claims = JStr (js ''a@b.c'')"
  using mock_claims_identity [where c = "issued_code 1000 (js ''app'') (js ''n'') (js ''a@b.c'')"]
  by (simp_all add: sample_id_claims_def issued_code_def)

theorem oidc_sign_in_verified_witness:
  "\<exists>s nonce t row tok claims. Some (js ''s'') = Some s \<and> (s, nonce, t) \<in> {(js ''s'', js ''n'', 601000)} \<and> (1000::int) < t \<and>
     resolve_login_provider (js ''sso'') sample_oidc_db = Some row \<and>
     token_for sample_live_env \<lparr>vo_issuer = normalize_issuer (op_issuer row), vo_audience = op_client row, vo_nonce = nonce\<rparr> 1000 tok claims"
proof -
  let ?db = "sample_oidc_db\<lparr>od_states := [(js ''s'', js ''n'', 1000 + 600000)]\<rparr>"
  have states: "od_states sample_oidc_db = []" by (simp add: sample_oidc_db_def)
  have lower: "oe_lower sample_live_env = oe_lower sample_oidc_env" by (simp add: sample_live_env_def)
  have "fst (oidc_callback sample_live_env True 1000 (js ''t'') (js ''p'') (js ''sso'') (Some (js ''c'')) (Some (js ''s''))
      (sample_oidc_db\<lparr>od_states := (js ''s'', js ''n'', 1000 + 600000) # od_states sample_oidc_db\<rparr>)) =
      OidcSignedIn (u_id \<lparr>u_id = 7, u_email = js ''a@b.c'', u_hash = js ''h''\<rparr>)"
    by (rule callback_answer [OF _ _ sample_resolves sample_exchange sample_identity(1) _ sample_identity(2)])
      (simp_all only: sample_known lower, simp_all)
  then obtain db' where "oidc_callback sample_live_env True 1000 (js ''t'') (js ''p'') (js ''sso'') (Some (js ''c'')) (Some (js ''s'')) ?db =
      (OidcSignedIn 7, db')"
    unfolding states by (metis prod.collapse user_row.select_convs(1))
  from oidc_sign_in_verified [OF this] show ?thesis
    by (simp add: resolve_login_provider_def)
qed

end
