(* ===== verification/Spec2Isabelle.thy ===== *)
theory Spec2Isabelle
  imports Interp Access AuditChain Cron Plans NetAcl ValidatorProps ExecIndexes ExecOutcomes ExecRefines Hooks Secrets Outbox WorkflowTriggers OidcMock
begin

text \<open>
  FlowForge Open: a verification library of the workflow engine and its server.

  The program.  A workflow is a YAML manifest of triggers, inputs and steps.  \<open>packages/engine\<close> parses
  and evaluates the expressions of a manifest and validates the manifest; \<open>packages/shared\<close> holds the
  plans and the roles; \<open>apps/server\<close> keeps users, workspaces, workflows and runs in PostgreSQL, admits
  runs by hand, by webhook and by schedule, executes them step by step, meters them and bills them.
  A run is queued, executed by a job, parked at a delay or an approval, resumed by the scheduler's
  tick or by a decision, and ends as succeeded, failed or canceled.

  The theories, in the order in which they build on one another:

  \<^item> \<open>Prelude\<close>: errors as sums (\<open>bindR\<close>), lists, and what all components share.
  \<^item> \<open>JsString\<close>, \<open>JsNumber\<close>, \<open>JsValue\<close>: the values of the language the program is written in.  A string
    is a list of code units, a number is a rational that is rounded once per operation to a double
    (or NaN, an infinity, the negative zero), an object is an association list without duplicates
    over the inherited properties of a plain object.
  \<^item> \<open>ExprToken\<close>, \<open>ExprParser\<close>, \<open>ExprGrammar\<close>, \<open>ExprOps\<close>, \<open>ExprEval\<close>, \<open>Interp\<close>:
    \<open>packages/engine/src/expression-evaluator.ts\<close>.  Tokenizer (round trip with its printer), parser with
    its two limits (sound for the grammar of the documentation, total), evaluator with the operation
    counter (total, bounded; what static property paths can reach), and interpolation.
  \<^item> \<open>Rbac\<close>, \<open>Access\<close>: \<open>packages/shared/src/rbac.ts\<close>, \<open>apps/server/src/middleware/auth.ts\<close>, \<open>auth/session.ts\<close>,
    \<open>routes/members.ts\<close>, \<open>routes/auth.ts\<close>.  Sessions, tokens, guards, members, invitations, login.  No
    guarded handler runs without a live credential and the permission, the last owner stays, a
    removed member is locked out.
  \<^item> \<open>AuditChain\<close>: \<open>audit/emit.ts\<close> with the retention purge.  The chain always verifies, and two
    histories with the same last hash are equal up to a collision.
  \<^item> \<open>Cron\<close>: \<open>lib/cron.ts\<close>, with the calendar written out.  The next fire is the first occurrence.
  \<^item> \<open>Plans\<close>: \<open>packages/shared/src/plans.ts\<close>, \<open>auth/entitlements.ts\<close>, the period close of
    \<open>services/system-jobs.ts\<close>.  One invoice per period.
  \<^item> \<open>NetAcl\<close>: the address checks of the ingress.
  \<^item> \<open>Validator\<close>, \<open>ValidatorProps\<close>: \<open>packages/engine/src/manifest-validator.ts\<close> on untyped values.
  \<^item> \<open>RunStore\<close>, \<open>RunRoutes\<close>, \<open>Scheduler\<close>: the tables of a run, \<open>services/billing.ts\<close>, \<open>services/queue.ts\<close>,
    \<open>routes/runs.ts\<close>, the admission of \<open>routes/webhooks.ts\<close>, and every loop of the tick
    (\<open>services/scheduler.ts\<close>).  \<open>Lifecycle\<close> states the contract of one transition (\<open>legal\<close>),
    \<open>RunSteps\<close> shows it for every operation, \<open>RunProps\<close> derives the properties of a run's life from it for
    any sequence of operations (locale \<open>run_system\<close>, interpreted by \<open>life_step\<close>).
  \<^item> \<open>Durations\<close>, \<open>Egress\<close>, \<open>HttpStep\<close>, \<open>ExecState\<close>, \<open>Executor\<close>, \<open>ExecWalk\<close>:
    \<open>services/run-executor.ts\<close>.  The egress policy, the hops and attempts of a request, the durable
    state and the step executors, and the walk over the manifest with resumption.
  \<^item> \<open>ExecProps\<close>, \<open>ExecIndexes\<close>, \<open>ExecOutcomes\<close>, \<open>ExecRefines\<close>: what executions keep.  The locale
    \<open>walk_frame\<close> carries a relation from the single writes to whole executions of any manifest; it is
    interpreted by the checkpoints, the requests, the unique indexes and the abstraction
    \<open>life_view\<close>, through which an execution refines the two writes that \<open>RunProps\<close> talks about.
  \<^item> \<open>Hooks\<close>: the whole handler of \<open>routes/webhooks.ts\<close>, with its synchronous mode that runs the executor.
  \<^item> \<open>Secrets\<close>: the module variable of the decrypted secrets, shared by the executions of a process.
  \<^item> \<open>Outbox\<close>: \<open>services/notification-processor.ts\<close>, with several dispatchers as a step relation.

  \<^item> \<open>Workflows\<close>, \<open>WorkflowProps\<close>, \<open>WorkflowVersions\<close>, \<open>WorkflowTriggers\<close>: \<open>routes/workflows.ts\<close> and
    \<open>routes/triggers.ts\<close>.  Slugs, versions, promotion, and the reconciliation of the triggers of a manifest
    with the rows.  For any sequence of requests of any workspaces (\<open>wf_run\<close>): the tables stay consistent,
    no request reaches the rows of another workspace, only a promotion changes what runs execute, a
    promotion installs exactly the declared triggers; and where the code falls short of that: readers
    without a workspace check, paths that collide, schedules that share a row, triggers that come back,
    deleted workflows that starve the scheduler.
  \<^item> \<open>Oidc\<close>, \<open>OidcProps\<close>, \<open>OidcMock\<close>: \<open>auth/oidc.ts\<close>, \<open>routes/oidc.ts\<close>, \<open>routes/mock-idp.ts\<close>.  What a sign-in
    has verified, that a state signs in once, and that the built-in identity provider signs anyone in as
    anyone; the token endpoint of that last flow is the model's own \<open>mock_token\<close>.

  How state corresponds.  A table is a list of rows in the order of creation, an id a natural number,
  a time an integer of milliseconds; a handler is a function from the request and the tables to the
  answer (an error with its status code on the left) and the tables.  A handler, a tick and a job run
  without interleaving, as single transactions; where the interleaving of the code matters it is
  spelled out: the executor in two writes (\<open>cancel_overwritten\<close>), the secrets of concurrent
  executions, two dispatchers of the outbox, a process that dies (\<open>crashed_run_never_executed\<close>).

  Parameters.  What is not in the repository is an argument: SHA-256 and HMAC, the vault, the
  Unicode case tables, the date library, the URL parser, the resolver, the block list, \<open>fetch\<close>,
  \<open>JSON.parse\<close>, the clock, random draws, the YAML parser and the schema library, the answers of an
  identity provider, base64url and the signature functions (that they undo themselves is a hypothesis,
  \<open>coded_faithfully\<close>, where a token the server signed is read back).  Collisions of the
  hash appear in a conclusion (\<open>audit_history_determined\<close>), never as a hypothesis.

  Bounds.  Recursion of the parser over brackets has fuel 51, one more than the nesting limit of
  50 levels at which it throws; its loops have the number of the remaining tokens as fuel, and both are
  shown to suffice (\<open>parse_expression_total\<close>).  The evaluator has the limit of 10,000 operations plus
  one as fuel (\<open>evaluate_expression_total\<close>).  The cron search is bounded by its own six years.  All other
  recursions are structural or have a measure.

  Not modelled: the web applications and the CLI, the OpenAPI document, seeds, demos and templates,
  the boot code with its environment and migrations, the CRUD routes of credentials and tokens, the
  listing routes, the live feed, mail.  They are
  listed in the manifest.  Of the modelled files, the failure of a query, the heartbeat timer and the
  texts of error messages are left out.
\<close>

end
